(* ===== verification/Omemo_Prelude.thy ===== *)
theory Omemo_Prelude
  imports Main "HOL-Library.Word" "HOL-Library.AList" "HOL-Library.Multiset"
begin

text \<open>
  The shared prelude of the omemo-go development: Go's machine types (\<open>byte\<close>, \<open>uint32\<close>,
  nil-able byte slices), the decimal formatting that \<open>fmt\<close> uses for \<open>%d\<close>, the
  iteration over a Go map, whose order the language leaves open, and the generic lemmas on
  lists, association lists and words that several components use.
\<close>

section \<open>Collections\<close>

named_theorems act_simps \<open>equations that run an action\<close>
named_theorems wp_simps \<open>weakest-precondition equations of the action combinators\<close>
named_theorems wp_intros \<open>introduction rules for weakest preconditions of interface calls\<close>

section \<open>Go's machine types\<close>

type_synonym byte = "8 word"
type_synonym uint32 = "32 word"

text \<open>
  A \<open>[]byte\<close>: the code distinguishes the nil slice from an empty one (\<open>plaintext == nil\<close>,
  \<open>msg.Payload == nil\<close>, \<open>currentSPK.Public != nil\<close>), so a slice is \<open>None\<close> (nil) or
  \<open>Some bs\<close>. No code of the library writes into a slice after storing it, so slices are values.
\<close>

type_synonym slice = "byte list option"

text \<open>\<open>len(s)\<close>: zero for nil.\<close>

definition slice_len :: "slice \<Rightarrow> nat" where
  "slice_len s = (case s of None \<Rightarrow> 0 | Some bs \<Rightarrow> length bs)"

text \<open>\<open>string(s)\<close>, the conversion used for map keys: nil and the empty slice give the same string.\<close>

definition slice_string :: "slice \<Rightarrow> byte list" where
  "slice_string s = (case s of None \<Rightarrow> [] | Some bs \<Rightarrow> bs)"

section \<open>Decimal formatting\<close>

definition digit_char :: "nat \<Rightarrow> char" where
  "digit_char d = char_of (48 + d)"

fun dec_string :: "nat \<Rightarrow> string" where
  "dec_string n =
     (if n < 10 then [digit_char n] else dec_string (n div 10) @ [digit_char (n mod 10)])"

declare dec_string.simps [simp del]

text \<open>\<open>%d\<close> of an unsigned 32-bit value.\<close>

definition fmt_d :: "uint32 \<Rightarrow> string" where
  "fmt_d w = dec_string (unat w)"

text \<open>The value a digit string denotes, to state that formatting loses nothing.\<close>

definition undec :: "string \<Rightarrow> nat" where
  "undec s = foldl (\<lambda>n c. 10 * n + (of_char c - 48)) 0 s"

lemma undec_snoc: "undec (s @ [c]) = 10 * undec s + (of_char c - 48)"
  by (simp add: undec_def)

lemma of_char_digit_char: "d < 10 \<Longrightarrow> of_char (digit_char d) = (48 + d :: nat)"
  by (simp add: digit_char_def)

lemma undec_dec_string: "undec (dec_string n) = n"
proof (induction n rule: dec_string.induct)
  case (1 n)
  show ?case
  proof (cases "n < 10")
    case True
    then show ?thesis
      by (simp add: dec_string.simps [of n] undec_def of_char_digit_char)
  next
    case False
    with "1.IH" show ?thesis
      by (simp add: dec_string.simps [of n] undec_snoc of_char_digit_char)
  qed
qed

lemma dec_string_inject: "dec_string m = dec_string n \<longleftrightarrow> m = n"
  by (metis undec_dec_string)

lemma fmt_d_inject: "fmt_d v = fmt_d w \<longleftrightarrow> v = w"
  by (simp add: fmt_d_def dec_string_inject word_unat_eq_iff)

section \<open>Ranging over a Go map\<close>

text \<open>
  The order in which \<open>for _, r := range m\<close> visits a map is not specified and differs from one
  loop to the next. \<open>go_range\<close> takes the runtime's choices as a list of numbers and picks, one
  after the other, the entry each number selects among those not yet visited: every list of
  choices gives a permutation of the entries, and every permutation comes from some choices.
\<close>

definition drop_nth :: "nat \<Rightarrow> 'a list \<Rightarrow> 'a list" where
  "drop_nth i xs = take i xs @ drop (Suc i) xs"

lemma length_drop_nth: "i < length xs \<Longrightarrow> length (drop_nth i xs) = length xs - 1"
  by (simp add: drop_nth_def)

lemma mset_drop_nth: "i < length xs \<Longrightarrow> add_mset (xs ! i) (mset (drop_nth i xs)) = mset xs"
  by (metis add_mset_add_single append_assoc drop_nth_def id_take_nth_drop mset.simps(2) mset_append union_mset_add_mset_right)

fun choice :: "nat list \<Rightarrow> nat" where
  "choice [] = 0"
| "choice (p # ps) = p"

function go_range :: "nat list \<Rightarrow> 'a list \<Rightarrow> 'a list" where
  "go_range ps xs =
     (if xs = [] then []
      else let i = choice ps mod length xs
           in xs ! i # go_range (tl ps) (drop_nth i xs))"
  by pat_completeness auto
termination
  by (relation "measure (\<lambda>(ps, xs). length xs)") (auto simp: length_drop_nth)

declare go_range.simps [simp del]

lemma go_range_Nil [simp]: "go_range ps [] = []"
  by (simp add: go_range.simps)

lemma mset_go_range [simp]: "mset (go_range ps xs) = mset xs"
proof (induction ps xs rule: go_range.induct)
  case (1 ps xs)
  show ?case
  proof (cases "xs = []")
    case False
    let ?i = "choice ps mod length xs"
    from False have i: "?i < length xs" by simp
    have "mset (go_range ps xs) = add_mset (xs ! ?i) (mset (drop_nth ?i xs))"
      using False "1.IH" by (subst go_range.simps) (simp add: Let_def)
    with i show ?thesis by (simp add: mset_drop_nth)
  qed simp
qed

lemma set_go_range [simp]: "set (go_range ps xs) = set xs"
  by (metis mset_go_range set_mset_mset)

lemma length_go_range [simp]: "length (go_range ps xs) = length xs"
  by (metis mset_go_range size_mset)

lemma distinct_go_range [simp]: "distinct (go_range ps xs) = distinct xs"
  by (metis mset_go_range mset_eq_imp_distinct_iff)

text \<open>Every order is possible.\<close>

lemma go_range_any_order: "mset ys = mset xs \<Longrightarrow> \<exists>ps. go_range ps xs = ys"
proof (induction ys arbitrary: xs)
  case Nil
  then show ?case by simp
next
  case (Cons y ys)
  from Cons.prems have "y \<in> set xs" by (metis list.set_intros(1) set_mset_mset)
  then obtain i where i: "i < length xs" "xs ! i = y" by (auto simp: in_set_conv_nth)
  from mset_drop_nth [OF i(1)] i(2) Cons.prems have "mset ys = mset (drop_nth i xs)"
    by (metis add_mset_add_single add_right_cancel mset.simps(2))
  from Cons.IH [OF this] obtain ps where ps: "go_range ps (drop_nth i xs) = ys" by blast
  have "go_range (i # ps) xs = y # ys"
    using i ps by (subst go_range.simps) (auto simp: Let_def)
  then show ?case by blast
qed

section \<open>Words\<close>

lemma unat_of_nat_uint32: "k < 2 ^ 32 \<Longrightarrow> unat (of_nat k :: uint32) = k"
  by (simp add: unsigned_of_nat take_bit_nat_eq_self)

lemma unat_uint32_less: "unat (n :: uint32) < 2 ^ 32"
  using unsigned_less [of n] by simp

section \<open>Association lists\<close>

lemma map_of_update_other [simp]: "k \<noteq> k' \<Longrightarrow> map_of (AList.update k v al) k' = map_of al k'"
  by (simp add: update_conv')

lemma distinct_keys_update: "distinct (map fst al) \<Longrightarrow> distinct (map fst (AList.update k v al))"
  by (rule distinct_update)

lemma distinct_keys_delete: "distinct (map fst al) \<Longrightarrow> distinct (map fst (AList.delete k al))"
  by (rule distinct_delete)

lemma length_update_fresh: "k \<notin> set (map fst al) \<Longrightarrow> length (AList.update k v al) = Suc (length al)"
  by (induction al) auto

lemma keys_update: "set (map fst (AList.update k v al)) = insert k (set (map fst al))"
  by (simp only: update_keys) auto

lemma keys_delete: "set (map fst (AList.delete k al)) = set (map fst al) - {k}"
  by (simp add: delete_keys)

end
