(* ===== verification/Omemo_Types.thy ===== *)
theory Omemo_Types
  imports Omemo_Prelude
begin

text \<open>
  The protocol objects of \<open>types.go\<close> and \<open>envelope.go\<close>: protocols, devices, bundles, device
  lists, trust states and the encrypted envelope. Go's two enumerations are open integers; the
  named constants are constructors and every other integer is kept by a constructor of its own.
\<close>

section \<open>types.go\<close>

datatype Protocol = ProtocolV2 | ProtocolV1 | UnknownProtocol int

fun Protocol_String :: "Protocol \<Rightarrow> string" where
  "Protocol_String ProtocolV1 = ''v1''"
| "Protocol_String ProtocolV2 = ''v2''"
| "Protocol_String (UnknownProtocol n) = ''unknown''"

type_synonym DeviceID = uint32

record Device =
  dev_JID :: string
  dev_ID :: DeviceID

record SignedPreKey =
  spk_ID :: uint32
  spk_Public :: slice
  spk_Signature :: slice

record PreKey =
  pk_ID :: uint32
  pk_Public :: slice

record Bundle =
  b_Device :: Device
  b_IdentityKey :: slice
  b_SignedPreKey :: SignedPreKey
  b_PreKeys :: "PreKey list"

record DeviceList =
  dl_JID :: string
  dl_Devices :: "DeviceID list"

datatype TrustState = TrustUndecided | TrustTrusted | TrustUntrusted | UnknownTrust int

fun TrustState_String :: "TrustState \<Rightarrow> string" where
  "TrustState_String TrustTrusted = ''trusted''"
| "TrustState_String TrustUntrusted = ''untrusted''"
| "TrustState_String s = ''undecided''"

text \<open>
  Go's zero values, which a map lookup yields for a missing key: the first constant of each
  enumeration.
\<close>

instantiation Protocol :: zero
begin

definition zero_Protocol :: Protocol where
  "zero_Protocol = ProtocolV2"

instance ..

end

instantiation TrustState :: zero
begin

definition zero_TrustState :: TrustState where
  "zero_TrustState = TrustUndecided"

instance ..

end

section \<open>envelope.go\<close>

record KeyExchange =
  kx_IdentityKey :: slice
  kx_EphemeralKey :: slice
  kx_SignedPreKeyID :: uint32
  kx_PreKeyID :: uint32

record RecipientKey =
  rk_Device :: DeviceID
  rk_Data :: slice
  rk_KeyExchange :: "KeyExchange option"

record EncryptedMessage =
  em_Sender :: Device
  em_Keys :: "RecipientKey list"
  em_Payload :: slice
  em_IV :: slice

end
