(* ===== verification/Omemo_Errors.thy ===== *)
theory Omemo_Errors
  imports Omemo_Types
begin

text \<open>
  Errors as values: \<open>errors.go\<close> and the wrapping that \<open>fmt.Errorf("...: %w", err)\<close> does in
  \<open>manager.go\<close> and \<open>signal.go\<close>, with \<open>errors.Is\<close> and \<open>Error()\<close>. A run-time panic (or the
  runtime's deadlock report) is a value of its own, \<open>Fatal\<close>, which no code of the library
  catches and no \<open>Errorf\<close> wraps.
\<close>

datatype goerror =
    ErrUntrustedDevice
  | ErrBlockedDevice
  | ErrNoRecipients
  | ErrUnknownSession
  | ErrOwnDeviceKeyMissing
  | ErrPreKeyNotFound
  | Errorf string
  | Wrap string goerror
  | Fatal string

text \<open>\<open>Error()\<close>: \<open>Wrap s e\<close> is \<open>fmt.Errorf(s + ": %w", e)\<close>.\<close>

fun Error :: "goerror \<Rightarrow> string" where
  "Error ErrUntrustedDevice = ''omemo: device is untrusted''"
| "Error ErrBlockedDevice = ''omemo: device is blocked''"
| "Error ErrNoRecipients = ''omemo: no recipient device could be encrypted for''"
| "Error ErrUnknownSession = ''omemo: no session for sender device''"
| "Error ErrOwnDeviceKeyMissing = ''omemo: message has no key for this device''"
| "Error ErrPreKeyNotFound = ''omemo: one-time prekey not found (already consumed or unknown)''"
| "Error (Errorf s) = s"
| "Error (Wrap s e) = s @ '': '' @ Error e"
| "Error (Fatal s) = s"

text \<open>\<open>Unwrap()\<close> and \<open>errors.Is\<close>: the chain of wrapped errors is searched for the target.\<close>

fun errors_Is :: "goerror \<Rightarrow> goerror \<Rightarrow> bool" where
  "errors_Is (Wrap s e) t = (Wrap s e = t \<or> errors_Is e t)"
| "errors_Is e t = (e = t)"

fun is_fatal :: "goerror \<Rightarrow> bool" where
  "is_fatal (Fatal s) = True"
| "is_fatal e = False"

text \<open>\<open>DeviceError\<close> of \<open>errors.go\<close> with its two methods.\<close>

record DeviceError =
  de_Device :: Device
  de_Err :: goerror

definition DeviceError_Error :: "DeviceError \<Rightarrow> string" where
  "DeviceError_Error e =
     ''device '' @ dev_JID (de_Device e) @ ''/'' @ fmt_d (dev_ID (de_Device e)) @ '': ''
       @ Error (de_Err e)"

definition DeviceError_Unwrap :: "DeviceError \<Rightarrow> goerror" where
  "DeviceError_Unwrap e = de_Err e"

lemma errors_Is_refl [simp]: "errors_Is e e"
  by (cases e) simp_all

lemma errors_Is_Wrap: "errors_Is e t \<Longrightarrow> errors_Is (Wrap s e) t"
  by simp

lemma is_fatal_iff: "is_fatal e \<longleftrightarrow> (\<exists>s. e = Fatal s)"
  by (cases e) simp_all

end
