(* ===== verification/Omemo_Actions.thy ===== *)
theory Omemo_Actions
  imports Omemo_Errors
begin

text \<open>
  Go functions that return \<open>(value, error)\<close> and act on state, as state-passing actions: the
  result is an error or a value, with the state after the call in both cases (a Go function that
  fails keeps the effects it already had). The combinators are the code's own control flow:
  \<open>andThen\<close> is the early return \<open>if err != nil \<lbrace> return err \<rbrace>\<close>, \<open>wrapErr\<close> the same with
  \<open>fmt.Errorf("s: %w", err)\<close>, \<open>tryCatch\<close> a call whose error is handled. The weakest
  precondition \<open>wp\<close> of an action is computed by the equations collected in \<open>wp_simps\<close>.
\<close>

section \<open>Combinators\<close>

type_synonym ('w, 'a) act = "'w \<Rightarrow> (goerror + 'a) \<times> 'w"

definition ret :: "'a \<Rightarrow> ('w, 'a) act" where
  "ret x = (\<lambda>w. (Inr x, w))"

definition throw :: "goerror \<Rightarrow> ('w, 'a) act" where
  "throw e = (\<lambda>w. (Inl e, w))"

definition andThen :: "('w, 'a) act \<Rightarrow> ('a \<Rightarrow> ('w, 'b) act) \<Rightarrow> ('w, 'b) act" where
  "andThen m f = (\<lambda>w. case m w of (Inl e, w') \<Rightarrow> (Inl e, w') | (Inr x, w') \<Rightarrow> f x w')"

text \<open>A panic is not an error value: the handler never sees it.\<close>

definition tryCatch ::
  "('w, 'a) act \<Rightarrow> (goerror \<Rightarrow> ('w, 'b) act) \<Rightarrow> ('a \<Rightarrow> ('w, 'b) act) \<Rightarrow> ('w, 'b) act" where
  "tryCatch m h f = (\<lambda>w. case m w of
       (Inl e, w') \<Rightarrow> if is_fatal e then (Inl e, w') else h e w'
     | (Inr x, w') \<Rightarrow> f x w')"

definition wrapErr :: "string \<Rightarrow> ('w, 'a) act \<Rightarrow> ('w, 'a) act" where
  "wrapErr s m = tryCatch m (\<lambda>e. throw (Wrap s e)) ret"

text \<open>An error that the code turns into another one: \<open>wrapped s e\<close> is what \<open>wrapErr s\<close> returns.\<close>

definition wrapped :: "string \<Rightarrow> goerror \<Rightarrow> goerror" where
  "wrapped s e = (if is_fatal e then e else Wrap s e)"

text \<open>An action on a component of the state.\<close>

definition zoom :: "('w \<Rightarrow> 's) \<Rightarrow> ('s \<Rightarrow> 'w \<Rightarrow> 'w) \<Rightarrow> ('s, 'a) act \<Rightarrow> ('w, 'a) act" where
  "zoom g p m = (\<lambda>w. case m (g w) of (r, s) \<Rightarrow> (r, p s w))"

section \<open>Running\<close>

lemma ret_run [act_simps]: "ret x w = (Inr x, w)"
  by (simp add: ret_def)

lemma throw_run [act_simps]: "throw e w = (Inl e, w)"
  by (simp add: throw_def)

lemma andThen_run [act_simps]:
  "andThen m f w = (case m w of (Inl e, w') \<Rightarrow> (Inl e, w') | (Inr x, w') \<Rightarrow> f x w')"
  by (simp add: andThen_def)

lemma tryCatch_run [act_simps]:
  "tryCatch m h f w = (case m w of
       (Inl e, w') \<Rightarrow> if is_fatal e then (Inl e, w') else h e w'
     | (Inr x, w') \<Rightarrow> f x w')"
  by (simp add: tryCatch_def)

lemma wrapErr_run [act_simps]:
  "wrapErr s m w = (case m w of
       (Inl e, w') \<Rightarrow> (Inl (wrapped s e), w') | (Inr x, w') \<Rightarrow> (Inr x, w'))"
  by (simp add: wrapErr_def tryCatch_def throw_def ret_def wrapped_def split: prod.split sum.split)

lemma zoom_run [act_simps]: "zoom g p m w = (case m (g w) of (r, s) \<Rightarrow> (r, p s w))"
  by (simp add: zoom_def)

lemma andThen_ret [simp]: "andThen (ret x) f = f x"
  by (simp add: andThen_def ret_def)

lemma andThen_throw [simp]: "andThen (throw e) f = throw e"
  by (simp add: andThen_def throw_def)

lemma andThen_assoc: "andThen (andThen m f) g = andThen m (\<lambda>x. andThen (f x) g)"
  by (simp add: andThen_def fun_eq_iff split: prod.split sum.split)

lemma wrapped_Is: "errors_Is e t \<Longrightarrow> errors_Is (wrapped s e) t"
  by (simp add: wrapped_def)

lemma is_fatal_wrapped [simp]: "is_fatal (wrapped s e) = is_fatal e"
  by (simp add: wrapped_def)

lemma wrapped_nonfatal [simp]: "\<not> is_fatal e \<Longrightarrow> wrapped s e = Wrap s e"
  by (simp add: wrapped_def)

section \<open>Weakest preconditions\<close>

text \<open>\<open>wp m Q E w\<close>: from \<open>w\<close>, \<open>m\<close> returns a value with \<open>Q\<close>, or an error with \<open>E\<close>.\<close>

definition wp :: "('w, 'a) act \<Rightarrow> ('a \<Rightarrow> 'w \<Rightarrow> bool) \<Rightarrow> (goerror \<Rightarrow> 'w \<Rightarrow> bool) \<Rightarrow> 'w \<Rightarrow> bool" where
  "wp m Q E w = (case m w of (Inl e, w') \<Rightarrow> E e w' | (Inr x, w') \<Rightarrow> Q x w')"

lemma wp_ret [wp_simps]: "wp (ret x) Q E w = Q x w"
  by (simp add: wp_def ret_def)

lemma wp_throw [wp_simps]: "wp (throw e) Q E w = E e w"
  by (simp add: wp_def throw_def)

lemma wp_andThen [wp_simps]: "wp (andThen m f) Q E w = wp m (\<lambda>x. wp (f x) Q E) E w"
  by (simp add: wp_def andThen_def split: prod.split sum.split)

lemma wp_tryCatch [wp_simps]:
  "wp (tryCatch m h f) Q E w =
     wp m (\<lambda>x. wp (f x) Q E) (\<lambda>e w. if is_fatal e then E e w else wp (h e) Q E w) w"
  by (auto simp: wp_def tryCatch_def split: prod.split sum.split)

lemma wp_wrapErr [wp_simps]: "wp (wrapErr s m) Q E w = wp m Q (\<lambda>e. E (wrapped s e)) w"
  by (simp add: wp_def wrapErr_run split: prod.split sum.split)

lemma wp_zoom [wp_simps]:
  "wp (zoom g p m) Q E w = wp m (\<lambda>x s. Q x (p s w)) (\<lambda>e s. E e (p s w)) (g w)"
  by (simp add: wp_def zoom_def split: prod.split sum.split)

lemma wp_if [wp_simps]: "wp (if b then m else n) Q E w = (if b then wp m Q E w else wp n Q E w)"
  by simp

lemma wp_case_option [wp_simps]:
  "wp (case x of None \<Rightarrow> m | Some y \<Rightarrow> f y) Q E w =
     (case x of None \<Rightarrow> wp m Q E w | Some y \<Rightarrow> wp (f y) Q E w)"
  by (simp split: option.split)

lemma wp_case_prod [wp_simps]: "wp (case p of (a, b) \<Rightarrow> f a b) Q E w = (case p of (a, b) \<Rightarrow> wp (f a b) Q E w)"
  by (simp split: prod.split)

lemma wp_Let [wp_simps]: "wp (let x = a in f x) Q E w = (let x = a in wp (f x) Q E w)"
  by (simp add: Let_def)

text \<open>Consequence, and reading a run off a weakest precondition.\<close>

lemma wp_mono:
  assumes "wp m Q E w" and "\<And>x w'. Q x w' \<Longrightarrow> Q' x w'" and "\<And>e w'. E e w' \<Longrightarrow> E' e w'"
  shows "wp m Q' E' w"
  using assms by (auto simp: wp_def split: prod.splits sum.splits)

lemma wp_conj: "wp m Q E w \<Longrightarrow> wp m Q' E' w \<Longrightarrow> wp m (\<lambda>x w. Q x w \<and> Q' x w) (\<lambda>e w. E e w \<and> E' e w) w"
  by (auto simp: wp_def split: prod.splits sum.splits)

lemma wp_runI:
  assumes "\<And>x w'. m w = (Inr x, w') \<Longrightarrow> Q x w'" and "\<And>e w'. m w = (Inl e, w') \<Longrightarrow> E e w'"
  shows "wp m Q E w"
  using assms by (auto simp: wp_def split: prod.split sum.split)

lemma wp_run_Inr: "wp m Q E w \<Longrightarrow> m w = (Inr x, w') \<Longrightarrow> Q x w'"
  by (simp add: wp_def)

lemma wp_run_Inl: "wp m Q E w \<Longrightarrow> m w = (Inl e, w') \<Longrightarrow> E e w'"
  by (simp add: wp_def)

text \<open>The state after the call, whatever the result.\<close>

lemma wp_snd: "wp m (\<lambda>_. P) (\<lambda>_. P) w = P (snd (m w))"
  by (simp add: wp_def split: prod.split sum.split)

lemma wp_True: "wp m (\<lambda>_ _. True) (\<lambda>_ _. True) s"
  by (simp add: wp_snd)

lemma wp_ret_fun: "wp (ret x) Q E = Q x"
  by (rule ext) (simp add: wp_ret)

lemma wp_total: "\<exists>x s'. m s = (Inr x, s') \<and> Q x s' \<Longrightarrow> wp m Q E s"
  by (auto simp: wp_def)

lemma wp_eq: "wp m (\<lambda>x w'. r = Inr x \<and> w' = v) (\<lambda>e w'. r = Inl e \<and> w' = v) w \<longleftrightarrow> m w = (r, v)"
  by (auto simp: wp_def split: prod.split sum.split)

end
