(* ===== verification/Omemo_Store.thy ===== *)
theory Omemo_Store
  imports Omemo_Actions
begin

text \<open>
  The persistence interface of \<open>store.go\<close>. A Go interface value is a record of its methods;
  each method is an action on the store's own state, whose type \<open>'s\<close> stays open. The contract
  from which the manager's properties are proved is stated on an abstract store (\<open>astore\<close>): every method is
  specified by a relation between the abstract state before, the result and the abstract state
  after (\<open>op_spec\<close>), an error leaving the abstract state as it was. The contract is one locale
  per Go interface (\<open>identity_store\<close>, \<open>prekey_store\<close>, \<open>session_store\<close>, \<open>trust_store\<close>,
  \<open>device_store\<close>) and their sum \<open>omemo_store\<close>; \<open>memstore\<close> is an instance. It follows the comments of
  the interface but is weaker in two places, where the in-memory store does not keep them: an identifier
  from \<open>NextPreKeyID\<close> is fresh only while fewer than \<open>2 ^ 32 - 1\<close> were issued (the comment: it MUST never
  repeat), and the error of \<open>ConsumePreKey\<close> for an unknown prekey is left open (\<open>errors.go\<close>:
  \<open>ErrPreKeyNotFound\<close>).
\<close>

section \<open>Records and interfaces\<close>

record SignedPreKeyRecord =
  spr_ID :: uint32
  spr_Public :: slice
  spr_Private :: slice
  spr_Signature :: slice

record PreKeyRecord =
  pkr_ID :: uint32
  pkr_Public :: slice
  pkr_Private :: slice

text \<open>The comma-ok results \<open>(value, ok, err)\<close> are options: \<open>Some value\<close> where \<open>ok\<close> is true.\<close>

record 's Store =
  IdentityKeyPair :: "('s, slice) act"
  SetIdentityKeyPair :: "slice \<Rightarrow> ('s, unit) act"
  LocalDevice :: "('s, Device) act"
  SetLocalDevice :: "Device \<Rightarrow> ('s, unit) act"
  CurrentSignedPreKey :: "('s, SignedPreKeyRecord) act"
  StaleSignedPreKey :: "('s, SignedPreKeyRecord option) act"
  RotateSignedPreKey :: "SignedPreKeyRecord \<Rightarrow> ('s, unit) act"
  PreKeyCount :: "('s, int) act"
  PreKeys :: "('s, PreKeyRecord list) act"
  NextPreKeyID :: "('s, uint32) act"
  PutPreKeys :: "PreKeyRecord list \<Rightarrow> ('s, unit) act"
  ConsumePreKey :: "uint32 \<Rightarrow> ('s, PreKeyRecord) act"
  Session :: "Device \<Rightarrow> ('s, slice option) act"
  PutSession :: "Device \<Rightarrow> slice \<Rightarrow> ('s, unit) act"
  DeleteSession :: "Device \<Rightarrow> ('s, unit) act"
  Trust :: "slice \<Rightarrow> ('s, TrustState) act"
  SetTrust :: "slice \<Rightarrow> TrustState \<Rightarrow> ('s, unit) act"
  Devices :: "string \<Rightarrow> ('s, DeviceID list) act"
  SetDevices :: "string \<Rightarrow> DeviceID list \<Rightarrow> ('s, unit) act"
  RemoteIdentityKey :: "Device \<Rightarrow> ('s, slice option) act"
  PutRemoteIdentityKey :: "Device \<Rightarrow> slice \<Rightarrow> ('s, unit) act"

section \<open>The abstract store\<close>

text \<open>\<open>a_issued\<close> holds every one-time prekey ID ever allocated, the consumed ones included.\<close>

record astore =
  a_identityKey :: slice
  a_localDevice :: Device
  a_currentSPK :: SignedPreKeyRecord
  a_staleSPK :: "SignedPreKeyRecord option"
  a_preKeys :: "uint32 \<rightharpoonup> PreKeyRecord"
  a_issued :: "uint32 set"
  a_sessions :: "Device \<rightharpoonup> slice"
  a_trust :: "byte list \<Rightarrow> TrustState"
  a_devices :: "string \<Rightarrow> DeviceID list"
  a_remoteID :: "Device \<rightharpoonup> slice"

text \<open>Storing prekey records one after the other, a later record replacing one with its ID.\<close>

definition put_recs :: "PreKeyRecord list \<Rightarrow> (uint32 \<rightharpoonup> PreKeyRecord) \<Rightarrow> (uint32 \<rightharpoonup> PreKeyRecord)" where
  "put_recs recs m = foldl (\<lambda>m r. m(pkr_ID r \<mapsto> r)) m recs"

definition rotate_spk :: "SignedPreKeyRecord \<Rightarrow> astore \<Rightarrow> astore" where
  "rotate_spk next a = a\<lparr>a_staleSPK := (if spr_Public (a_currentSPK a) \<noteq> None
       then Some (a_currentSPK a) else a_staleSPK a), a_currentSPK := next\<rparr>"

text \<open>
  \<open>op_spec invar alpha m T\<close>: on a valid state, \<open>m\<close> returns a value related by \<open>T\<close> to the abstract
  states before and after, or an error that is no panic and changes nothing.
\<close>

definition op_spec :: "('s \<Rightarrow> bool) \<Rightarrow> ('s \<Rightarrow> 'b) \<Rightarrow> ('s, 'a) act \<Rightarrow> ('b \<Rightarrow> 'a \<Rightarrow> 'b \<Rightarrow> bool) \<Rightarrow> bool" where
  "op_spec invar alpha m T \<longleftrightarrow> (\<forall>s. invar s \<longrightarrow>
     wp m (\<lambda>x s'. invar s' \<and> T (alpha s) x (alpha s'))
          (\<lambda>e s'. invar s' \<and> alpha s' = alpha s \<and> \<not> is_fatal e) s)"

definition succeeds :: "('s \<Rightarrow> bool) \<Rightarrow> ('s, 'a) act \<Rightarrow> bool" where
  "succeeds invar m \<longleftrightarrow> (\<forall>s. invar s \<longrightarrow> (\<exists>x s'. m s = (Inr x, s')))"

lemma op_spec_total_wp:
  assumes "op_spec invar alpha m T" and "succeeds invar m" and "invar s"
    and "\<And>x s'. invar s' \<Longrightarrow> T (alpha s) x (alpha s') \<Longrightarrow> Q x s'"
  shows "wp m Q E s"
proof -
  from assms(2,3) obtain x s' where "m s = (Inr x, s')" by (auto simp: succeeds_def)
  with assms(1,3,4) show ?thesis by (auto simp: op_spec_def wp_def)
qed

lemma op_specD:
  "op_spec invar alpha m T \<Longrightarrow> invar s \<Longrightarrow>
     wp m (\<lambda>x s'. invar s' \<and> T (alpha s) x (alpha s')) (\<lambda>e s'. invar s' \<and> alpha s' = alpha s \<and> \<not> is_fatal e) s"
  by (simp add: op_spec_def)

lemma op_spec_wp:
  assumes "op_spec invar alpha m T" and "invar s"
    and "\<And>x s'. invar s' \<Longrightarrow> T (alpha s) x (alpha s') \<Longrightarrow> Q x s'"
    and "\<And>e s'. invar s' \<Longrightarrow> alpha s' = alpha s \<Longrightarrow> \<not> is_fatal e \<Longrightarrow> E e s'"
  shows "wp m Q E s"
  by (rule wp_mono [OF op_specD [OF assms(1,2)]]) (auto intro: assms(3,4))

lemma op_specI_Inr:
  assumes "\<And>s. invar s \<Longrightarrow> m s = (Inr (f s), g s)"
    and "\<And>s. invar s \<Longrightarrow> invar (g s) \<and> T (alpha s) (f s) (alpha (g s))"
  shows "op_spec invar alpha m T"
  using assms by (simp add: op_spec_def wp_def)

lemma put_recs_Nil [simp]: "put_recs [] m = m"
  by (simp add: put_recs_def)

lemma put_recs_Cons [simp]: "put_recs (r # rs) m = put_recs rs (m(pkr_ID r \<mapsto> r))"
  by (simp add: put_recs_def)

lemma put_recs_append: "put_recs (xs @ ys) m = put_recs ys (put_recs xs m)"
  by (simp add: put_recs_def)

lemma put_recs_other: "i \<notin> pkr_ID ` set rs \<Longrightarrow> put_recs rs m i = m i"
  by (induction rs arbitrary: m) auto

lemma dom_put_recs: "dom (put_recs rs m) = dom m \<union> pkr_ID ` set rs"
  by (induction rs arbitrary: m) auto

lemma put_recs_member:
  "distinct (map pkr_ID rs) \<Longrightarrow> r \<in> set rs \<Longrightarrow> put_recs rs m (pkr_ID r) = Some r"
  by (induction rs arbitrary: m) (auto simp: put_recs_other)

section \<open>The contract\<close>

locale store_base =
  fixes S :: "'s Store" and invar :: "'s \<Rightarrow> bool" and alpha :: "'s \<Rightarrow> astore"

locale identity_store = store_base +
  assumes IdentityKeyPair_spec:
      "op_spec invar alpha (IdentityKeyPair S) (\<lambda>a k a'. a' = a \<and> k = a_identityKey a)"
    and SetIdentityKeyPair_spec:
      "op_spec invar alpha (SetIdentityKeyPair S k) (\<lambda>a _ a'. a' = a\<lparr>a_identityKey := k\<rparr>)"
    and LocalDevice_spec:
      "op_spec invar alpha (LocalDevice S) (\<lambda>a d a'. a' = a \<and> d = a_localDevice a)"
    and SetLocalDevice_spec:
      "op_spec invar alpha (SetLocalDevice S d) (\<lambda>a _ a'. a' = a\<lparr>a_localDevice := d\<rparr>)"

locale prekey_store = store_base +
  assumes CurrentSignedPreKey_spec:
      "op_spec invar alpha (CurrentSignedPreKey S) (\<lambda>a r a'. a' = a \<and> r = a_currentSPK a)"
    and StaleSignedPreKey_spec:
      "op_spec invar alpha (StaleSignedPreKey S) (\<lambda>a r a'. a' = a \<and> r = a_staleSPK a)"
    and RotateSignedPreKey_spec:
      "op_spec invar alpha (RotateSignedPreKey S r) (\<lambda>a _ a'. a' = rotate_spk r a)"
    and PreKeyCount_spec:
      "op_spec invar alpha (PreKeyCount S) (\<lambda>a n a'. a' = a \<and> n = int (card (dom (a_preKeys a))))"
    and PreKeys_spec:
      "op_spec invar alpha (PreKeys S) (\<lambda>a rs a'. a' = a \<and>
         mset rs = image_mset (\<lambda>i. the (a_preKeys a i)) (mset_set (dom (a_preKeys a))))"
    and NextPreKeyID_spec:
      "op_spec invar alpha (NextPreKeyID S) (\<lambda>a i a'. card (a_issued a) < 2 ^ 32 - 1 \<longrightarrow>
         i \<notin> a_issued a \<and> a' = a\<lparr>a_issued := insert i (a_issued a)\<rparr>)"
    and NextPreKeyID_frame:
      "op_spec invar alpha (NextPreKeyID S) (\<lambda>a i a'. a'\<lparr>a_issued := a_issued a\<rparr> = a)"
    and PutPreKeys_spec:
      "op_spec invar alpha (PutPreKeys S rs) (\<lambda>a _ a'. a' = a\<lparr>a_preKeys := put_recs rs (a_preKeys a)\<rparr>)"
    and ConsumePreKey_spec:
      "op_spec invar alpha (ConsumePreKey S i) (\<lambda>a r a'. a_preKeys a i = Some r \<and>
         a' = a\<lparr>a_preKeys := (a_preKeys a)(i := None)\<rparr>)"
    and pool_finite: "invar s \<Longrightarrow> finite (dom (a_preKeys (alpha s)))"

locale session_store = store_base +
  assumes Session_spec:
      "op_spec invar alpha (Session S d) (\<lambda>a r a'. a' = a \<and> r = a_sessions a d)"
    and PutSession_spec:
      "op_spec invar alpha (PutSession S d x) (\<lambda>a _ a'. a' = a\<lparr>a_sessions := (a_sessions a)(d \<mapsto> x)\<rparr>)"
    and DeleteSession_spec:
      "op_spec invar alpha (DeleteSession S d) (\<lambda>a _ a'. a' = a\<lparr>a_sessions := (a_sessions a)(d := None)\<rparr>)"

locale trust_store = store_base +
  assumes Trust_spec:
      "op_spec invar alpha (Trust S k) (\<lambda>a t a'. a' = a \<and> t = a_trust a (slice_string k))"
    and SetTrust_spec:
      "op_spec invar alpha (SetTrust S k t) (\<lambda>a _ a'. a' = a\<lparr>a_trust := (a_trust a)(slice_string k := t)\<rparr>)"

locale device_store = store_base +
  assumes Devices_spec:
      "op_spec invar alpha (Devices S j) (\<lambda>a ds a'. a' = a \<and> ds = a_devices a j)"
    and SetDevices_spec:
      "op_spec invar alpha (SetDevices S j ds) (\<lambda>a _ a'. a' = a\<lparr>a_devices := (a_devices a)(j := ds)\<rparr>)"
    and RemoteIdentityKey_spec:
      "op_spec invar alpha (RemoteIdentityKey S d) (\<lambda>a k a'. a' = a \<and> k = a_remoteID a d)"
    and PutRemoteIdentityKey_spec:
      "op_spec invar alpha (PutRemoteIdentityKey S d k) (\<lambda>a _ a'. a' = a\<lparr>a_remoteID := (a_remoteID a)(d \<mapsto> k)\<rparr>)"

locale omemo_store = identity_store + prekey_store + session_store + trust_store + device_store

text \<open>
  A store whose methods do not fail (one in memory): only the lookup of an unknown one-time prekey
  returns an error.
\<close>

locale reliable_store = omemo_store +
  assumes IdentityKeyPair_total: "succeeds invar (IdentityKeyPair S)"
    and SetIdentityKeyPair_total: "succeeds invar (SetIdentityKeyPair S k)"
    and LocalDevice_total: "succeeds invar (LocalDevice S)"
    and SetLocalDevice_total: "succeeds invar (SetLocalDevice S d)"
    and CurrentSignedPreKey_total: "succeeds invar (CurrentSignedPreKey S)"
    and StaleSignedPreKey_total: "succeeds invar (StaleSignedPreKey S)"
    and RotateSignedPreKey_total: "succeeds invar (RotateSignedPreKey S r)"
    and PreKeyCount_total: "succeeds invar (PreKeyCount S)"
    and PreKeys_total: "succeeds invar (PreKeys S)"
    and NextPreKeyID_total: "succeeds invar (NextPreKeyID S)"
    and PutPreKeys_total: "succeeds invar (PutPreKeys S rs)"
    and ConsumePreKey_total:
      "invar s \<Longrightarrow> a_preKeys (alpha s) i \<noteq> None \<Longrightarrow> \<exists>r s'. ConsumePreKey S i s = (Inr r, s')"
    and Session_total: "succeeds invar (Session S d)"
    and PutSession_total: "succeeds invar (PutSession S d x)"
    and DeleteSession_total: "succeeds invar (DeleteSession S d)"
    and Trust_total: "succeeds invar (Trust S k)"
    and SetTrust_total: "succeeds invar (SetTrust S k t)"
    and Devices_total: "succeeds invar (Devices S j)"
    and SetDevices_total: "succeeds invar (SetDevices S j ds)"
    and RemoteIdentityKey_total: "succeeds invar (RemoteIdentityKey S d)"
    and PutRemoteIdentityKey_total: "succeeds invar (PutRemoteIdentityKey S d k)"

end
