(* ===== verification/Omemo_Signal.thy ===== *)
theory Omemo_Signal
  imports Omemo_Store
begin

text \<open>
  The package \<open>internal/signal\<close>: every call into the cryptographic backend, dispatched on the
  protocol. The backend (the module \<open>xochimilco\<close>, its X3DH, Double Ratchet and legacy-signal
  packages, and the curve arithmetic and random source of Go's standard library) is not part of
  the repository: it is the record \<open>backend\<close> of the functions the package calls, a parameter of
  every definition. Its ratchet states are the open types \<open>'dr\<close> and \<open>'ls\<close>, the legacy X3DH
  result the open type \<open>'x\<close>; functions act on the environment \<open>'e\<close>, because most draw randomness.
  A method that mutates its receiver returns the receiver's new state, also when it fails.
\<close>

section \<open>The backend\<close>

text \<open>The fields of \<open>legacysignal.PreKeyMessage\<close> the package reads.\<close>

record PreKeyMessage =
  pm_SignedPreKeyID :: uint32
  pm_PreKeyID :: uint32
  pm_IdentityKey :: slice
  pm_BaseKey :: slice
  pm_Message :: slice

record ('e, 'dr, 'ls, 'x) backend =
  rand_Read :: "nat \<Rightarrow> ('e, byte list) act"
  ed25519_public :: "byte list \<Rightarrow> byte list"
  x25519_public :: "byte list \<Rightarrow> byte list"
  x3dh_CreateNewSpk :: "slice \<Rightarrow> ('e, slice \<times> slice \<times> slice) act"
  x3dh_CreateNewOpk :: "('e, slice \<times> slice) act"
  x3dh_CreateInitialMessage ::
    "slice \<Rightarrow> slice \<Rightarrow> slice \<Rightarrow> slice \<Rightarrow> slice \<Rightarrow> ('e, slice \<times> slice \<times> slice) act"
  x3dh_ReceiveInitialMessage ::
    "slice \<Rightarrow> slice \<Rightarrow> slice \<Rightarrow> slice \<Rightarrow> slice \<Rightarrow> ('e, slice \<times> slice) act"
  dr_CreateActive :: "slice \<Rightarrow> slice \<Rightarrow> slice \<Rightarrow> ('e, 'dr) act"
  dr_CreatePassive :: "slice \<Rightarrow> slice \<Rightarrow> slice \<Rightarrow> slice \<Rightarrow> ('e, 'dr) act"
  dr_UnmarshalBinary :: "slice \<Rightarrow> ('e, 'dr) act"
  dr_MarshalBinary :: "'dr \<Rightarrow> ('e, slice) act"
  dr_Encrypt :: "slice \<Rightarrow> ('dr \<times> 'e, slice) act"
  dr_Decrypt :: "slice \<Rightarrow> ('dr \<times> 'e, slice) act"
  ls_CreateNewSpk :: "slice \<Rightarrow> ('e, slice \<times> slice \<times> slice) act"
  ls_CreateInitialMessage ::
    "slice \<Rightarrow> slice \<Rightarrow> slice \<Rightarrow> slice \<Rightarrow> slice \<Rightarrow> ('e, 'x \<times> slice) act"
  ls_ReceiveInitialMessage ::
    "slice \<Rightarrow> slice \<Rightarrow> slice \<Rightarrow> slice \<Rightarrow> slice \<Rightarrow> slice \<Rightarrow> ('e, 'x) act"
  ls_NewActiveSession :: "slice \<Rightarrow> slice \<Rightarrow> 'x \<Rightarrow> ('e, 'ls) act"
  ls_NewPassiveSession :: "slice \<Rightarrow> slice \<Rightarrow> 'x \<Rightarrow> ('e, 'ls) act"
  ls_ParsePreKeyMessage :: "slice \<Rightarrow> ('e, PreKeyMessage) act"
  ls_UnmarshalBinary :: "slice \<Rightarrow> ('e, 'ls) act"
  ls_MarshalBinary :: "'ls \<Rightarrow> ('e, slice) act"
  ls_EncryptPreKeyWhisperMessage ::
    "slice \<Rightarrow> slice \<Rightarrow> uint32 \<Rightarrow> uint32 \<Rightarrow> uint32 \<Rightarrow> ('ls \<times> 'e, slice) act"
  ls_EncryptWhisperMessage :: "slice \<Rightarrow> ('ls \<times> 'e, slice) act"
  ls_DecryptWhisperMessage :: "slice \<Rightarrow> ('ls \<times> 'e, slice) act"
  xo_EncryptPayload :: "slice \<Rightarrow> ('e, slice \<times> slice) act"
  xo_EncryptPayloadV1 :: "slice \<Rightarrow> ('e, slice \<times> slice \<times> slice) act"
  xo_DecryptPayload :: "slice \<Rightarrow> slice \<Rightarrow> ('e, slice) act"
  xo_DecryptPayloadV1 :: "slice \<Rightarrow> slice \<Rightarrow> slice \<Rightarrow> ('e, slice) act"

section \<open>Key generation\<close>

text \<open>
  \<open>ecdh.X25519().GenerateKey\<close> takes 32 random bytes as the scalar; \<open>ed25519.GenerateKey\<close> takes a
  32-byte seed and returns the seed followed by the public key.
\<close>

definition GenerateIdentityKey ::
  "('e, 'dr, 'ls, 'x) backend \<Rightarrow> Protocol \<Rightarrow> ('e, slice) act" where
  "GenerateIdentityKey B p =
     (if p = ProtocolV1
      then andThen (rand_Read B 32) (\<lambda>priv. ret (Some priv))
      else andThen (rand_Read B 32) (\<lambda>seed. ret (Some (seed @ ed25519_public B seed))))"

text \<open>
  \<open>ecdh.X25519().NewPrivateKey\<close> accepts exactly the 32-byte keys; \<open>ed25519.PrivateKey.Public\<close>
  returns a copy of the key's second half.
\<close>

definition IdentityPublicKey ::
  "('e, 'dr, 'ls, 'x) backend \<Rightarrow> Protocol \<Rightarrow> slice \<Rightarrow> ('e, slice) act" where
  "IdentityPublicKey B p priv =
     (if p = ProtocolV1
      then (if slice_len priv \<noteq> 32
            then throw (Wrap ''parsing curve25519 private key''
                   (Errorf ''crypto/ecdh: invalid private key size''))
            else ret (Some (x25519_public B (slice_string priv))))
      else (if slice_len priv \<noteq> 64
            then throw (Errorf ''ed25519 private key MUST be of 64 bytes'')
            else ret (Some (drop 32 (slice_string priv)))))"

definition GenerateSignedPreKey ::
  "('e, 'dr, 'ls, 'x) backend \<Rightarrow> Protocol \<Rightarrow> slice \<Rightarrow> ('e, slice \<times> slice \<times> slice) act" where
  "GenerateSignedPreKey B p idKey =
     (if p = ProtocolV1 then ls_CreateNewSpk B idKey else x3dh_CreateNewSpk B idKey)"

definition GenerateOneTimePreKey ::
  "('e, 'dr, 'ls, 'x) backend \<Rightarrow> ('e, slice \<times> slice) act" where
  "GenerateOneTimePreKey B = x3dh_CreateNewOpk B"

section \<open>Sessions\<close>

record legacyPendingPreKey =
  lp_ekPub :: slice
  lp_preKeyID :: uint32
  lp_signedPreKeyID :: uint32
  lp_registrationID :: uint32

text \<open>The two ratchet pointers, of which the code sets the one its protocol uses.\<close>

record ('dr, 'ls) signal_Session =
  s_protocol :: Protocol
  s_dr :: "'dr option"
  s_ls :: "'ls option"
  s_pending :: "legacyPendingPreKey option"

definition NewActiveSession ::
  "('e, 'dr, 'ls, 'x) backend \<Rightarrow> Protocol \<Rightarrow> slice \<Rightarrow> slice \<Rightarrow> slice \<Rightarrow> slice \<Rightarrow> slice \<Rightarrow>
     uint32 \<Rightarrow> uint32 \<Rightarrow> uint32 \<Rightarrow> ('e, ('dr, 'ls) signal_Session \<times> slice) act" where
  "NewActiveSession B p idKey peerIdKey peerSpkPub peerSpkSig peerOpkPub
       peerSignedPreKeyID peerPreKeyID registrationID =
     (if p = ProtocolV1
      then andThen (wrapErr ''X3DH initial message''
               (ls_CreateInitialMessage B idKey peerIdKey peerSpkPub peerSpkSig peerOpkPub))
             (\<lambda>(x3dhSess, ekPub).
           andThen (wrapErr ''create active session'' (ls_NewActiveSession B idKey peerIdKey x3dhSess))
             (\<lambda>ls. ret (\<lparr>s_protocol = ProtocolV1, s_dr = None, s_ls = Some ls,
                         s_pending = Some \<lparr>lp_ekPub = ekPub, lp_preKeyID = peerPreKeyID,
                           lp_signedPreKeyID = peerSignedPreKeyID,
                           lp_registrationID = registrationID\<rparr>\<rparr>, ekPub)))
      else andThen (wrapErr ''X3DH initial message''
               (x3dh_CreateInitialMessage B idKey peerIdKey peerSpkPub peerSpkSig peerOpkPub))
             (\<lambda>(sessKey, associatedData, ekPub).
           andThen (wrapErr ''create active ratchet'' (dr_CreateActive B sessKey associatedData peerSpkPub))
             (\<lambda>dr. ret (\<lparr>s_protocol = ProtocolV2, s_dr = Some dr, s_ls = None, s_pending = None\<rparr>,
                        ekPub))))"

definition NewPassiveSession ::
  "('e, 'dr, 'ls, 'x) backend \<Rightarrow> slice \<Rightarrow> slice \<Rightarrow> slice \<Rightarrow> slice \<Rightarrow> slice \<Rightarrow> slice \<Rightarrow>
     ('e, ('dr, 'ls) signal_Session) act" where
  "NewPassiveSession B idKey peerIdKey spkPub spkPriv opkPriv ekPub =
     andThen (wrapErr ''X3DH receive initial message''
         (x3dh_ReceiveInitialMessage B idKey peerIdKey spkPriv opkPriv ekPub))
       (\<lambda>(sessKey, associatedData).
     andThen (wrapErr ''create passive ratchet'' (dr_CreatePassive B sessKey associatedData spkPub spkPriv))
       (\<lambda>dr. ret \<lparr>s_protocol = ProtocolV2, s_dr = Some dr, s_ls = None, s_pending = None\<rparr>))"

definition PeekLegacyPreKeyIDs ::
  "('e, 'dr, 'ls, 'x) backend \<Rightarrow> slice \<Rightarrow> ('e, uint32 \<times> uint32) act" where
  "PeekLegacyPreKeyIDs B data =
     andThen (ls_ParsePreKeyMessage B data) (\<lambda>pm. ret (pm_SignedPreKeyID pm, pm_PreKeyID pm))"

definition NewPassiveSessionFromPreKeyBlob ::
  "('e, 'dr, 'ls, 'x) backend \<Rightarrow> slice \<Rightarrow> slice \<Rightarrow> slice \<Rightarrow> slice \<Rightarrow> slice \<Rightarrow>
     ('e, ('dr, 'ls) signal_Session \<times> slice \<times> slice) act" where
  "NewPassiveSessionFromPreKeyBlob B idKey spkPub spkPriv opkPriv data =
     andThen (wrapErr ''parsing legacy prekey message'' (ls_ParsePreKeyMessage B data)) (\<lambda>pm.
     andThen (wrapErr ''X3DH receive initial message''
         (ls_ReceiveInitialMessage B idKey (pm_IdentityKey pm) spkPub spkPriv opkPriv (pm_BaseKey pm)))
       (\<lambda>x3dhSess.
     andThen (wrapErr ''create passive session'' (ls_NewPassiveSession B idKey (pm_IdentityKey pm) x3dhSess))
       (\<lambda>ls. ret (\<lparr>s_protocol = ProtocolV1, s_dr = None, s_ls = Some ls, s_pending = None\<rparr>,
                  pm_IdentityKey pm, pm_Message pm))))"

definition LoadSession ::
  "('e, 'dr, 'ls, 'x) backend \<Rightarrow> Protocol \<Rightarrow> slice \<Rightarrow> ('e, ('dr, 'ls) signal_Session) act" where
  "LoadSession B p data =
     (if p = ProtocolV1
      then andThen (wrapErr ''restore legacy session state'' (ls_UnmarshalBinary B data))
             (\<lambda>ls. ret \<lparr>s_protocol = ProtocolV1, s_dr = None, s_ls = Some ls, s_pending = None\<rparr>)
      else andThen (wrapErr ''restore ratchet state'' (dr_UnmarshalBinary B data))
             (\<lambda>dr. ret \<lparr>s_protocol = ProtocolV2, s_dr = Some dr, s_ls = None, s_pending = None\<rparr>))"

text \<open>A method call on a ratchet pointer: a nil pointer panics.\<close>

definition nil_deref :: goerror where
  "nil_deref = Fatal ''runtime error: invalid memory address or nil pointer dereference''"

definition Marshal ::
  "('e, 'dr, 'ls, 'x) backend \<Rightarrow> ('dr, 'ls) signal_Session \<Rightarrow> ('e, slice) act" where
  "Marshal B s =
     (if s_protocol s = ProtocolV1
      then (case s_ls s of None \<Rightarrow> throw nil_deref | Some ls \<Rightarrow> ls_MarshalBinary B ls)
      else (case s_dr s of None \<Rightarrow> throw nil_deref | Some dr \<Rightarrow> dr_MarshalBinary B dr))"

text \<open>A backend method on the session's ratchet, whose new state goes back into the session.\<close>

definition on_dr ::
  "('dr \<times> 'e, 'a) act \<Rightarrow> (('dr, 'ls) signal_Session \<times> 'e, 'a) act" where
  "on_dr m = (\<lambda>(s, e). case s_dr s of
       None \<Rightarrow> (Inl nil_deref, (s, e))
     | Some dr \<Rightarrow> (case m (dr, e) of (r, (dr', e')) \<Rightarrow> (r, (s\<lparr>s_dr := Some dr'\<rparr>, e'))))"

definition on_ls ::
  "('ls \<times> 'e, 'a) act \<Rightarrow> (('dr, 'ls) signal_Session \<times> 'e, 'a) act" where
  "on_ls m = (\<lambda>(s, e). case s_ls s of
       None \<Rightarrow> (Inl nil_deref, (s, e))
     | Some ls \<Rightarrow> (case m (ls, e) of (r, (ls', e')) \<Rightarrow> (r, (s\<lparr>s_ls := Some ls'\<rparr>, e'))))"

definition Encrypt ::
  "('e, 'dr, 'ls, 'x) backend \<Rightarrow> slice \<Rightarrow> (('dr, 'ls) signal_Session \<times> 'e, slice) act" where
  "Encrypt B keyMaterial = (\<lambda>(s, e).
     if s_protocol s = ProtocolV1
     then (case s_pending s of
             Some p \<Rightarrow> on_ls (ls_EncryptPreKeyWhisperMessage B keyMaterial (lp_ekPub p)
                        (lp_preKeyID p) (lp_signedPreKeyID p) (lp_registrationID p))
                        (s\<lparr>s_pending := None\<rparr>, e)
           | None \<Rightarrow> on_ls (ls_EncryptWhisperMessage B keyMaterial) (s, e))
     else on_dr (dr_Encrypt B keyMaterial) (s, e))"

definition Decrypt ::
  "('e, 'dr, 'ls, 'x) backend \<Rightarrow> slice \<Rightarrow> (('dr, 'ls) signal_Session \<times> 'e, slice) act" where
  "Decrypt B data = (\<lambda>(s, e).
     if s_protocol s = ProtocolV1 then on_ls (ls_DecryptWhisperMessage B data) (s, e)
     else on_dr (dr_Decrypt B data) (s, e))"

section \<open>Payloads\<close>

definition EncryptPayload ::
  "('e, 'dr, 'ls, 'x) backend \<Rightarrow> Protocol \<Rightarrow> slice \<Rightarrow> ('e, slice \<times> slice \<times> slice) act" where
  "EncryptPayload B p plaintext =
     (if p = ProtocolV1 then xo_EncryptPayloadV1 B plaintext
      else andThen (xo_EncryptPayload B plaintext)
             (\<lambda>(keyMaterial, ciphertext). ret (keyMaterial, None, ciphertext)))"

definition DecryptPayload ::
  "('e, 'dr, 'ls, 'x) backend \<Rightarrow> Protocol \<Rightarrow> slice \<Rightarrow> slice \<Rightarrow> slice \<Rightarrow> ('e, slice) act" where
  "DecryptPayload B p keyMaterial iv ciphertext =
     (if p = ProtocolV1 then xo_DecryptPayloadV1 B keyMaterial iv ciphertext
      else xo_DecryptPayload B keyMaterial ciphertext)"

end
