(* ===== verification/Omemo_Transport.thy ===== *)
theory Omemo_Transport
  imports Omemo_Actions
begin

text \<open>
  The network interface of \<open>transport.go\<close> as a record of its methods. They act on the
  environment, whose type \<open>'e\<close> stays open: it holds whatever lies outside the library (the
  network, the random source, the user behind a trust callback). The locale
  \<open>pep_transport\<close> states what a publish/subscribe backend promises: a fetch returns what was
  published last, and publishing one object leaves the others alone.
\<close>

record 'e Transport =
  FetchDeviceList :: "string \<Rightarrow> ('e, DeviceList) act"
  PublishDeviceList :: "DeviceList \<Rightarrow> ('e, unit) act"
  FetchBundle :: "Device \<Rightarrow> ('e, Bundle) act"
  PublishBundle :: "Bundle \<Rightarrow> ('e, unit) act"

locale pep_transport =
  fixes T :: "'e Transport"
    and lists :: "'e \<Rightarrow> string \<rightharpoonup> DeviceList"
    and bundles :: "'e \<Rightarrow> Device \<rightharpoonup> Bundle"
  assumes FetchDeviceList_found:
      "lists e j = Some l \<Longrightarrow> FetchDeviceList T j e = (Inr l, e)"
    and FetchDeviceList_missing:
      "lists e j = None \<Longrightarrow> \<exists>err. FetchDeviceList T j e = (Inl err, e) \<and> \<not> is_fatal err"
    and PublishDeviceList_ok:
      "wp (PublishDeviceList T l) (\<lambda>_ e'. lists e' = (lists e)(dl_JID l \<mapsto> l) \<and> bundles e' = bundles e)
         (\<lambda>_ _. False) e"
    and FetchBundle_found:
      "bundles e d = Some b \<Longrightarrow> FetchBundle T d e = (Inr b, e)"
    and FetchBundle_missing:
      "bundles e d = None \<Longrightarrow> \<exists>err. FetchBundle T d e = (Inl err, e) \<and> \<not> is_fatal err"
    and PublishBundle_ok:
      "wp (PublishBundle T b) (\<lambda>_ e'. bundles e' = (bundles e)(b_Device b \<mapsto> b) \<and> lists e' = lists e)
         (\<lambda>_ _. False) e"
begin

lemma fetch_after_publish_bundle:
  "PublishBundle T b e = (Inr (), e') \<Longrightarrow> FetchBundle T (b_Device b) e' = (Inr b, e')"
  using PublishBundle_ok [of b e] FetchBundle_found [of e' "b_Device b" b] by (simp add: wp_def)

lemma fetch_after_publish_list:
  "PublishDeviceList T l e = (Inr (), e') \<Longrightarrow> FetchDeviceList T (dl_JID l) e' = (Inr l, e')"
  using PublishDeviceList_ok [of l e] FetchDeviceList_found [of e' "dl_JID l" l] by (simp add: wp_def)

end

end
