(* ===== verification/Omemo_Manager.thy ===== *)
theory Omemo_Manager
  imports Omemo_Signal Omemo_Transport
begin

text \<open>
  The protocol state machine of \<open>manager.go\<close>, function by function and in the file's order.
  A \<open>Manager\<close> record holds the fields that never change after \<open>NewManager\<close> (store and transport
  as method records, protocol, identity key, local device, trust callback). What calls change is
  the \<open>world\<close>: the store's state, the environment, and the manager's table of per-device mutexes
  with the set of mutexes held. One world step sequence is the run of one goroutine; locking a
  mutex that is already held is then the runtime's deadlock report.
  Each function takes the backend \<open>B\<close> of \<open>internal/signal\<close> where it calls into it.
\<close>

section \<open>State\<close>

type_synonym 'e TrustResolver = "Device \<Rightarrow> slice \<Rightarrow> ('e, unit) act"

record ('s, 'e) Manager =
  m_store :: "'s Store"
  m_transport :: "'e Transport"
  m_protocol :: Protocol
  m_identityKey :: slice
  m_localDevice :: Device
  m_trustResolver :: "'e TrustResolver option"

record ('s, 'e) world =
  w_store :: 's
  w_env :: 'e
  w_locks :: "Device \<rightharpoonup> nat"
  w_nextLock :: nat
  w_held :: "nat set"

definition DefaultPreKeyCount :: int where
  "DefaultPreKeyCount = 100"

definition MinPreKeyCount :: int where
  "MinPreKeyCount = 25"

text \<open>Calls on the store, on the environment, and on a session a function holds in a variable.\<close>

definition liftS :: "('s, 'a) act \<Rightarrow> (('s, 'e) world, 'a) act" where
  "liftS m = zoom w_store (\<lambda>s w. w\<lparr>w_store := s\<rparr>) m"

definition liftE :: "('e, 'a) act \<Rightarrow> (('s, 'e) world, 'a) act" where
  "liftE m = zoom w_env (\<lambda>e w. w\<lparr>w_env := e\<rparr>) m"

definition onSession ::
  "(('dr, 'ls) signal_Session \<times> 'e, 'a) act \<Rightarrow> ('dr, 'ls) signal_Session \<Rightarrow>
     (('s, 'e) world, 'a \<times> ('dr, 'ls) signal_Session) act" where
  "onSession m sess = (\<lambda>w. case m (sess, w_env w) of (r, (sess', e')) \<Rightarrow>
     (case r of Inl err \<Rightarrow> Inl err | Inr x \<Rightarrow> Inr (x, sess'), w\<lparr>w_env := e'\<rparr>))"

section \<open>Creating managers\<close>

type_synonym ('s, 'e) Option = "('s, 'e) Manager \<Rightarrow> ('s, 'e) Manager"

text \<open>A Go function value may be nil: \<open>None\<close>.\<close>

definition WithTrustResolver :: "'e TrustResolver option \<Rightarrow> ('s, 'e) Option" where
  "WithTrustResolver r = (\<lambda>m. m\<lparr>m_trustResolver := r\<rparr>)"

definition NewManager ::
  "'s Store \<Rightarrow> 'e Transport \<Rightarrow> Protocol \<Rightarrow> ('s, 'e) Option list \<Rightarrow>
     (('s, 'e) world, ('s, 'e) Manager) act" where
  "NewManager S T p opts =
     andThen (wrapErr ''load identity key'' (liftS (IdentityKeyPair S))) (\<lambda>idKey.
     andThen (wrapErr ''load local device'' (liftS (LocalDevice S))) (\<lambda>dev.
     (\<lambda>w. (Inr (foldl (\<lambda>m opt. opt m)
              \<lparr>m_store = S, m_transport = T, m_protocol = p, m_identityKey = idKey,
               m_localDevice = dev, m_trustResolver = None\<rparr> opts),
           w\<lparr>w_locks := Map.empty\<rparr>))))"

text \<open>The loop of \<open>generateOneTimePreKeys\<close> (defined further down in the file): \<open>k\<close> rounds to go.\<close>

fun generateLoop ::
  "('e, 'dr, 'ls, 'x) backend \<Rightarrow> 's Store \<Rightarrow> nat \<Rightarrow> PreKeyRecord list \<Rightarrow>
     (('s, 'e) world, PreKeyRecord list) act" where
  "generateLoop B S 0 recs = ret recs"
| "generateLoop B S (Suc k) recs =
     andThen (wrapErr ''allocate prekey id'' (liftS (NextPreKeyID S))) (\<lambda>i.
     andThen (wrapErr ''generate one-time prekey'' (liftE (GenerateOneTimePreKey B))) (\<lambda>(pub, priv).
     generateLoop B S k (recs @ [\<lparr>pkr_ID = i, pkr_Public = pub, pkr_Private = priv\<rparr>])))"

text \<open>
  \<open>make([]PreKeyRecord, 0, n)\<close> panics when the capacity is negative or the array would be larger than
  the address space: \<open>2^48\<close> bytes on the 64-bit ports of Go, where a record takes 56 bytes (the
  identifier padded to 8, two slice headers of 24). Running out of memory below that is not modelled.
\<close>

definition max_prekeys :: int where
  "max_prekeys = 2 ^ 48 div 56"

lemma max_prekeys_simp [simp]: "max_prekeys = 5026338869833"
  by (simp add: max_prekeys_def)

definition generateOneTimePreKeys ::
  "('e, 'dr, 'ls, 'x) backend \<Rightarrow> 's Store \<Rightarrow> int \<Rightarrow> (('s, 'e) world, unit) act" where
  "generateOneTimePreKeys B S n =
     (if n < 0 \<or> max_prekeys < n then throw (Fatal ''runtime error: makeslice: cap out of range'')
      else andThen (generateLoop B S (nat n) []) (\<lambda>recs. liftS (PutPreKeys S recs)))"

definition InitIdentity ::
  "('e, 'dr, 'ls, 'x) backend \<Rightarrow> 's Store \<Rightarrow> string \<Rightarrow> DeviceID \<Rightarrow> Protocol \<Rightarrow>
     (('s, 'e) world, unit) act" where
  "InitIdentity B S jid deviceID p =
     andThen (wrapErr ''generate identity key'' (liftE (GenerateIdentityKey B p))) (\<lambda>idKey.
     andThen (wrapErr ''store identity key'' (liftS (SetIdentityKeyPair S idKey))) (\<lambda>_.
     andThen (wrapErr ''store local device''
                (liftS (SetLocalDevice S \<lparr>dev_JID = jid, dev_ID = deviceID\<rparr>))) (\<lambda>_.
     andThen (wrapErr ''generate signed prekey'' (liftE (GenerateSignedPreKey B p idKey)))
       (\<lambda>(spkPub, spkPriv, spkSig).
     andThen (wrapErr ''store signed prekey''
                (liftS (RotateSignedPreKey S \<lparr>spr_ID = 1, spr_Public = spkPub,
                   spr_Private = spkPriv, spr_Signature = spkSig\<rparr>))) (\<lambda>_.
     generateOneTimePreKeys B S DefaultPreKeyCount)))))"

section \<open>Locks\<close>

definition deviceLock :: "Device \<Rightarrow> ('s, 'e) world \<Rightarrow> nat \<times> ('s, 'e) world" where
  "deviceLock dev w =
     (case w_locks w dev of
        Some l \<Rightarrow> (l, w)
      | None \<Rightarrow> (w_nextLock w,
          w\<lparr>w_locks := (w_locks w)(dev \<mapsto> w_nextLock w), w_nextLock := Suc (w_nextLock w)\<rparr>))"

definition deadlock :: goerror where
  "deadlock = Fatal ''all goroutines are asleep - deadlock!''"

definition mutex_Lock :: "nat \<Rightarrow> (('s, 'e) world, unit) act" where
  "mutex_Lock l w =
     (if l \<in> w_held w then (Inl deadlock, w) else (Inr (), w\<lparr>w_held := insert l (w_held w)\<rparr>))"

definition mutex_Unlock :: "nat \<Rightarrow> ('s, 'e) world \<Rightarrow> ('s, 'e) world" where
  "mutex_Unlock l w = w\<lparr>w_held := w_held w - {l}\<rparr>"

text \<open>\<open>lock := m.deviceLock(dev); lock.Lock(); defer lock.Unlock()\<close> around the rest of a function.\<close>

definition withDeviceLock :: "Device \<Rightarrow> (('s, 'e) world, 'a) act \<Rightarrow> (('s, 'e) world, 'a) act" where
  "withDeviceLock dev body w =
     (case deviceLock dev w of (l, w1) \<Rightarrow>
       (case mutex_Lock l w1 of
          (Inl e, w2) \<Rightarrow> (Inl e, w2)
        | (Inr _, w2) \<Rightarrow> (case body w2 of (r, w3) \<Rightarrow> (r, mutex_Unlock l w3))))"

section \<open>Bundles and prekeys\<close>

definition Manager_LocalDevice :: "('s, 'e) Manager \<Rightarrow> Device" where
  "Manager_LocalDevice M = m_localDevice M"

definition Manager_Bundle ::
  "('e, 'dr, 'ls, 'x) backend \<Rightarrow> ('s, 'e) Manager \<Rightarrow> (('s, 'e) world, Bundle) act" where
  "Manager_Bundle B M =
     andThen (wrapErr ''load signed prekey'' (liftS (CurrentSignedPreKey (m_store M)))) (\<lambda>spk.
     andThen (wrapErr ''load prekeys'' (liftS (PreKeys (m_store M)))) (\<lambda>preKeyRecs.
     let preKeys = map (\<lambda>r. \<lparr>pk_ID = pkr_ID r, pk_Public = pkr_Public r\<rparr>) preKeyRecs in
     andThen (wrapErr ''derive identity public key''
                (liftE (IdentityPublicKey B (m_protocol M) (m_identityKey M)))) (\<lambda>pub.
     ret \<lparr>b_Device = m_localDevice M, b_IdentityKey = pub,
          b_SignedPreKey = \<lparr>spk_ID = spr_ID spk, spk_Public = spr_Public spk,
                            spk_Signature = spr_Signature spk\<rparr>,
          b_PreKeys = preKeys\<rparr>)))"

definition Manager_PublishBundle ::
  "('e, 'dr, 'ls, 'x) backend \<Rightarrow> ('s, 'e) Manager \<Rightarrow> (('s, 'e) world, unit) act" where
  "Manager_PublishBundle B M =
     andThen (Manager_Bundle B M) (\<lambda>bundle. liftE (PublishBundle (m_transport M) bundle))"

definition nextSignedPreKeyID :: "('s, 'e) Manager \<Rightarrow> (('s, 'e) world, uint32) act" where
  "nextSignedPreKeyID M =
     andThen (wrapErr ''load signed prekey'' (liftS (CurrentSignedPreKey (m_store M)))) (\<lambda>cur.
     ret (spr_ID cur + 1))"

definition Manager_RotateSignedPreKey ::
  "('e, 'dr, 'ls, 'x) backend \<Rightarrow> ('s, 'e) Manager \<Rightarrow> (('s, 'e) world, unit) act" where
  "Manager_RotateSignedPreKey B M =
     andThen (nextSignedPreKeyID M) (\<lambda>nextID.
     andThen (wrapErr ''generate signed prekey''
                (liftE (GenerateSignedPreKey B (m_protocol M) (m_identityKey M))))
       (\<lambda>(spkPub, spkPriv, spkSig).
     liftS (RotateSignedPreKey (m_store M) \<lparr>spr_ID = nextID, spr_Public = spkPub,
              spr_Private = spkPriv, spr_Signature = spkSig\<rparr>)))"

definition GenerateOneTimePreKeys ::
  "('e, 'dr, 'ls, 'x) backend \<Rightarrow> ('s, 'e) Manager \<Rightarrow> int \<Rightarrow> (('s, 'e) world, unit) act" where
  "GenerateOneTimePreKeys B M n = generateOneTimePreKeys B (m_store M) n"

definition NeedsMorePreKeys :: "('s, 'e) Manager \<Rightarrow> (('s, 'e) world, bool) act" where
  "NeedsMorePreKeys M =
     andThen (wrapErr ''count prekeys'' (liftS (PreKeyCount (m_store M)))) (\<lambda>count.
     ret (count \<le> MinPreKeyCount))"

section \<open>Device lists\<close>

definition SyncDevices :: "('s, 'e) Manager \<Rightarrow> string \<Rightarrow> (('s, 'e) world, unit) act" where
  "SyncDevices M jid =
     andThen (wrapErr (''fetch device list for '' @ jid) (liftE (FetchDeviceList (m_transport M) jid)))
       (\<lambda>list. liftS (SetDevices (m_store M) jid (dl_Devices list)))"

definition devicesFor :: "('s, 'e) Manager \<Rightarrow> string \<Rightarrow> (('s, 'e) world, DeviceID list) act" where
  "devicesFor M jid =
     andThen (wrapErr (''load devices for '' @ jid) (liftS (Devices (m_store M) jid))) (\<lambda>devices.
     if devices \<noteq> [] then ret devices
     else andThen (SyncDevices M jid) (\<lambda>_. liftS (Devices (m_store M) jid)))"

definition ResetSession :: "('s, 'e) Manager \<Rightarrow> Device \<Rightarrow> (('s, 'e) world, unit) act" where
  "ResetSession M dev =
     withDeviceLock dev
       (wrapErr (''reset session for '' @ dev_JID dev @ '' device '' @ fmt_d (dev_ID dev))
          (liftS (DeleteSession (m_store M) dev)))"

definition recipientDevices :: "('s, 'e) Manager \<Rightarrow> string \<Rightarrow> (('s, 'e) world, Device list) act" where
  "recipientDevices M jid =
     andThen (devicesFor M jid) (\<lambda>deviceIDs.
     let devices = map (\<lambda>i. \<lparr>dev_JID = jid, dev_ID = i\<rparr>) deviceIDs in
     if jid = dev_JID (m_localDevice M) then ret devices
     else tryCatch (devicesFor M (dev_JID (m_localDevice M)))
            (\<lambda>_. ret devices)
            (\<lambda>ownIDs. ret (devices @
               map (\<lambda>i. \<lparr>dev_JID = dev_JID (m_localDevice M), dev_ID = i\<rparr>) ownIDs)))"

section \<open>Encrypting\<close>

definition checkTrust :: "('s, 'e) Manager \<Rightarrow> Device \<Rightarrow> slice \<Rightarrow> (('s, 'e) world, unit) act" where
  "checkTrust M dev identityKey =
     andThen (wrapErr ''load trust state'' (liftS (Trust (m_store M) identityKey))) (\<lambda>state.
     if state = TrustTrusted then ret ()
     else if state = TrustUntrusted then throw ErrBlockedDevice
     else (case m_trustResolver M of
             None \<Rightarrow> throw ErrUntrustedDevice
           | Some resolver \<Rightarrow>
               andThen (liftE (resolver dev identityKey)) (\<lambda>_.
               liftS (SetTrust (m_store M) identityKey TrustTrusted))))"

definition getOrCreateActiveSession ::
  "('e, 'dr, 'ls, 'x) backend \<Rightarrow> ('s, 'e) Manager \<Rightarrow> Device \<Rightarrow>
     (('s, 'e) world, ('dr, 'ls) signal_Session \<times> KeyExchange option) act" where
  "getOrCreateActiveSession B M dev =
     andThen (wrapErr ''load session'' (liftS (Session (m_store M) dev))) (\<lambda>found.
     case found of
       Some data \<Rightarrow>
         andThen (liftE (LoadSession B (m_protocol M) data)) (\<lambda>sess. ret (sess, None))
     | None \<Rightarrow>
         andThen (wrapErr ''fetch bundle'' (liftE (FetchBundle (m_transport M) dev))) (\<lambda>bundle.
         case b_PreKeys bundle of
           [] \<Rightarrow> throw (Errorf ''peer bundle has no one-time prekeys available'')
         | preKey # _ \<Rightarrow>
             andThen (wrapErr ''X3DH'' (liftE (NewActiveSession B (m_protocol M) (m_identityKey M)
                 (b_IdentityKey bundle) (spk_Public (b_SignedPreKey bundle))
                 (spk_Signature (b_SignedPreKey bundle)) (pk_Public preKey)
                 (spk_ID (b_SignedPreKey bundle)) (pk_ID preKey) (dev_ID (m_localDevice M)))))
               (\<lambda>(sess, ekPub).
             andThen (wrapErr ''store identity key''
                 (liftS (PutRemoteIdentityKey (m_store M) dev (b_IdentityKey bundle)))) (\<lambda>_.
             andThen (wrapErr ''derive identity public key''
                 (liftE (IdentityPublicKey B (m_protocol M) (m_identityKey M)))) (\<lambda>ownPub.
             ret (sess, Some \<lparr>kx_IdentityKey = ownPub, kx_EphemeralKey = ekPub,
                    kx_SignedPreKeyID = spk_ID (b_SignedPreKey bundle),
                    kx_PreKeyID = pk_ID preKey\<rparr>))))))"

definition putSession ::
  "('e, 'dr, 'ls, 'x) backend \<Rightarrow> ('s, 'e) Manager \<Rightarrow> Device \<Rightarrow> ('dr, 'ls) signal_Session \<Rightarrow>
     (('s, 'e) world, unit) act" where
  "putSession B M dev sess =
     andThen (wrapErr ''marshal session'' (liftE (Marshal B sess))) (\<lambda>data.
     wrapErr ''store session'' (liftS (PutSession (m_store M) dev data)))"

definition encryptForDevice ::
  "('e, 'dr, 'ls, 'x) backend \<Rightarrow> ('s, 'e) Manager \<Rightarrow> Device \<Rightarrow> slice \<Rightarrow>
     (('s, 'e) world, RecipientKey) act" where
  "encryptForDevice B M dev keyMaterial =
     withDeviceLock dev (
     andThen (wrapErr ''establish session'' (getOrCreateActiveSession B M dev)) (\<lambda>(sess, kx).
     andThen (wrapErr ''load identity key'' (liftS (RemoteIdentityKey (m_store M) dev))) (\<lambda>found.
     case found of
       None \<Rightarrow> throw (Errorf ''no known identity key for device'')
     | Some idKey \<Rightarrow>
         andThen (checkTrust M dev idKey) (\<lambda>_.
         andThen (wrapErr ''ratchet encrypt'' (onSession (Encrypt B keyMaterial) sess)) (\<lambda>(data, sess').
         andThen (putSession B M dev sess') (\<lambda>_.
         ret \<lparr>rk_Device = dev_ID dev, rk_Data = data, rk_KeyExchange = kx\<rparr>))))))"

text \<open>The loop over the recipient devices, with the keys and the failures collected so far.\<close>

fun encryptLoop ::
  "('e, 'dr, 'ls, 'x) backend \<Rightarrow> ('s, 'e) Manager \<Rightarrow> slice \<Rightarrow> Device list \<Rightarrow>
     RecipientKey list \<Rightarrow> DeviceError list \<Rightarrow>
     (('s, 'e) world, RecipientKey list \<times> DeviceError list) act" where
  "encryptLoop B M keyMaterial [] keys errs = ret (keys, errs)"
| "encryptLoop B M keyMaterial (dev # devs) keys errs =
     (if dev = m_localDevice M then encryptLoop B M keyMaterial devs keys errs
      else tryCatch (encryptForDevice B M dev keyMaterial)
             (\<lambda>e. encryptLoop B M keyMaterial devs keys (errs @ [\<lparr>de_Device = dev, de_Err = e\<rparr>]))
             (\<lambda>key. encryptLoop B M keyMaterial devs (keys @ [key]) errs))"

text \<open>
  Go's three results \<open>(msg, deviceErrs, err)\<close> are the returned triple; the action itself fails
  with a panic only.
\<close>

type_synonym encrypt_result = "EncryptedMessage option \<times> DeviceError list \<times> goerror option"

definition encrypt ::
  "('e, 'dr, 'ls, 'x) backend \<Rightarrow> ('s, 'e) Manager \<Rightarrow> string \<Rightarrow> slice \<Rightarrow>
     (('s, 'e) world, encrypt_result) act" where
  "encrypt B M jid plaintext =
     tryCatch (recipientDevices M jid) (\<lambda>e. ret (None, [], Some e)) (\<lambda>devices.
     tryCatch (liftE (EncryptPayload B (m_protocol M) plaintext))
       (\<lambda>e. ret (None, [], Some (Wrap ''encrypt payload'' e)))
       (\<lambda>(keyMaterial, iv, ciphertext).
     let ciphertext' = (if plaintext = None then None else ciphertext);
         iv' = (if plaintext = None then None else iv) in
     andThen (encryptLoop B M keyMaterial devices [] []) (\<lambda>(keys, deviceErrs).
     if keys = [] then ret (None, deviceErrs, Some ErrNoRecipients)
     else ret (Some \<lparr>em_Sender = m_localDevice M, em_Keys = keys, em_Payload = ciphertext',
                     em_IV = iv'\<rparr>, deviceErrs, None))))"

definition EncryptMessage ::
  "('e, 'dr, 'ls, 'x) backend \<Rightarrow> ('s, 'e) Manager \<Rightarrow> string \<Rightarrow> slice \<Rightarrow>
     (('s, 'e) world, encrypt_result) act" where
  "EncryptMessage B M jid plaintext = encrypt B M jid plaintext"

definition EncryptKeyTransport ::
  "('e, 'dr, 'ls, 'x) backend \<Rightarrow> ('s, 'e) Manager \<Rightarrow> string \<Rightarrow>
     (('s, 'e) world, encrypt_result) act" where
  "EncryptKeyTransport B M jid = encrypt B M jid None"

section \<open>Decrypting\<close>

definition signedPreKeyByID ::
  "('s, 'e) Manager \<Rightarrow> uint32 \<Rightarrow> (('s, 'e) world, SignedPreKeyRecord) act" where
  "signedPreKeyByID M i =
     andThen (wrapErr ''load signed prekey'' (liftS (CurrentSignedPreKey (m_store M)))) (\<lambda>cur.
     if spr_ID cur = i then ret cur
     else andThen (wrapErr ''load stale signed prekey'' (liftS (StaleSignedPreKey (m_store M)))) (\<lambda>stale.
       case stale of
         Some r \<Rightarrow> (if spr_ID r = i then ret r
                    else throw (Errorf (''unknown signed prekey id '' @ fmt_d i)))
       | None \<Rightarrow> throw (Errorf (''unknown signed prekey id '' @ fmt_d i))))"

definition getOrCreateSessionForIncoming ::
  "('e, 'dr, 'ls, 'x) backend \<Rightarrow> ('s, 'e) Manager \<Rightarrow> Device \<Rightarrow> RecipientKey \<Rightarrow>
     (('s, 'e) world, ('dr, 'ls) signal_Session \<times> slice) act" where
  "getOrCreateSessionForIncoming B M sender key =
     (case rk_KeyExchange key of
        None \<Rightarrow>
          andThen (wrapErr ''load session'' (liftS (Session (m_store M) sender))) (\<lambda>found.
          case found of
            None \<Rightarrow> throw ErrUnknownSession
          | Some data \<Rightarrow>
              andThen (liftE (LoadSession B (m_protocol M) data)) (\<lambda>sess. ret (sess, rk_Data key)))
      | Some kx \<Rightarrow>
          if m_protocol M = ProtocolV1
          then andThen (wrapErr ''parsing legacy prekey message''
                   (liftE (PeekLegacyPreKeyIDs B (rk_Data key)))) (\<lambda>(signedPreKeyID, preKeyID).
               andThen (signedPreKeyByID M signedPreKeyID) (\<lambda>spk.
               andThen (wrapErr (''consume one-time prekey '' @ fmt_d preKeyID)
                   (liftS (ConsumePreKey (m_store M) preKeyID))) (\<lambda>preKey.
               andThen (wrapErr ''X3DH'' (liftE (NewPassiveSessionFromPreKeyBlob B (m_identityKey M)
                   (spr_Public spk) (spr_Private spk) (pkr_Private preKey) (rk_Data key))))
                 (\<lambda>(sess, peerIdentityKey, innerData).
               andThen (wrapErr ''store identity key''
                   (liftS (PutRemoteIdentityKey (m_store M) sender peerIdentityKey))) (\<lambda>_.
               ret (sess, innerData))))))
          else andThen (signedPreKeyByID M (kx_SignedPreKeyID kx)) (\<lambda>spk.
               andThen (wrapErr (''consume one-time prekey '' @ fmt_d (kx_PreKeyID kx))
                   (liftS (ConsumePreKey (m_store M) (kx_PreKeyID kx)))) (\<lambda>preKey.
               andThen (wrapErr ''X3DH'' (liftE (NewPassiveSession B (m_identityKey M)
                   (kx_IdentityKey kx) (spr_Public spk) (spr_Private spk) (pkr_Private preKey)
                   (kx_EphemeralKey kx)))) (\<lambda>sess.
               andThen (wrapErr ''store identity key''
                   (liftS (PutRemoteIdentityKey (m_store M) sender (kx_IdentityKey kx)))) (\<lambda>_.
               ret (sess, rk_Data key))))))"

definition DecryptMessage ::
  "('e, 'dr, 'ls, 'x) backend \<Rightarrow> ('s, 'e) Manager \<Rightarrow> EncryptedMessage \<Rightarrow>
     (('s, 'e) world, slice) act" where
  "DecryptMessage B M msg =
     (case find (\<lambda>k. rk_Device k = dev_ID (m_localDevice M)) (em_Keys msg) of
        None \<Rightarrow> throw ErrOwnDeviceKeyMissing
      | Some key \<Rightarrow>
          withDeviceLock (em_Sender msg) (
          andThen (wrapErr ''establish session''
              (getOrCreateSessionForIncoming B M (em_Sender msg) key)) (\<lambda>(sess, dataToDecrypt).
          andThen (wrapErr ''ratchet decrypt'' (onSession (Decrypt B dataToDecrypt) sess))
            (\<lambda>(keyMaterial, sess').
          andThen (putSession B M (em_Sender msg) sess') (\<lambda>_.
          if em_Payload msg = None then ret None
          else wrapErr ''decrypt payload''
                 (liftE (DecryptPayload B (m_protocol M) keyMaterial (em_IV msg) (em_Payload msg))))))))"

end
