(* ===== verification/Omemo_Memstore.thy ===== *)
theory Omemo_Memstore
  imports Omemo_Store
begin

text \<open>
  The in-memory store of \<open>memstore/memstore.go\<close>, method by method. Every method holds \<open>mu\<close> from
  its first to its last statement, so each is one atomic action on the record of the struct's
  fields. \<open>preKeys\<close>, the only map the code counts and ranges over, is an association list with
  distinct keys; the other maps are partial functions. \<open>ms_rangeRand\<close> is not a field of the Go
  struct: it holds the choices the runtime makes when it ranges over \<open>preKeys\<close>.
  The methods satisfy the store contract (the interpretation \<open>memstore\<close>), which is the refinement
  of the abstract store by the struct.
\<close>

section \<open>The struct and its methods\<close>

record MemStore =
  ms_identityKey :: slice
  ms_localDevice :: Device
  ms_currentSPK :: SignedPreKeyRecord
  ms_staleSPK :: "SignedPreKeyRecord option"
  ms_preKeys :: "(uint32 \<times> PreKeyRecord) list"
  ms_nextPreKeyID :: uint32
  ms_sessions :: "Device \<rightharpoonup> slice"
  ms_trust :: "byte list \<rightharpoonup> TrustState"
  ms_devices :: "string \<rightharpoonup> DeviceID list"
  ms_remoteID :: "Device \<rightharpoonup> slice"
  ms_rangeRand :: "nat list"

text \<open>\<open>New\<close>: the fields the literal does not mention have Go's zero values.\<close>

definition ms_New :: "nat list \<Rightarrow> MemStore" where
  "ms_New rand = \<lparr>
     ms_identityKey = None,
     ms_localDevice = \<lparr>dev_JID = [], dev_ID = 0\<rparr>,
     ms_currentSPK = \<lparr>spr_ID = 0, spr_Public = None, spr_Private = None, spr_Signature = None\<rparr>,
     ms_staleSPK = None,
     ms_preKeys = [],
     ms_nextPreKeyID = 0,
     ms_sessions = Map.empty,
     ms_trust = Map.empty,
     ms_devices = Map.empty,
     ms_remoteID = Map.empty,
     ms_rangeRand = rand\<rparr>"

definition ms_IdentityKeyPair :: "(MemStore, slice) act" where
  "ms_IdentityKeyPair s = (Inr (ms_identityKey s), s)"

definition ms_SetIdentityKeyPair :: "slice \<Rightarrow> (MemStore, unit) act" where
  "ms_SetIdentityKeyPair priv s = (Inr (), s\<lparr>ms_identityKey := priv\<rparr>)"

definition ms_LocalDevice :: "(MemStore, Device) act" where
  "ms_LocalDevice s = (Inr (ms_localDevice s), s)"

definition ms_SetLocalDevice :: "Device \<Rightarrow> (MemStore, unit) act" where
  "ms_SetLocalDevice dev s = (Inr (), s\<lparr>ms_localDevice := dev\<rparr>)"

definition ms_CurrentSignedPreKey :: "(MemStore, SignedPreKeyRecord) act" where
  "ms_CurrentSignedPreKey s = (Inr (ms_currentSPK s), s)"

definition ms_StaleSignedPreKey :: "(MemStore, SignedPreKeyRecord option) act" where
  "ms_StaleSignedPreKey s =
     (case ms_staleSPK s of None \<Rightarrow> (Inr None, s) | Some r \<Rightarrow> (Inr (Some r), s))"

definition ms_RotateSignedPreKey :: "SignedPreKeyRecord \<Rightarrow> (MemStore, unit) act" where
  "ms_RotateSignedPreKey next s =
     (let s1 = (if spr_Public (ms_currentSPK s) \<noteq> None
                then s\<lparr>ms_staleSPK := Some (ms_currentSPK s)\<rparr> else s)
      in (Inr (), s1\<lparr>ms_currentSPK := next\<rparr>))"

definition ms_PreKeyCount :: "(MemStore, int) act" where
  "ms_PreKeyCount s = (Inr (int (length (ms_preKeys s))), s)"

definition ms_PreKeys :: "(MemStore, PreKeyRecord list) act" where
  "ms_PreKeys s =
     (Inr (map snd (go_range (ms_rangeRand s) (ms_preKeys s))),
      s\<lparr>ms_rangeRand := drop (length (ms_preKeys s)) (ms_rangeRand s)\<rparr>)"

definition ms_NextPreKeyID :: "(MemStore, uint32) act" where
  "ms_NextPreKeyID s =
     (let s1 = s\<lparr>ms_nextPreKeyID := ms_nextPreKeyID s + 1\<rparr> in (Inr (ms_nextPreKeyID s1), s1))"

definition ms_PutPreKeys :: "PreKeyRecord list \<Rightarrow> (MemStore, unit) act" where
  "ms_PutPreKeys recs s =
     (Inr (), s\<lparr>ms_preKeys := foldl (\<lambda>m r. AList.update (pkr_ID r) r m) (ms_preKeys s) recs\<rparr>)"

definition ms_ConsumePreKey :: "uint32 \<Rightarrow> (MemStore, PreKeyRecord) act" where
  "ms_ConsumePreKey i s =
     (case map_of (ms_preKeys s) i of
        None \<Rightarrow> (Inl (Errorf (''one-time prekey '' @ fmt_d i @ '' not found'')), s)
      | Some r \<Rightarrow> (Inr r, s\<lparr>ms_preKeys := AList.delete i (ms_preKeys s)\<rparr>))"

definition ms_Session :: "Device \<Rightarrow> (MemStore, slice option) act" where
  "ms_Session dev s = (Inr (ms_sessions s dev), s)"

definition ms_PutSession :: "Device \<Rightarrow> slice \<Rightarrow> (MemStore, unit) act" where
  "ms_PutSession dev data s = (Inr (), s\<lparr>ms_sessions := (ms_sessions s)(dev \<mapsto> data)\<rparr>)"

definition ms_DeleteSession :: "Device \<Rightarrow> (MemStore, unit) act" where
  "ms_DeleteSession dev s = (Inr (), s\<lparr>ms_sessions := (ms_sessions s)(dev := None)\<rparr>)"

definition ms_Trust :: "slice \<Rightarrow> (MemStore, TrustState) act" where
  "ms_Trust key s =
     (Inr (case ms_trust s (slice_string key) of None \<Rightarrow> 0 | Some t \<Rightarrow> t), s)"

definition ms_SetTrust :: "slice \<Rightarrow> TrustState \<Rightarrow> (MemStore, unit) act" where
  "ms_SetTrust key t s = (Inr (), s\<lparr>ms_trust := (ms_trust s)(slice_string key \<mapsto> t)\<rparr>)"

definition ms_Devices :: "string \<Rightarrow> (MemStore, DeviceID list) act" where
  "ms_Devices jid s = (Inr (case ms_devices s jid of None \<Rightarrow> [] | Some ds \<Rightarrow> ds), s)"

definition ms_SetDevices :: "string \<Rightarrow> DeviceID list \<Rightarrow> (MemStore, unit) act" where
  "ms_SetDevices jid ds s = (Inr (), s\<lparr>ms_devices := (ms_devices s)(jid \<mapsto> ds)\<rparr>)"

definition ms_RemoteIdentityKey :: "Device \<Rightarrow> (MemStore, slice option) act" where
  "ms_RemoteIdentityKey dev s = (Inr (ms_remoteID s dev), s)"

definition ms_PutRemoteIdentityKey :: "Device \<Rightarrow> slice \<Rightarrow> (MemStore, unit) act" where
  "ms_PutRemoteIdentityKey dev key s = (Inr (), s\<lparr>ms_remoteID := (ms_remoteID s)(dev \<mapsto> key)\<rparr>)"

text \<open>\<open>*memstore.Store\<close> as an \<open>omemo.Store\<close> (the assertion on the last line of the file).\<close>

definition MemStore_Store :: "MemStore Store" where
  "MemStore_Store = \<lparr>
     IdentityKeyPair = ms_IdentityKeyPair,
     SetIdentityKeyPair = ms_SetIdentityKeyPair,
     LocalDevice = ms_LocalDevice,
     SetLocalDevice = ms_SetLocalDevice,
     CurrentSignedPreKey = ms_CurrentSignedPreKey,
     StaleSignedPreKey = ms_StaleSignedPreKey,
     RotateSignedPreKey = ms_RotateSignedPreKey,
     PreKeyCount = ms_PreKeyCount,
     PreKeys = ms_PreKeys,
     NextPreKeyID = ms_NextPreKeyID,
     PutPreKeys = ms_PutPreKeys,
     ConsumePreKey = ms_ConsumePreKey,
     Session = ms_Session,
     PutSession = ms_PutSession,
     DeleteSession = ms_DeleteSession,
     Trust = ms_Trust,
     SetTrust = ms_SetTrust,
     Devices = ms_Devices,
     SetDevices = ms_SetDevices,
     RemoteIdentityKey = ms_RemoteIdentityKey,
     PutRemoteIdentityKey = ms_PutRemoteIdentityKey\<rparr>"

section \<open>Abstraction and invariant\<close>

definition ms_abs :: "MemStore \<Rightarrow> astore" where
  "ms_abs s = \<lparr>
     a_identityKey = ms_identityKey s,
     a_localDevice = ms_localDevice s,
     a_currentSPK = ms_currentSPK s,
     a_staleSPK = ms_staleSPK s,
     a_preKeys = map_of (ms_preKeys s),
     a_issued = {i. 0 < i \<and> i \<le> ms_nextPreKeyID s},
     a_sessions = ms_sessions s,
     a_trust = (\<lambda>k. case ms_trust s k of None \<Rightarrow> 0 | Some t \<Rightarrow> t),
     a_devices = (\<lambda>j. case ms_devices s j of None \<Rightarrow> [] | Some ds \<Rightarrow> ds),
     a_remoteID = ms_remoteID s\<rparr>"

text \<open>The association list represents a Go map: no key twice.\<close>

definition ms_inv :: "MemStore \<Rightarrow> bool" where
  "ms_inv s \<longleftrightarrow> distinct (map fst (ms_preKeys s))"

lemmas ms_defs = ms_IdentityKeyPair_def ms_SetIdentityKeyPair_def ms_LocalDevice_def
  ms_SetLocalDevice_def ms_CurrentSignedPreKey_def ms_StaleSignedPreKey_def
  ms_RotateSignedPreKey_def ms_PreKeyCount_def ms_PreKeys_def ms_NextPreKeyID_def
  ms_PutPreKeys_def ms_ConsumePreKey_def ms_Session_def ms_PutSession_def ms_DeleteSession_def
  ms_Trust_def ms_SetTrust_def ms_Devices_def ms_SetDevices_def ms_RemoteIdentityKey_def
  ms_PutRemoteIdentityKey_def

lemma MemStore_Store_simps [simp]:
  "IdentityKeyPair MemStore_Store = ms_IdentityKeyPair"
  "SetIdentityKeyPair MemStore_Store = ms_SetIdentityKeyPair"
  "LocalDevice MemStore_Store = ms_LocalDevice"
  "SetLocalDevice MemStore_Store = ms_SetLocalDevice"
  "CurrentSignedPreKey MemStore_Store = ms_CurrentSignedPreKey"
  "StaleSignedPreKey MemStore_Store = ms_StaleSignedPreKey"
  "RotateSignedPreKey MemStore_Store = ms_RotateSignedPreKey"
  "PreKeyCount MemStore_Store = ms_PreKeyCount"
  "PreKeys MemStore_Store = ms_PreKeys"
  "NextPreKeyID MemStore_Store = ms_NextPreKeyID"
  "PutPreKeys MemStore_Store = ms_PutPreKeys"
  "ConsumePreKey MemStore_Store = ms_ConsumePreKey"
  "Session MemStore_Store = ms_Session"
  "PutSession MemStore_Store = ms_PutSession"
  "DeleteSession MemStore_Store = ms_DeleteSession"
  "Trust MemStore_Store = ms_Trust"
  "SetTrust MemStore_Store = ms_SetTrust"
  "Devices MemStore_Store = ms_Devices"
  "SetDevices MemStore_Store = ms_SetDevices"
  "RemoteIdentityKey MemStore_Store = ms_RemoteIdentityKey"
  "PutRemoteIdentityKey MemStore_Store = ms_PutRemoteIdentityKey"
  by (simp_all add: MemStore_Store_def)

lemma ms_New_inv: "ms_inv (ms_New rand)"
  by (simp add: ms_inv_def ms_New_def)

lemma put_alist_map_of:
  "map_of (foldl (\<lambda>m r. AList.update (pkr_ID r) r m) al recs) = put_recs recs (map_of al)"
  by (induction recs arbitrary: al) (simp_all add: update_conv')

lemma put_alist_distinct:
  "distinct (map fst al) \<Longrightarrow> distinct (map fst (foldl (\<lambda>m r. AList.update (pkr_ID r) r m) al recs))"
  by (induction recs arbitrary: al) (simp_all add: distinct_keys_update)

lemma card_dom_map_of: "distinct (map fst al) \<Longrightarrow> card (dom (map_of al)) = length al"
  by (metis dom_map_of_conv_image_fst distinct_card length_map list.set_map)

lemma mset_snd_map_of:
  "distinct (map fst al) \<Longrightarrow>
     image_mset (\<lambda>i. the (map_of al i)) (mset_set (dom (map_of al))) = mset (map snd al)"
proof -
  assume d: "distinct (map fst al)"
  have "mset_set (dom (map_of al)) = mset (map fst al)"
    using mset_set_set [OF d] by (simp add: dom_map_of_conv_image_fst)
  moreover have "map ((\<lambda>i. the (map_of al i)) \<circ> fst) al = map snd al"
    using d by (auto intro!: map_cong)
  ultimately show ?thesis by (metis list.map_comp mset_map)
qed

text \<open>The issued identifiers of the counter, and the wrap-around guard.\<close>

lemma issued_card: "card {i :: uint32. 0 < i \<and> i \<le> n} = unat n"
proof -
  have "{i :: uint32. 0 < i \<and> i \<le> n} = of_nat ` {1 .. unat n}"
  proof (intro equalityI subsetI)
    fix i :: uint32 assume "i \<in> {i. 0 < i \<and> i \<le> n}"
    then have "unat i \<in> {1 .. unat n}" by (simp add: word_less_nat_alt word_le_nat_alt Suc_le_eq)
    then show "i \<in> of_nat ` {1 .. unat n}" by (intro image_eqI [of _ _ "unat i"]) simp_all
  next
    fix i :: uint32 assume "i \<in> of_nat ` {1 .. unat n}"
    then obtain k where k: "i = of_nat k" "1 \<le> k" "k \<le> unat n" by auto
    with unat_uint32_less [of n] have "unat i = k" by (simp add: unat_of_nat_uint32)
    with k show "i \<in> {i. 0 < i \<and> i \<le> n}" by (simp add: word_less_nat_alt word_le_nat_alt)
  qed
  moreover have "inj_on (of_nat :: nat \<Rightarrow> uint32) {1 .. unat n}"
    using unat_uint32_less [of n]
    by (intro inj_onI) (metis atLeastAtMost_iff le_less_trans unat_of_nat_uint32)
  ultimately show ?thesis by (simp add: card_image)
qed

lemma issued_step:
  fixes n :: uint32
  assumes "unat n < 2 ^ 32 - 1"
  shows "n + 1 \<notin> {i. 0 < i \<and> i \<le> n}"
    and "{i. 0 < i \<and> i \<le> n + 1} = insert (n + 1) {i. 0 < i \<and> i \<le> n}"
proof -
  from assms have u: "unat (n + 1) = unat n + 1" by (simp add: unat_word_ariths)
  then show "n + 1 \<notin> {i. 0 < i \<and> i \<le> n}" by (simp add: word_le_nat_alt)
  show "{i. 0 < i \<and> i \<le> n + 1} = insert (n + 1) {i. 0 < i \<and> i \<le> n}"
    by (auto simp: word_le_nat_alt word_less_nat_alt u le_Suc_eq word_unat_eq_iff)
qed

section \<open>The contract holds\<close>

lemmas ms_contract_simps = ms_defs ms_inv_def ms_abs_def Let_def op_spec_def wp_def

interpretation memstore: reliable_store MemStore_Store ms_inv ms_abs
proof (unfold_locales, goal_cases)
  case (7 r)
  show ?case by (simp add: ms_contract_simps rotate_spk_def)
next
  case 8
  show ?case by (simp add: ms_contract_simps card_dom_map_of)
next
  case 9
  show ?case by (simp add: ms_contract_simps mset_snd_map_of)
next
  case 10
  show ?case by (simp add: ms_contract_simps issued_card issued_step [simplified])
next
  case (12 rs)
  show ?case by (simp add: ms_contract_simps put_alist_map_of put_alist_distinct)
next
  case (13 i)
  show ?case
    by (auto simp: ms_contract_simps distinct_keys_delete delete_conv' split: option.split dest: map_of_SomeD)
next
  case (14 s)
  show ?case by (simp add: ms_abs_def finite_dom_map_of)
qed (auto simp: ms_contract_simps succeeds_def fun_eq_iff split: option.split)

text \<open>The abstract fields of a struct, for properties stated on the struct.\<close>

lemma ms_abs_simps [simp]:
  "a_identityKey (ms_abs s) = ms_identityKey s"
  "a_localDevice (ms_abs s) = ms_localDevice s"
  "a_currentSPK (ms_abs s) = ms_currentSPK s"
  "a_staleSPK (ms_abs s) = ms_staleSPK s"
  "a_preKeys (ms_abs s) = map_of (ms_preKeys s)"
  "a_issued (ms_abs s) = {i. 0 < i \<and> i \<le> ms_nextPreKeyID s}"
  "a_sessions (ms_abs s) = ms_sessions s"
  "a_remoteID (ms_abs s) = ms_remoteID s"
  by (simp_all add: ms_abs_def)

lemma ms_abs_trust:
  "a_trust (ms_abs s) k = TrustTrusted \<longleftrightarrow> ms_trust s k = Some TrustTrusted"
  "a_trust (ms_abs s) k = TrustUntrusted \<longleftrightarrow> ms_trust s k = Some TrustUntrusted"
  by (auto simp: ms_abs_def zero_TrustState_def split: option.split)

end
