(* ===== verification/Manager_Calculus.thy ===== *)
theory Manager_Calculus
  imports Omemo_Manager Omemo_Memstore
begin

text \<open>
  Reasoning rules for the manager's actions. Weakest preconditions of store calls, environment
  calls, session calls and locked sections; and the relational calculus \<open>stable R m\<close>: every run
  of \<open>m\<close>, whatever it returns, relates the worlds before and after by \<open>R\<close>. For a reflexive and
  transitive \<open>R\<close> it passes through every combinator, so a frame property of a whole function
  follows from those of the calls it makes. The frame facts of the lock table hold for every
  store, transport and backend.
\<close>

section \<open>Weakest preconditions on worlds\<close>

lemma wp_liftS:
  "wp (liftS m) Q E w =
     wp m (\<lambda>x s. Q x (w\<lparr>w_store := s\<rparr>)) (\<lambda>e s. E e (w\<lparr>w_store := s\<rparr>)) (w_store w)"
  by (simp add: liftS_def wp_zoom)

lemma wp_liftE:
  "wp (liftE m) Q E w =
     wp m (\<lambda>x e. Q x (w\<lparr>w_env := e\<rparr>)) (\<lambda>err e. E err (w\<lparr>w_env := e\<rparr>)) (w_env w)"
  by (simp add: liftE_def wp_zoom)

text \<open>Nothing is known of an environment call.\<close>

lemma wp_liftE_any:
  assumes "\<And>x e. Q x (w\<lparr>w_env := e\<rparr>)" and "\<And>err e. E err (w\<lparr>w_env := e\<rparr>)"
  shows "wp (liftE m) Q E w"
  using assms by (simp add: liftE_def wp_def zoom_def split: prod.split sum.split)

lemma wp_liftE_run:
  assumes "\<And>x e. m (w_env w) = (Inr x, e) \<Longrightarrow> Q x (w\<lparr>w_env := e\<rparr>)"
    and "\<And>err e. m (w_env w) = (Inl err, e) \<Longrightarrow> E err (w\<lparr>w_env := e\<rparr>)"
  shows "wp (liftE m) Q E w"
  unfolding wp_liftE using assms by (rule wp_runI)

lemma wp_onSession_any:
  assumes "\<And>x sess' e. Q (x, sess') (w\<lparr>w_env := e\<rparr>)" and "\<And>err e. E err (w\<lparr>w_env := e\<rparr>)"
  shows "wp (onSession m sess) Q E w"
  using assms by (simp add: onSession_def wp_def split: prod.split sum.split)

text \<open>Taking the mutex of a device leaves store and environment alone.\<close>

lemma deviceLock_frame [simp]:
  "w_store (snd (deviceLock dev w)) = w_store w"
  "w_env (snd (deviceLock dev w)) = w_env w"
  "w_held (snd (deviceLock dev w)) = w_held w"
  by (simp_all add: deviceLock_def split: option.split)

lemma deviceLock_entry [simp]: "w_locks (snd (deviceLock dev w)) dev = Some (fst (deviceLock dev w))"
  by (simp add: deviceLock_def split: option.split)

lemma mutex_Unlock_frame [simp]:
  "w_store (mutex_Unlock l w) = w_store w"
  "w_env (mutex_Unlock l w) = w_env w"
  "w_locks (mutex_Unlock l w) = w_locks w"
  "w_nextLock (mutex_Unlock l w) = w_nextLock w"
  "w_held (mutex_Unlock l w) = w_held w - {l}"
  by (simp_all add: mutex_Unlock_def)

text \<open>The world in which the body of a locked section runs, when the mutex is free.\<close>

definition locked :: "Device \<Rightarrow> ('s, 'e) world \<Rightarrow> ('s, 'e) world" where
  "locked dev w = (snd (deviceLock dev w))\<lparr>w_held := insert (fst (deviceLock dev w)) (w_held w)\<rparr>"

lemma locked_frame [simp]:
  "w_store (locked dev w) = w_store w"
  "w_env (locked dev w) = w_env w"
  "w_locks (locked dev w) = w_locks (snd (deviceLock dev w))"
  "w_nextLock (locked dev w) = w_nextLock (snd (deviceLock dev w))"
  "w_held (locked dev w) = insert (fst (deviceLock dev w)) (w_held w)"
  by (simp_all add: locked_def)

lemma withDeviceLock_run [act_simps]:
  "withDeviceLock dev m w =
     (if fst (deviceLock dev w) \<in> w_held w then (Inl deadlock, snd (deviceLock dev w))
      else (case m (locked dev w) of (r, w') \<Rightarrow> (r, mutex_Unlock (fst (deviceLock dev w)) w')))"
  by (simp add: withDeviceLock_def mutex_Lock_def locked_def case_prod_beta)

lemma wp_withDeviceLock [wp_simps]:
  "wp (withDeviceLock dev m) Q E w =
     (if fst (deviceLock dev w) \<in> w_held w then E deadlock (snd (deviceLock dev w))
      else wp m (\<lambda>x w'. Q x (mutex_Unlock (fst (deviceLock dev w)) w'))
                (\<lambda>e w'. E e (mutex_Unlock (fst (deviceLock dev w)) w')) (locked dev w))"
  by (simp add: wp_def withDeviceLock_run split: prod.split sum.split)

text \<open>The mutex of the device is free.\<close>

definition lock_free :: "Device \<Rightarrow> ('s, 'e) world \<Rightarrow> bool" where
  "lock_free dev w \<longleftrightarrow> fst (deviceLock dev w) \<notin> w_held w"

section \<open>Stable relations\<close>

named_theorems stable_intros \<open>rules that pass a relation between worlds through an action\<close>

definition stable :: "('w \<Rightarrow> 'w \<Rightarrow> bool) \<Rightarrow> ('w, 'a) act \<Rightarrow> bool" where
  "stable R m \<longleftrightarrow> (\<forall>w. R w (snd (m w)))"

text \<open>A relation that frame properties use: reflexive and transitive.\<close>

definition frame_rel :: "('w \<Rightarrow> 'w \<Rightarrow> bool) \<Rightarrow> bool" where
  "frame_rel R \<longleftrightarrow> reflp R \<and> transp R"

lemma stableD: "stable R m \<Longrightarrow> R w (snd (m w))"
  by (simp add: stable_def)

lemma stable_runD: "stable R m \<Longrightarrow> m w = (r, w') \<Longrightarrow> R w w'"
  by (metis snd_conv stable_def)

lemma stable_ret [stable_intros]: "frame_rel R \<Longrightarrow> stable R (ret x)"
  by (simp add: stable_def frame_rel_def ret_def reflpD)

lemma stable_throw [stable_intros]: "frame_rel R \<Longrightarrow> stable R (throw e)"
  by (simp add: stable_def frame_rel_def throw_def reflpD)

lemma stable_andThen [stable_intros]:
  assumes R: "frame_rel R" and m: "stable R m" and f: "\<And>x. stable R (f x)"
  shows "stable R (andThen m f)"
  unfolding stable_def
proof
  fix w
  obtain r w' where mw: "m w = (r, w')" by fastforce
  with m have 1: "R w w'" by (metis stable_runD)
  show "R w (snd (andThen m f w))"
  proof (cases r)
    case (Inl e)
    with 1 mw show ?thesis by (simp add: andThen_def)
  next
    case (Inr x)
    from f have "R w' (snd (f x w'))" by (rule stableD)
    with 1 R mw Inr show ?thesis by (auto simp: andThen_def frame_rel_def dest: transpD)
  qed
qed

lemma stable_tryCatch [stable_intros]:
  assumes R: "frame_rel R" and m: "stable R m" and h: "\<And>e. stable R (h e)" and f: "\<And>x. stable R (f x)"
  shows "stable R (tryCatch m h f)"
  unfolding stable_def
proof
  fix w
  obtain r w' where mw: "m w = (r, w')" by fastforce
  with m have 1: "R w w'" by (metis stable_runD)
  from h f have 2: "R w' (snd (h e w'))" "R w' (snd (f x w'))" for e x by (auto intro: stableD)
  show "R w (snd (tryCatch m h f w))"
    using 1 2 R mw by (cases r) (auto simp: tryCatch_def frame_rel_def dest: transpD)
qed

lemma stable_wrapErr [stable_intros]: "frame_rel R \<Longrightarrow> stable R m \<Longrightarrow> stable R (wrapErr s m)"
  by (simp add: wrapErr_def stable_intros)

lemma stable_if [stable_intros]:
  "(b \<Longrightarrow> stable R m) \<Longrightarrow> (\<not> b \<Longrightarrow> stable R n) \<Longrightarrow> stable R (if b then m else n)"
  by simp

lemma stable_option [stable_intros]:
  "(y = None \<Longrightarrow> stable R m) \<Longrightarrow> (\<And>x. y = Some x \<Longrightarrow> stable R (f x)) \<Longrightarrow>
     stable R (case y of None \<Rightarrow> m | Some x \<Rightarrow> f x)"
  by (simp split: option.split)

lemma stable_list [stable_intros]:
  "stable R m \<Longrightarrow> (\<And>x xs. stable R (f x xs)) \<Longrightarrow> stable R (case ys of [] \<Rightarrow> m | x # xs \<Rightarrow> f x xs)"
  by (simp split: list.split)

lemma stable_prod [stable_intros]: "(\<And>a b. stable R (f a b)) \<Longrightarrow> stable R (case p of (a, b) \<Rightarrow> f a b)"
  by (simp split: prod.split)

lemma stable_Let [stable_intros]: "stable R (f a) \<Longrightarrow> stable R (let x = a in f x)"
  by simp

text \<open>Store, environment and session calls, for a relation that is closed under the change.\<close>

lemma stable_liftS: "(\<And>w. R w (w\<lparr>w_store := snd (m (w_store w))\<rparr>)) \<Longrightarrow> stable R (liftS m)"
  by (simp add: stable_def liftS_def zoom_def split: prod.split) (metis snd_conv)

lemma stable_liftE: "(\<And>w e. R w (w\<lparr>w_env := e\<rparr>)) \<Longrightarrow> stable R (liftE m)"
  by (simp add: stable_def liftE_def zoom_def split: prod.split)

lemma stable_onSession: "(\<And>w e. R w (w\<lparr>w_env := e\<rparr>)) \<Longrightarrow> stable R (onSession m sess)"
  by (simp add: stable_def onSession_def split: prod.split)

text \<open>Equality of a projection is such a relation.\<close>

definition same :: "('w \<Rightarrow> 'b) \<Rightarrow> 'w \<Rightarrow> 'w \<Rightarrow> bool" where
  "same f w w' \<longleftrightarrow> f w' = f w"

lemma frame_rel_same [simp, intro]: "frame_rel (same f)"
  by (auto simp: frame_rel_def same_def intro!: reflpI transpI)

section \<open>The mutexes are released on every path\<close>

lemma same_held_leaf [stable_intros]:
  "stable (same w_held) (liftS ms)"
  "stable (same w_held) (liftE me)"
  "stable (same w_held) (onSession mo sess)"
  by (auto intro!: stable_liftS stable_liftE stable_onSession simp: same_def)

lemma same_held_withDeviceLock [stable_intros]:
  assumes "stable (same w_held) m"
  shows "stable (same w_held) (withDeviceLock dev m)"
  unfolding stable_def same_def
proof
  fix w
  from assms have "w_held (snd (m (locked dev w))) = w_held (locked dev w)"
    by (simp add: stable_def same_def)
  then show "w_held (snd (withDeviceLock dev m w)) = w_held w"
    by (simp add: withDeviceLock_run case_prod_beta)
qed

lemma encryptForDevice_held [stable_intros]: "stable (same w_held) (encryptForDevice B M dev km)"
  unfolding encryptForDevice_def getOrCreateActiveSession_def checkTrust_def putSession_def
  by (intro stable_intros frame_rel_same)

lemma encryptLoop_held [stable_intros]: "stable (same w_held) (encryptLoop B M km devs keys errs)"
proof (induction devs arbitrary: keys errs)
  case Nil
  show ?case unfolding encryptLoop.simps by (intro stable_intros frame_rel_same)
next
  case (Cons dev devs)
  show ?case unfolding encryptLoop.simps by (intro stable_intros frame_rel_same Cons.IH)
qed

lemma devicesFor_held [stable_intros]: "stable (same w_held) (devicesFor M jid)"
  unfolding devicesFor_def SyncDevices_def by (intro stable_intros frame_rel_same)

lemma recipientDevices_held [stable_intros]: "stable (same w_held) (recipientDevices M jid)"
  unfolding recipientDevices_def by (intro stable_intros frame_rel_same)

lemma encrypt_held: "stable (same w_held) (encrypt B M jid pt)"
  unfolding encrypt_def by (intro stable_intros frame_rel_same)

lemma signedPreKeyByID_held [stable_intros]: "stable (same w_held) (signedPreKeyByID M i)"
  unfolding signedPreKeyByID_def by (intro stable_intros frame_rel_same)

lemma DecryptMessage_held: "stable (same w_held) (DecryptMessage B M msg)"
  unfolding DecryptMessage_def getOrCreateSessionForIncoming_def putSession_def
  by (intro stable_intros frame_rel_same)

lemma ResetSession_held: "stable (same w_held) (ResetSession M dev)"
  unfolding ResetSession_def by (intro stable_intros frame_rel_same)

end
