(* ===== verification/Manager_Store.thy ===== *)
theory Manager_Store
  imports Manager_Calculus
begin

text \<open>
  The manager as a client of the store contract. The first part lifts the contract's relations
  (\<open>op_spec\<close>) to worlds: as a rule for weakest preconditions and as stable relations on the
  abstract store. The second part, inside the locale \<open>omemo_store\<close>, proves what \<open>checkTrust\<close>,
  \<open>getOrCreateActiveSession\<close> and \<open>encryptForDevice\<close> change and guarantee, for any store that
  keeps the contract, any transport and any backend.
\<close>

section \<open>The contract on worlds\<close>

lemma wp_store:
  assumes "op_spec invar alpha m T" and "invar (w_store w)"
    and "\<And>x s. invar s \<Longrightarrow> T (alpha (w_store w)) x (alpha s) \<Longrightarrow> Q x (w\<lparr>w_store := s\<rparr>)"
    and "\<And>e s. invar s \<Longrightarrow> alpha s = alpha (w_store w) \<Longrightarrow> \<not> is_fatal e \<Longrightarrow> E e (w\<lparr>w_store := s\<rparr>)"
  shows "wp (liftS m) Q E w"
  unfolding wp_liftS using assms(1,2) by (rule op_spec_wp) (auto intro: assms(3,4))

lemma wp_store_total:
  assumes "op_spec invar alpha m T" and "succeeds invar m" and "invar (w_store w)"
    and "\<And>x s. invar s \<Longrightarrow> T (alpha (w_store w)) x (alpha s) \<Longrightarrow> Q x (w\<lparr>w_store := s\<rparr>)"
  shows "wp (liftS m) Q E w"
  unfolding wp_liftS using assms(1-3) by (rule op_spec_total_wp) (auto intro: assms(4))

definition store_rel ::
  "('s \<Rightarrow> bool) \<Rightarrow> ('s \<Rightarrow> 'a) \<Rightarrow> ('a \<Rightarrow> 'a \<Rightarrow> bool) \<Rightarrow> ('s, 'e) world \<Rightarrow> ('s, 'e) world \<Rightarrow> bool" where
  "store_rel invar alpha R w w' \<longleftrightarrow>
     (invar (w_store w) \<longrightarrow> invar (w_store w') \<and> R (alpha (w_store w)) (alpha (w_store w')))"

lemma frame_rel_store_rel: "frame_rel R \<Longrightarrow> frame_rel (store_rel invar alpha R)"
  unfolding frame_rel_def store_rel_def
  by (auto intro!: reflpI transpI dest: reflpD transpD)

lemma stable_wp: "stable R m \<longleftrightarrow> (\<forall>w. wp m (\<lambda>_. R w) (\<lambda>_. R w) w)"
  by (simp add: stable_def wp_snd)

lemma stable_store:
  assumes "op_spec invar alpha m T" and "frame_rel R" and "\<And>a x a'. T a x a' \<Longrightarrow> R a a'"
  shows "stable (store_rel invar alpha R) (liftS m)"
  unfolding stable_wp store_rel_def
proof
  fix w
  show "wp (liftS m)
     (\<lambda>_ w'. invar (w_store w) \<longrightarrow> invar (w_store w') \<and> R (alpha (w_store w)) (alpha (w_store w')))
     (\<lambda>_ w'. invar (w_store w) \<longrightarrow> invar (w_store w') \<and> R (alpha (w_store w)) (alpha (w_store w'))) w"
  proof (cases "invar (w_store w)")
    case True
    with assms show ?thesis
      by (intro wp_store [OF assms(1)]) (auto simp: frame_rel_def dest: reflpD)
  qed (simp add: wp_snd)
qed

lemma stable_store_env [stable_intros]:
  "frame_rel R \<Longrightarrow> stable (store_rel invar alpha R) (liftE me)"
  "frame_rel R \<Longrightarrow> stable (store_rel invar alpha R) (onSession mo sess)"
  by (auto intro!: stable_liftE stable_onSession simp: store_rel_def frame_rel_def dest: reflpD)

lemma stable_store_lock [stable_intros]:
  assumes "frame_rel R" and "stable (store_rel invar alpha R) m"
  shows "stable (store_rel invar alpha R) (withDeviceLock dev m)"
  using assms unfolding stable_def store_rel_def
  by (simp add: withDeviceLock_run case_prod_beta frame_rel_def reflpD) (metis locked_frame(1))

section \<open>Frames on the abstract store\<close>

text \<open>
  What encrypting for the device \<open>dev\<close> may change: its session, its identity key, and trust
  decisions, of which only a missing one can become \<open>TrustTrusted\<close>.
\<close>

definition enc_frame :: "(Device \<Rightarrow> bool) \<Rightarrow> astore \<Rightarrow> astore \<Rightarrow> bool" where
  "enc_frame D a a' \<longleftrightarrow>
     a'\<lparr>a_sessions := a_sessions a, a_remoteID := a_remoteID a, a_trust := a_trust a\<rparr> = a \<and>
     (\<forall>d. \<not> D d \<longrightarrow> a_sessions a' d = a_sessions a d \<and> a_remoteID a' d = a_remoteID a d) \<and>
     (\<forall>k. a_trust a' k = a_trust a k \<or>
          a_trust a' k = TrustTrusted \<and> a_trust a k \<noteq> TrustUntrusted)"

text \<open>A device that messages can be encrypted for: a session, a known and trusted identity key.\<close>

definition ready :: "Device \<Rightarrow> slice \<Rightarrow> astore \<Rightarrow> bool" where
  "ready dev k a \<longleftrightarrow> a_sessions a dev \<noteq> None \<and> a_remoteID a dev = Some k \<and>
     a_trust a (slice_string k) = TrustTrusted"

text \<open>Readiness of every device, once reached, is kept.\<close>

definition ready_kept :: "astore \<Rightarrow> astore \<Rightarrow> bool" where
  "ready_kept a a' \<longleftrightarrow> (\<forall>d k. ready d k a \<longrightarrow> ready d k a')"

lemma frame_rel_enc_frame [simp, intro]: "frame_rel (enc_frame D)"
  unfolding frame_rel_def
proof
  show "reflp (enc_frame D)" by (rule reflpI) (simp add: enc_frame_def)
  show "transp (enc_frame D)"
  proof (rule transpI)
    fix a b c assume "enc_frame D a b" "enc_frame D b c"
    then show "enc_frame D a c"
      unfolding enc_frame_def by (cases a; cases b; cases c) (simp, metis)
  qed
qed

lemma frame_rel_ready_kept [simp, intro]: "frame_rel ready_kept"
  by (auto simp: frame_rel_def ready_kept_def intro!: reflpI transpI)

lemma enc_frame_trusted: "enc_frame D a a' \<Longrightarrow> a_trust a k = TrustTrusted \<Longrightarrow> a_trust a' k = TrustTrusted"
  unfolding enc_frame_def by metis

lemma enc_frame_mono: "enc_frame D a a' \<Longrightarrow> (\<And>d. D d \<Longrightarrow> D' d) \<Longrightarrow> enc_frame D' a a'"
  unfolding enc_frame_def by metis

lemma enc_frame_steps:
  "D dev \<Longrightarrow> enc_frame D a (a\<lparr>a_sessions := (a_sessions a)(dev \<mapsto> x)\<rparr>)"
  "D dev \<Longrightarrow> enc_frame D a (a\<lparr>a_remoteID := (a_remoteID a)(dev \<mapsto> k)\<rparr>)"
  "a_trust a (slice_string k) \<noteq> TrustUntrusted \<Longrightarrow>
     enc_frame D a (a\<lparr>a_trust := (a_trust a)(slice_string k := TrustTrusted)\<rparr>)"
  by (auto simp: enc_frame_def)

text \<open>
  The three changes a run of \<open>encryptForDevice\<close> makes one after the other: the identity key of
  a device without a session, the trust decision, the session.
\<close>

definition start_step :: "Device \<Rightarrow> astore \<Rightarrow> astore \<Rightarrow> bool" where
  "start_step dev a a' \<longleftrightarrow> a' = a \<or>
     a_sessions a dev = None \<and> (\<exists>k. a' = a\<lparr>a_remoteID := (a_remoteID a)(dev \<mapsto> k)\<rparr>)"

definition session_put :: "Device \<Rightarrow> astore \<Rightarrow> astore \<Rightarrow> bool" where
  "session_put dev a a' \<longleftrightarrow> (\<exists>x. a' = a\<lparr>a_sessions := (a_sessions a)(dev \<mapsto> x)\<rparr>)"

text \<open>An identity key that may be encrypted for: trusted, or undecided and taken by the callback.\<close>

definition accepted :: "('s, 'e) Manager \<Rightarrow> Device \<Rightarrow> slice \<Rightarrow> astore \<Rightarrow> bool" where
  "accepted M dev k a \<longleftrightarrow> a_trust a (slice_string k) = TrustTrusted \<or>
     a_trust a (slice_string k) \<notin> {TrustTrusted, TrustUntrusted} \<and>
       (\<exists>r e e'. m_trustResolver M = Some r \<and> r dev k e = (Inr (), e'))"

definition trust_step :: "('s, 'e) Manager \<Rightarrow> Device \<Rightarrow> slice \<Rightarrow> astore \<Rightarrow> astore \<Rightarrow> bool" where
  "trust_step M dev k a a' \<longleftrightarrow> accepted M dev k a \<and>
     a' = (if a_trust a (slice_string k) = TrustTrusted then a
           else a\<lparr>a_trust := (a_trust a)(slice_string k := TrustTrusted)\<rparr>)"

definition enc_ok :: "Device \<Rightarrow> astore \<Rightarrow> astore \<Rightarrow> bool" where
  "enc_ok dev a a' \<longleftrightarrow> enc_frame (\<lambda>d. d = dev) a a' \<and> ready_kept a a'"

lemma enc_frame_refl [simp, intro]: "enc_frame D a a"
  by (simp add: enc_frame_def)

lemma start_step_refl [simp, intro]: "start_step dev a a"
  by (simp add: start_step_def)

lemma start_step_put:
  "a_sessions a dev = None \<Longrightarrow> start_step dev a (a\<lparr>a_remoteID := (a_remoteID a)(dev \<mapsto> k)\<rparr>)"
  by (auto simp: start_step_def)

lemma session_putI [simp, intro]: "session_put dev a (a\<lparr>a_sessions := (a_sessions a)(dev \<mapsto> x)\<rparr>)"
  by (auto simp: session_put_def)

lemma frame_rel_enc_ok [simp, intro]: "frame_rel (enc_ok dev)"
  using frame_rel_enc_frame [of "\<lambda>d. d = dev"] frame_rel_ready_kept
  unfolding frame_rel_def enc_ok_def
  by (auto intro!: reflpI transpI dest: reflpD transpD)

lemma enc_ok_refl [simp, intro]: "enc_ok dev a a"
  using frame_rel_enc_ok [of dev] by (auto simp: frame_rel_def dest: reflpD)

lemma enc_ok_trans: "enc_ok dev a b \<Longrightarrow> enc_ok dev b c \<Longrightarrow> enc_ok dev a c"
  using frame_rel_enc_ok [of dev] by (auto simp: frame_rel_def dest: transpD)

lemma start_step_ok: "start_step dev a a' \<Longrightarrow> enc_ok dev a a'"
  by (auto simp: start_step_def enc_ok_def ready_kept_def ready_def intro!: enc_frame_steps)

lemma trust_step_ok: "trust_step M dev' k a a' \<Longrightarrow> enc_ok dev a a'"
  by (auto simp: trust_step_def accepted_def enc_ok_def ready_kept_def ready_def
      intro!: enc_frame_steps split: if_splits)

lemma session_put_ok: "session_put dev a a' \<Longrightarrow> enc_ok dev a a'"
  by (auto simp: session_put_def enc_ok_def ready_kept_def ready_def intro!: enc_frame_steps)

lemmas enc_chain1 = start_step_ok
lemmas enc_chain2 = start_step_ok [THEN enc_ok_trans, OF _ trust_step_ok]
lemmas enc_chain3 = enc_chain2 [THEN enc_ok_trans, OF _ _ session_put_ok]

lemma enc_chain_ready:
  assumes "start_step dev a a1" and "trust_step M dev k a1 a2" and "session_put dev a2 a3"
    and "a_remoteID a1 dev = Some k"
  shows "ready dev k a3 \<and> accepted M dev k a"
  using assms
  by (auto simp: start_step_def trust_step_def session_put_def ready_def accepted_def split: if_splits)

section \<open>Clients of the contract\<close>

context omemo_store
begin

text \<open>\<open>checkTrust\<close>: what a success says, and what it changes.\<close>

lemma checkTrust_wp:
  assumes M: "m_store M = S" and "invar (w_store w)"
    and ok: "\<And>w'. invar (w_store w') \<Longrightarrow>
       trust_step M dev k (alpha (w_store w)) (alpha (w_store w')) \<Longrightarrow> Q () w'"
    and err: "\<And>e w'. invar (w_store w') \<Longrightarrow> alpha (w_store w') = alpha (w_store w) \<Longrightarrow> E e w'"
  shows "wp (checkTrust M dev k) Q E w"
proof -
  let ?t = "a_trust (alpha (w_store w)) (slice_string k)"
  have resolve: "wp (andThen (liftE (r dev k)) (\<lambda>_. liftS (SetTrust S k TrustTrusted))) Q E (w\<lparr>w_store := s\<rparr>)"
    if r: "m_trustResolver M = Some r" and t: "?t \<notin> {TrustTrusted, TrustUntrusted}"
      and s: "invar s" "alpha s = alpha (w_store w)" for r s
    unfolding wp_andThen wp_liftE
  proof (rule wp_runI)
    fix u e assume "r dev k (w_env (w\<lparr>w_store := s\<rparr>)) = (Inr u, e)"
    with r t have "accepted M dev k (alpha (w_store w))" by (auto simp: accepted_def)
    with s t show "wp (liftS (SetTrust S k TrustTrusted)) Q E (w\<lparr>w_store := s, w_env := e\<rparr>)"
      by (intro wp_store [OF SetTrust_spec]) (auto simp: trust_step_def intro!: ok err)
  qed (simp add: s err)
  show ?thesis
    unfolding checkTrust_def wp_andThen wp_wrapErr M
    using assms(2)
    by (intro wp_store [OF Trust_spec])
      (auto simp: wp_throw wp_ret trust_step_def accepted_def split: option.split intro!: ok err resolve)
qed

text \<open>
  \<open>getOrCreateActiveSession\<close>: a stored session is loaded and nothing changes; without one, the
  identity key of the fetched bundle is recorded and a key exchange is returned.
\<close>

lemma getOrCreateActiveSession_wp:
  assumes M: "m_store M = S" and i: "invar (w_store w)"
    and ok: "\<And>sess kx w'. invar (w_store w') \<Longrightarrow>
       start_step dev (alpha (w_store w)) (alpha (w_store w')) \<Longrightarrow>
       (kx = None \<longleftrightarrow> a_sessions (alpha (w_store w)) dev \<noteq> None) \<Longrightarrow> Q (sess, kx) w'"
    and err: "\<And>e w'. invar (w_store w') \<Longrightarrow>
       start_step dev (alpha (w_store w)) (alpha (w_store w')) \<Longrightarrow> E e w'"
  shows "wp (getOrCreateActiveSession B M dev) Q E w"
  unfolding getOrCreateActiveSession_def
  by (auto simp: wp_simps M i split: option.split list.split
      intro!: wp_liftE_any wp_store [OF Session_spec] wp_store [OF PutRemoteIdentityKey_spec] ok err
        start_step_put)

lemma putSession_wp:
  assumes M: "m_store M = S" and i: "invar (w_store w)"
    and stored: "\<And>w'. invar (w_store w') \<Longrightarrow>
       session_put dev (alpha (w_store w)) (alpha (w_store w')) \<Longrightarrow> Q () w'"
    and err: "\<And>e w'. invar (w_store w') \<Longrightarrow> alpha (w_store w') = alpha (w_store w) \<Longrightarrow> E e w'"
  shows "wp (putSession B M dev sess) Q E w"
  unfolding putSession_def
  by (auto simp: wp_simps M i
      intro!: wp_liftE_any wp_store [OF PutSession_spec] stored err)

text \<open>
  The whole of \<open>encryptForDevice\<close>: a key is returned only with the device ready, its identity
  key trusted before or accepted by the callback; every run keeps the frame and what was ready.
\<close>

lemma encryptForDevice_wp:
  assumes M: "m_store M = S" and i: "invar (w_store w)"
  shows "wp (encryptForDevice B M dev km)
     (\<lambda>key w'. invar (w_store w') \<and> rk_Device key = dev_ID dev \<and>
        (rk_KeyExchange key = None \<longleftrightarrow> a_sessions (alpha (w_store w)) dev \<noteq> None) \<and>
        enc_ok dev (alpha (w_store w)) (alpha (w_store w')) \<and>
        (\<exists>k. ready dev k (alpha (w_store w')) \<and> accepted M dev k (alpha (w_store w))))
     (\<lambda>e w'. invar (w_store w') \<and> enc_ok dev (alpha (w_store w)) (alpha (w_store w'))) w"
  unfolding encryptForDevice_def
  by (auto simp: wp_simps M i split: option.split
      intro!: getOrCreateActiveSession_wp wp_store [OF RemoteIdentityKey_spec] checkTrust_wp
        wp_onSession_any putSession_wp)
    (blast intro: enc_chain1 enc_chain2 enc_chain3 dest: enc_chain_ready)+

end

end
