(* ===== verification/Manager_Encrypt.thy ===== *)
theory Manager_Encrypt
  imports Manager_Store
begin

text \<open>
  Encrypting a message for many devices: which devices are addressed (\<open>devicesFor\<close>,
  \<open>recipientDevices\<close>), the loop over them (\<open>encryptLoop\<close>) and the whole of \<open>encrypt\<close>. The lemmas
  of the locale hold for every store that keeps the contract.
\<close>

section \<open>Which positions of the device list were served\<close>

text \<open>\<open>bs\<close> says, position by position, whether a key was made for the device.\<close>

definition served :: "bool list \<Rightarrow> 'a list \<Rightarrow> 'a list" where
  "served bs ds = map snd (filter fst (zip bs ds))"

definition skipped :: "bool list \<Rightarrow> 'a list \<Rightarrow> 'a list" where
  "skipped bs ds = map snd (filter (Not \<circ> fst) (zip bs ds))"

lemma served_simps [simp]:
  "served [] ds = []" "served (b # bs) (d # ds) = (if b then d # served bs ds else served bs ds)"
  by (simp_all add: served_def)

lemma skipped_simps [simp]:
  "skipped [] ds = []" "skipped (b # bs) (d # ds) = (if b then skipped bs ds else d # skipped bs ds)"
  by (simp_all add: skipped_def)

lemma served_subset: "set (served bs ds) \<subseteq> set ds"
  by (auto simp: served_def dest: set_zip_rightD)

lemma served_skipped_length:
  "length bs = length ds \<Longrightarrow> length (served bs ds) + length (skipped bs ds) = length ds"
  by (induction bs ds rule: list_induct2) auto

text \<open>
  The outcome of the loop over the recipients \<open>ds\<close>: the keys are, in order, those of the served
  positions, the device errors those of the others, and every served device is ready.
\<close>

definition loop_post :: "Device list \<Rightarrow> RecipientKey list \<Rightarrow> DeviceError list \<Rightarrow> astore \<Rightarrow> bool" where
  "loop_post ds keys errs a \<longleftrightarrow> (\<exists>bs. length bs = length ds \<and>
     map rk_Device keys = map dev_ID (served bs ds) \<and> map de_Device errs = skipped bs ds \<and>
     (\<forall>d \<in> set (served bs ds). \<exists>k. ready d k a))"

text \<open>What the loop over the devices in \<open>D\<close> keeps.\<close>

definition enc_many :: "Device set \<Rightarrow> astore \<Rightarrow> astore \<Rightarrow> bool" where
  "enc_many D a a' \<longleftrightarrow> enc_frame (\<lambda>d. d \<in> D) a a' \<and> ready_kept a a'"

lemma frame_rel_enc_many [simp, intro]: "frame_rel (enc_many D)"
  using frame_rel_enc_frame [of "\<lambda>d. d \<in> D"] frame_rel_ready_kept
  unfolding frame_rel_def enc_many_def by (auto intro!: reflpI transpI dest: reflpD transpD)

lemma enc_many_refl [simp, intro]: "enc_many D a a"
  using frame_rel_enc_many [of D] by (auto simp: frame_rel_def dest: reflpD)

lemma enc_many_trans: "enc_many D a b \<Longrightarrow> enc_many D b c \<Longrightarrow> enc_many D a c"
  using frame_rel_enc_many [of D] by (auto simp: frame_rel_def dest: transpD)

lemma enc_ok_many: "enc_ok d a b \<Longrightarrow> d \<in> D \<Longrightarrow> enc_many D a b"
  by (auto simp: enc_ok_def enc_many_def elim: enc_frame_mono)

lemma enc_many_mono: "enc_many D a b \<Longrightarrow> D \<subseteq> D' \<Longrightarrow> enc_many D' a b"
  by (auto simp: enc_many_def elim: enc_frame_mono)

lemma enc_many_ready: "enc_many D a b \<Longrightarrow> ready_kept a b"
  by (simp add: enc_many_def)

lemma loop_post_Nil [simp]: "loop_post [] [] [] a"
  by (simp add: loop_post_def)

lemma loop_post_key:
  assumes "loop_post ds keys errs a'" and "rk_Device key = dev_ID d" and "ready d k a" and "ready_kept a a'"
  shows "loop_post (d # ds) (key # keys) errs a'"
proof -
  from assms(1) obtain bs where bs: "length bs = length ds"
    "map rk_Device keys = map dev_ID (served bs ds)" "map de_Device errs = skipped bs ds"
    "\<forall>d \<in> set (served bs ds). \<exists>k. ready d k a'" by (auto simp: loop_post_def)
  from assms(3,4) have "ready d k a'" by (simp add: ready_kept_def)
  with bs assms(2) show ?thesis
    unfolding loop_post_def by (intro exI [of _ "True # bs"]) auto
qed

lemma loop_post_err:
  assumes "loop_post ds keys errs a'" and "de_Device err = d"
  shows "loop_post (d # ds) keys (err # errs) a'"
proof -
  from assms(1) obtain bs where bs: "length bs = length ds"
    "map rk_Device keys = map dev_ID (served bs ds)" "map de_Device errs = skipped bs ds"
    "\<forall>d \<in> set (served bs ds). \<exists>k. ready d k a'" by (auto simp: loop_post_def)
  with assms(2) show ?thesis
    unfolding loop_post_def by (intro exI [of _ "False # bs"]) auto
qed

text \<open>Refreshing device lists: only the empty lists of the accounts in \<open>J\<close> can change.\<close>

definition lists_frame :: "string set \<Rightarrow> astore \<Rightarrow> astore \<Rightarrow> bool" where
  "lists_frame J a a' \<longleftrightarrow> a'\<lparr>a_devices := a_devices a\<rparr> = a \<and>
     (\<forall>j. j \<notin> J \<or> a_devices a j \<noteq> [] \<longrightarrow> a_devices a' j = a_devices a j)"

definition devs_of :: "string \<Rightarrow> DeviceID list \<Rightarrow> Device list" where
  "devs_of jid ids = map (\<lambda>i. \<lparr>dev_JID = jid, dev_ID = i\<rparr>) ids"

text \<open>
  The devices a message to \<open>jid\<close> is for, given the device lists in the store: all of \<open>jid\<close>'s,
  then the sender's own, unless \<open>jid\<close> is the sender's account or its list could not be had.
\<close>

definition addressed :: "('s, 'e) Manager \<Rightarrow> string \<Rightarrow> astore \<Rightarrow> Device list \<Rightarrow> bool" where
  "addressed M jid a devs \<longleftrightarrow> (\<exists>own. devs = devs_of jid (a_devices a jid) @
     devs_of (dev_JID (m_localDevice M)) own \<and>
     (own = [] \<or> jid \<noteq> dev_JID (m_localDevice M) \<and> own = a_devices a (dev_JID (m_localDevice M))))"

text \<open>What sending to the accounts in \<open>J\<close> keeps: identity, signed prekeys, the prekey pool.\<close>

definition send_frame :: "string set \<Rightarrow> astore \<Rightarrow> astore \<Rightarrow> bool" where
  "send_frame J a a' \<longleftrightarrow>
     a'\<lparr>a_sessions := a_sessions a, a_remoteID := a_remoteID a, a_trust := a_trust a,
        a_devices := a_devices a\<rparr> = a \<and>
     (\<forall>j. j \<notin> J \<or> a_devices a j \<noteq> [] \<longrightarrow> a_devices a' j = a_devices a j) \<and>
     (\<forall>d. dev_JID d \<notin> J \<longrightarrow> a_sessions a' d = a_sessions a d \<and> a_remoteID a' d = a_remoteID a d) \<and>
     (\<forall>k. a_trust a' k = a_trust a k \<or>
          a_trust a' k = TrustTrusted \<and> a_trust a k \<noteq> TrustUntrusted) \<and>
     ready_kept a a'"

lemma lists_frame_refl [simp, intro]: "lists_frame J a a"
  by (simp add: lists_frame_def)

lemma lists_frame_put: "a_devices a j = [] \<Longrightarrow> j \<in> J \<Longrightarrow> lists_frame J a (a\<lparr>a_devices := (a_devices a)(j := ds)\<rparr>)"
  by (auto simp: lists_frame_def)

lemma lists_frame_trans: "lists_frame J a b \<Longrightarrow> lists_frame J b c \<Longrightarrow> lists_frame J a c"
  unfolding lists_frame_def by (cases a; cases b; cases c) auto

lemma lists_frame_other: "lists_frame J a b \<Longrightarrow> j \<notin> J \<Longrightarrow> a_devices b j = a_devices a j"
  by (simp add: lists_frame_def)

lemma lists_frame_mono: "lists_frame J a b \<Longrightarrow> J \<subseteq> K \<Longrightarrow> lists_frame K a b"
  unfolding lists_frame_def by blast

lemma lists_frame_extend: "lists_frame J a b \<Longrightarrow> lists_frame K b c \<Longrightarrow> K \<subseteq> J \<Longrightarrow> lists_frame J a c"
  by (blast intro: lists_frame_trans lists_frame_mono)

lemma send_frame_lists: "lists_frame J a b \<Longrightarrow> send_frame J a b"
  unfolding lists_frame_def send_frame_def ready_kept_def ready_def
  by (cases a; cases b) auto

lemma send_frame_enc:
  assumes "lists_frame J a b" and "enc_many D b c" and "dev_JID ` D \<subseteq> J"
  shows "send_frame J a c"
proof -
  have "enc_frame (\<lambda>d. d \<in> D) b c" "ready_kept b c" using assms(2) by (simp_all add: enc_many_def)
  moreover have "d \<notin> D" if "dev_JID d \<notin> J" for d using assms(3) that by auto
  ultimately show ?thesis using assms(1)
    unfolding lists_frame_def enc_frame_def send_frame_def ready_kept_def ready_def
    by (cases a; cases b; cases c) auto
qed

lemma send_frame_trust:
  assumes "send_frame J a a'" and "a_trust a' k = TrustTrusted"
  shows "a_trust a k \<noteq> TrustUntrusted"
proof -
  from assms(1) have "a_trust a' k = a_trust a k \<or> a_trust a k \<noteq> TrustUntrusted"
    unfolding send_frame_def by blast
  with assms(2) show ?thesis by auto
qed

text \<open>Every known device of both accounts, with a store that does not fail.\<close>

definition all_devices :: "('s, 'e) Manager \<Rightarrow> string \<Rightarrow> astore \<Rightarrow> Device list" where
  "all_devices M jid a = devs_of jid (a_devices a jid) @
     (if jid = dev_JID (m_localDevice M) then []
      else devs_of (dev_JID (m_localDevice M)) (a_devices a (dev_JID (m_localDevice M))))"

text \<open>The devices a message is for: every known device of both accounts but the sending one.\<close>

definition recipients :: "('s, 'e) Manager \<Rightarrow> string \<Rightarrow> astore \<Rightarrow> Device list" where
  "recipients M jid a = filter (\<lambda>d. d \<noteq> m_localDevice M) (all_devices M jid a)"

text \<open>What the loop needs of a notion of addressed devices.\<close>

definition addressing :: "string set \<Rightarrow> (astore \<Rightarrow> Device list \<Rightarrow> bool) \<Rightarrow> bool" where
  "addressing J A \<longleftrightarrow> (\<forall>a devs. A a devs \<longrightarrow> dev_JID ` set devs \<subseteq> J) \<and>
     (\<forall>a b D devs. A a devs \<longrightarrow> enc_many D a b \<longrightarrow> A b devs)"

lemma enc_many_devices: "enc_many D a b \<Longrightarrow> a_devices b = a_devices a"
  by (cases a; cases b) (auto simp: enc_many_def enc_frame_def)

lemma addressing_addressed: "addressing {jid, dev_JID (m_localDevice M)} (addressed M jid)"
  by (auto simp: addressing_def addressed_def devs_of_def enc_many_devices)

lemma addressing_all: "addressing {jid, dev_JID (m_localDevice M)} (\<lambda>a devs. devs = all_devices M jid a)"
  by (auto simp: addressing_def all_devices_def devs_of_def enc_many_devices)

lemma addressed_plain: "addressed M jid a (devs_of jid (a_devices a jid))"
  by (auto simp: addressed_def devs_of_def)

lemma addressed_own: "jid \<noteq> dev_JID (m_localDevice M) \<Longrightarrow> addressed M jid a
     (devs_of jid (a_devices a jid) @ devs_of (dev_JID (m_localDevice M)) (a_devices a (dev_JID (m_localDevice M))))"
  by (auto simp: addressed_def)

text \<open>
  The results of \<open>encrypt\<close>: a message with at least one key and no error, or no message and an
  error. In a message (and where no device could be served) every addressed device other than
  the sender's own is accounted for, position by position. \<open>A\<close> says which devices are addressed.
\<close>

definition encrypt_post ::
  "(astore \<Rightarrow> Device list \<Rightarrow> bool) \<Rightarrow> ('s, 'e) Manager \<Rightarrow> slice \<Rightarrow> encrypt_result \<Rightarrow> astore \<Rightarrow> bool" where
  "encrypt_post A M pt r a \<longleftrightarrow>
     (case r of
        (Some msg, errs, None) \<Rightarrow>
          em_Sender msg = m_localDevice M \<and> em_Keys msg \<noteq> [] \<and>
          (pt = None \<longrightarrow> em_Payload msg = None \<and> em_IV msg = None) \<and>
          (\<exists>devs. A a devs \<and>
             loop_post (filter (\<lambda>d. d \<noteq> m_localDevice M) devs) (em_Keys msg) errs a)
      | (None, errs, Some e) \<Rightarrow> errs = [] \<or> e = ErrNoRecipients \<and>
          (\<exists>devs. A a devs \<and>
             loop_post (filter (\<lambda>d. d \<noteq> m_localDevice M) devs) [] errs a)
      | _ \<Rightarrow> False)"

section \<open>The loop over the recipient devices\<close>

context omemo_store
begin

lemma encryptLoop_wp:
  assumes M: "m_store M = S"
  shows "invar (w_store w) \<Longrightarrow> wp (encryptLoop B M km devs keys errs)
     (\<lambda>(keys', errs') w'. \<exists>ks es. keys' = keys @ ks \<and> errs' = errs @ es \<and> invar (w_store w') \<and>
        enc_many (set devs) (alpha (w_store w)) (alpha (w_store w')) \<and>
        loop_post (filter (\<lambda>d. d \<noteq> m_localDevice M) devs) ks es (alpha (w_store w')))
     (\<lambda>e w'. is_fatal e \<and> invar (w_store w') \<and>
        enc_many (set devs) (alpha (w_store w)) (alpha (w_store w'))) w"
proof (induction devs arbitrary: keys errs w)
  case Nil
  then show ?case by (simp add: wp_ret)
next
  case (Cons dev devs)
  show ?case
  proof (cases "dev = m_localDevice M")
    case True
    then have eq: "encryptLoop B M km (dev # devs) keys errs = encryptLoop B M km devs keys errs"
      by simp
    show ?thesis
      unfolding eq by (rule wp_mono [OF Cons.IH [OF Cons.prems]]) (use True in \<open>auto intro: enc_many_mono\<close>)
  next
    case False
    then have eq: "encryptLoop B M km (dev # devs) keys errs =
        tryCatch (encryptForDevice B M dev km)
          (\<lambda>e. encryptLoop B M km devs keys (errs @ [\<lparr>de_Device = dev, de_Err = e\<rparr>]))
          (\<lambda>key. encryptLoop B M km devs (keys @ [key]) errs)"
      by simp
    show ?thesis
      unfolding eq wp_tryCatch
    proof (rule wp_mono [OF encryptForDevice_wp [OF M Cons.prems]], goal_cases)
      case (1 key w1)
      then have many: "enc_many (set (dev # devs)) (alpha (w_store w)) (alpha (w_store w1))"
        by (auto intro: enc_ok_many)
      from 1 obtain k where k: "rk_Device key = dev_ID dev" "ready dev k (alpha (w_store w1))" by blast
      from 1 have "invar (w_store w1)" by simp
      from Cons.IH [OF this] show ?case
        by (rule wp_mono) (use many False k in \<open>auto 0 3 intro: enc_many_trans enc_many_mono
            intro!: loop_post_key dest: enc_many_ready\<close>)
    next
      case (2 e w1)
      then have many: "enc_many (set (dev # devs)) (alpha (w_store w)) (alpha (w_store w1))"
        by (auto intro: enc_ok_many)
      from 2 have i: "invar (w_store w1)" by simp
      show ?case
      proof (cases "is_fatal e")
        case False
        from Cons.IH [OF i] show ?thesis
          unfolding if_not_P [OF False]
          by (rule wp_mono) (use many \<open>dev \<noteq> m_localDevice M\<close> in
            \<open>auto 0 3 intro: enc_many_trans enc_many_mono intro!: loop_post_err\<close>)
      qed (use many i in simp)
    qed
  qed
qed

text \<open>The device lists: known lists are used as they are, an empty one is fetched and stored.\<close>

lemma devicesFor_wp:
  assumes M: "m_store M = S" and i: "invar (w_store w)" and J: "jid \<in> J"
    and ok: "\<And>ids w'. invar (w_store w') \<Longrightarrow> lists_frame J (alpha (w_store w)) (alpha (w_store w')) \<Longrightarrow>
       ids = a_devices (alpha (w_store w')) jid \<Longrightarrow> Q ids w'"
    and err: "\<And>e w'. invar (w_store w') \<Longrightarrow> lists_frame J (alpha (w_store w)) (alpha (w_store w')) \<Longrightarrow> E e w'"
  shows "wp (devicesFor M jid) Q E w"
  unfolding devicesFor_def SyncDevices_def
  by (auto simp: wp_simps M i J intro!: wp_liftE_any wp_store [OF Devices_spec]
      wp_store [OF SetDevices_spec] ok err lists_frame_put)

lemma recipientDevices_wp:
  assumes M: "m_store M = S" and i: "invar (w_store w)"
  shows "wp (recipientDevices M jid)
     (\<lambda>devs w'. invar (w_store w') \<and> addressed M jid (alpha (w_store w')) devs \<and>
        lists_frame {jid, dev_JID (m_localDevice M)} (alpha (w_store w)) (alpha (w_store w')))
     (\<lambda>e w'. invar (w_store w') \<and>
        lists_frame {jid, dev_JID (m_localDevice M)} (alpha (w_store w)) (alpha (w_store w'))) w"
  unfolding recipientDevices_def Let_def wp_andThen devs_of_def [symmetric]
proof (rule devicesFor_wp [OF M i, where J = "{jid, dev_JID (m_localDevice M)}"], goal_cases)
  case (2 ids w1)
  let ?own = "dev_JID (m_localDevice M)"
  show ?case
  proof (cases "jid = ?own")
    case True
    with 2 show ?thesis by (simp add: wp_simps addressed_plain)
  next
    case False
    have "wp (devicesFor M ?own)
      (\<lambda>own w'. invar (w_store w') \<and> lists_frame {?own} (alpha (w_store w1)) (alpha (w_store w')) \<and>
         own = a_devices (alpha (w_store w')) ?own)
      (\<lambda>e w'. invar (w_store w') \<and> lists_frame {?own} (alpha (w_store w1)) (alpha (w_store w'))) w1"
      using 2 by (intro devicesFor_wp [OF M]) auto
    with False 2 show ?thesis
      by (auto simp: wp_simps lists_frame_other [symmetric] addressed_plain addressed_own elim!: wp_mono
          intro: lists_frame_extend)
  qed
qed simp_all

text \<open>The whole of \<open>encrypt\<close>, given what \<open>recipientDevices\<close> guarantees.\<close>

lemma encrypt_wp_gen:
  assumes M: "m_store M = S" and i: "invar (w_store w)" and A: "addressing J A"
    and rcpt: "wp (recipientDevices M jid)
       (\<lambda>devs w'. invar (w_store w') \<and> A (alpha (w_store w')) devs \<and>
          lists_frame J (alpha (w_store w)) (alpha (w_store w')))
       (\<lambda>e w'. invar (w_store w') \<and> lists_frame J (alpha (w_store w)) (alpha (w_store w'))) w"
  shows "wp (encrypt B M jid pt)
     (\<lambda>r w'. invar (w_store w') \<and> encrypt_post A M pt r (alpha (w_store w')) \<and>
        send_frame J (alpha (w_store w)) (alpha (w_store w')))
     (\<lambda>e w'. is_fatal e \<and> invar (w_store w') \<and> send_frame J (alpha (w_store w)) (alpha (w_store w'))) w"
proof -
  have loop: "wp (andThen (encryptLoop B M km devs [] []) (\<lambda>(keys, deviceErrs).
       if keys = [] then ret (None, deviceErrs, Some ErrNoRecipients)
       else ret (Some \<lparr>em_Sender = m_localDevice M, em_Keys = keys,
          em_Payload = if pt = None then None else ct, em_IV = if pt = None then None else iv\<rparr>,
          deviceErrs, None)))
     (\<lambda>r w'. invar (w_store w') \<and> encrypt_post A M pt r (alpha (w_store w')) \<and>
        send_frame J (alpha (w_store w)) (alpha (w_store w')))
     (\<lambda>e w'. is_fatal e \<and> invar (w_store w') \<and> send_frame J (alpha (w_store w)) (alpha (w_store w'))) w1"
    if w1: "invar (w_store w1)" and devs: "A (alpha (w_store w1)) devs"
      and lists: "lists_frame J (alpha (w_store w)) (alpha (w_store w1))" for km devs ct iv w1
  proof -
    from A devs have jids: "dev_JID ` set devs \<subseteq> J" by (simp add: addressing_def)
    from A devs have keep: "enc_many D (alpha (w_store w1)) b \<Longrightarrow> A b devs" for D b
      unfolding addressing_def by blast
    show ?thesis
      unfolding wp_andThen
      by (rule wp_mono [OF encryptLoop_wp [OF M w1]])
        (auto simp: wp_simps encrypt_post_def intro: send_frame_enc [OF lists _ jids] keep)
  qed
  show ?thesis
    unfolding encrypt_def wp_tryCatch Let_def
  proof (rule wp_mono [OF rcpt], goal_cases)
    case (1 devs w1)
    show ?case
    proof (rule wp_liftE_any, goal_cases)
      case (1 x e)
      obtain km iv ct where x: "x = (km, iv, ct)" by (cases x)
      show ?case
        unfolding x prod.case by (rule loop) (use \<open>invar (w_store w1) \<and> _\<close> in simp_all)
    next
      case (2 err e)
      with \<open>invar (w_store w1) \<and> _\<close> show ?case
        by (auto simp: wp_ret encrypt_post_def intro: send_frame_lists)
    qed
  next
    case (2 e w1)
    then show ?case by (auto simp: wp_ret encrypt_post_def intro: send_frame_lists)
  qed
qed

lemmas encrypt_wp = encrypt_wp_gen [OF _ _ addressing_addressed recipientDevices_wp]

text \<open>Without a trust callback no trust decision changes.\<close>

lemma trust_kept_calls:
  "stable (store_rel invar alpha (same a_trust)) (liftS (Session S d))"
  "stable (store_rel invar alpha (same a_trust)) (liftS (PutSession S d x))"
  "stable (store_rel invar alpha (same a_trust)) (liftS (Trust S k))"
  "stable (store_rel invar alpha (same a_trust)) (liftS (Devices S j))"
  "stable (store_rel invar alpha (same a_trust)) (liftS (SetDevices S j ds))"
  "stable (store_rel invar alpha (same a_trust)) (liftS (RemoteIdentityKey S d))"
  "stable (store_rel invar alpha (same a_trust)) (liftS (PutRemoteIdentityKey S d k))"
  by (auto intro!: Session_spec [THEN stable_store] PutSession_spec [THEN stable_store]
      Trust_spec [THEN stable_store] Devices_spec [THEN stable_store]
      SetDevices_spec [THEN stable_store] RemoteIdentityKey_spec [THEN stable_store]
      PutRemoteIdentityKey_spec [THEN stable_store] simp: same_def)

lemma encryptForDevice_trust_kept:
  assumes M: "m_store M = S" and r: "m_trustResolver M = None"
  shows "stable (store_rel invar alpha (same a_trust)) (encryptForDevice B M dev km)"
  unfolding encryptForDevice_def getOrCreateActiveSession_def checkTrust_def putSession_def M r option.case
  by (intro stable_intros frame_rel_store_rel frame_rel_same trust_kept_calls)

lemma encryptLoop_trust_kept:
  assumes M: "m_store M = S" and r: "m_trustResolver M = None"
  shows "stable (store_rel invar alpha (same a_trust)) (encryptLoop B M km devs keys errs)"
proof (induction devs arbitrary: keys errs)
  case Nil
  show ?case unfolding encryptLoop.simps by (intro stable_intros frame_rel_store_rel frame_rel_same)
next
  case (Cons dev devs)
  show ?case
    unfolding encryptLoop.simps
    by (intro stable_intros frame_rel_store_rel frame_rel_same Cons.IH encryptForDevice_trust_kept [OF M r])
qed

lemma encrypt_trust_kept:
  assumes M: "m_store M = S" and r: "m_trustResolver M = None"
  shows "stable (store_rel invar alpha (same a_trust)) (encrypt B M jid pt)"
  unfolding encrypt_def recipientDevices_def devicesFor_def SyncDevices_def M
  by (intro stable_intros frame_rel_store_rel frame_rel_same trust_kept_calls encryptLoop_trust_kept [OF M r])

end

context reliable_store
begin

lemma devicesFor_total_wp:
  assumes M: "m_store M = S" and i: "invar (w_store w)" and J: "jid \<in> J"
    and ok: "\<And>ids w'. invar (w_store w') \<Longrightarrow> lists_frame J (alpha (w_store w)) (alpha (w_store w')) \<Longrightarrow>
       ids = a_devices (alpha (w_store w')) jid \<Longrightarrow> Q ids w'"
    and err: "\<And>e w'. invar (w_store w') \<Longrightarrow> alpha (w_store w') = alpha (w_store w) \<Longrightarrow>
       a_devices (alpha (w_store w)) jid = [] \<Longrightarrow> E e w'"
  shows "wp (devicesFor M jid) Q E w"
  unfolding devicesFor_def SyncDevices_def
  by (auto simp: wp_simps M i J intro!: wp_liftE_any wp_store_total [OF Devices_spec Devices_total]
      wp_store_total [OF SetDevices_spec SetDevices_total] ok err lists_frame_put)

lemma recipientDevices_total_wp:
  assumes M: "m_store M = S" and i: "invar (w_store w)"
  shows "wp (recipientDevices M jid)
     (\<lambda>devs w'. invar (w_store w') \<and> devs = all_devices M jid (alpha (w_store w')) \<and>
        lists_frame {jid, dev_JID (m_localDevice M)} (alpha (w_store w)) (alpha (w_store w')))
     (\<lambda>e w'. invar (w_store w') \<and>
        lists_frame {jid, dev_JID (m_localDevice M)} (alpha (w_store w)) (alpha (w_store w'))) w"
  unfolding recipientDevices_def Let_def wp_andThen devs_of_def [symmetric]
proof (rule devicesFor_total_wp [OF M i, where J = "{jid, dev_JID (m_localDevice M)}"], goal_cases)
  case (2 ids w1)
  let ?own = "dev_JID (m_localDevice M)"
  show ?case
  proof (cases "jid = ?own")
    case True
    with 2 show ?thesis by (simp add: wp_simps all_devices_def)
  next
    case False
    have "wp (devicesFor M ?own)
      (\<lambda>own w'. invar (w_store w') \<and> lists_frame {?own} (alpha (w_store w1)) (alpha (w_store w')) \<and>
         own = a_devices (alpha (w_store w')) ?own)
      (\<lambda>e w'. invar (w_store w') \<and> alpha (w_store w') = alpha (w_store w1) \<and>
         a_devices (alpha (w_store w1)) ?own = []) w1"
      using 2 by (intro devicesFor_total_wp [OF M]) auto
    with False 2 show ?thesis
      by (auto simp: wp_simps lists_frame_other [symmetric] all_devices_def devs_of_def elim!: wp_mono
          intro: lists_frame_extend)
  qed
qed simp_all

lemmas encrypt_total_wp = encrypt_wp_gen [OF _ _ addressing_all recipientDevices_total_wp]

end

end
