(* ===== verification/Manager_Environment.thy ===== *)
theory Manager_Environment
  imports Manager_Calculus
begin

text \<open>
  Invariants of the environment: a condition on the network that every call of the backend, the
  transport and the trust callback keeps is kept by the manager's functions, since they act on
  the environment through those calls only.
\<close>

section \<open>Calls that keep a condition\<close>

definition inv_rel :: "('e \<Rightarrow> bool) \<Rightarrow> 'e \<Rightarrow> 'e \<Rightarrow> bool" where
  "inv_rel I e e' \<longleftrightarrow> (I e \<longrightarrow> I e')"

lemma frame_rel_inv [simp, intro]: "frame_rel (inv_rel I)"
  by (auto simp: frame_rel_def inv_rel_def intro!: reflpI transpI)

definition on_env :: "('e \<Rightarrow> bool) \<Rightarrow> ('s, 'e) world \<Rightarrow> bool" where
  "on_env I w = I (w_env w)"

text \<open>The calls an encryption makes into code outside the repository.\<close>

definition env_kept ::
  "('e \<Rightarrow> bool) \<Rightarrow> ('e, 'dr, 'ls, 'x) backend \<Rightarrow> ('s, 'e) Manager \<Rightarrow> bool" where
  "env_kept I B M \<longleftrightarrow>
     (\<forall>j. stable (inv_rel I) (FetchDeviceList (m_transport M) j)) \<and>
     (\<forall>d. stable (inv_rel I) (FetchBundle (m_transport M) d)) \<and>
     (\<forall>r d k. m_trustResolver M = Some r \<longrightarrow> stable (inv_rel I) (r d k)) \<and>
     (\<forall>a b c d f. stable (inv_rel I) (x3dh_CreateInitialMessage B a b c d f)) \<and>
     (\<forall>a b c. stable (inv_rel I) (dr_CreateActive B a b c)) \<and>
     (\<forall>a. stable (inv_rel I) (dr_UnmarshalBinary B a)) \<and>
     (\<forall>a. stable (inv_rel I) (dr_MarshalBinary B a)) \<and>
     (\<forall>a. stable (inv_rel (I \<circ> snd)) (dr_Encrypt B a)) \<and>
     (\<forall>a b c d f. stable (inv_rel I) (ls_CreateInitialMessage B a b c d f)) \<and>
     (\<forall>a b c. stable (inv_rel I) (ls_NewActiveSession B a b c)) \<and>
     (\<forall>a. stable (inv_rel I) (ls_UnmarshalBinary B a)) \<and>
     (\<forall>a. stable (inv_rel I) (ls_MarshalBinary B a)) \<and>
     (\<forall>a b c d f. stable (inv_rel (I \<circ> snd)) (ls_EncryptPreKeyWhisperMessage B a b c d f)) \<and>
     (\<forall>a. stable (inv_rel (I \<circ> snd)) (ls_EncryptWhisperMessage B a)) \<and>
     (\<forall>a. stable (inv_rel I) (xo_EncryptPayload B a)) \<and>
     (\<forall>a. stable (inv_rel I) (xo_EncryptPayloadV1 B a))"

lemma env_keptD:
  assumes "env_kept I B M"
  shows "stable (inv_rel I) (FetchDeviceList (m_transport M) j)"
    and "stable (inv_rel I) (FetchBundle (m_transport M) dev)"
    and "m_trustResolver M = Some r \<Longrightarrow> stable (inv_rel I) (r dev k)"
    and "stable (inv_rel I) (LoadSession B p data)"
    and "stable (inv_rel I) (NewActiveSession B p a b c d f i1 i2 i3)"
    and "stable (inv_rel I) (IdentityPublicKey B p k)"
    and "stable (inv_rel I) (Marshal B sess)"
    and "stable (inv_rel I) (EncryptPayload B p pt)"
  using assms
  unfolding env_kept_def LoadSession_def NewActiveSession_def IdentityPublicKey_def Marshal_def EncryptPayload_def
  by (auto intro!: stable_intros split: option.split)

lemma env_kept_Encrypt: "env_kept I B M \<Longrightarrow> I e \<Longrightarrow> I (snd (snd (Encrypt B km (s, e))))"
proof -
  assume "env_kept I B M" "I e"
  then have "I (snd (snd (dr_Encrypt B km (x, e))))" "I (snd (snd (ls_EncryptWhisperMessage B km (y, e))))"
    "I (snd (snd (ls_EncryptPreKeyWhisperMessage B km a b c d (y, e))))" for x y a b c d
    unfolding env_kept_def stable_def inv_rel_def by (metis comp_apply snd_conv)+
  with \<open>I e\<close> show ?thesis
    by (simp add: Encrypt_def on_dr_def on_ls_def case_prod_beta split: option.split)
qed

lemma env_kept_True: "env_kept (\<lambda>_. True) B M"
  by (simp add: env_kept_def stable_def inv_rel_def)

section \<open>The manager keeps it\<close>

lemma env_wp: "stable (inv_rel (on_env I)) m \<Longrightarrow> I (w_env w) \<Longrightarrow> wp m (\<lambda>_ w'. I (w_env w')) (\<lambda>_ w'. I (w_env w')) w"
  using stableD [of "inv_rel (on_env I)" m w] by (simp add: wp_snd inv_rel_def on_env_def)

lemma env_leaf [stable_intros]: "stable (inv_rel (on_env I)) (liftS m)"
  by (auto intro!: stable_liftS simp: inv_rel_def on_env_def)

lemma env_liftE: "stable (inv_rel I) m \<Longrightarrow> stable (inv_rel (on_env I)) (liftE m)"
  by (simp add: stable_def liftE_def zoom_def inv_rel_def on_env_def case_prod_beta)

lemma env_onSession: "(\<And>s e. I e \<Longrightarrow> I (snd (snd (m (s, e))))) \<Longrightarrow> stable (inv_rel (on_env I)) (onSession m sess)"
  by (simp add: stable_def onSession_def inv_rel_def on_env_def case_prod_beta)

lemma env_withDeviceLock [stable_intros]:
  "stable (inv_rel (on_env I)) m \<Longrightarrow> stable (inv_rel (on_env I)) (withDeviceLock dev m)"
  by (simp add: stable_def inv_rel_def on_env_def withDeviceLock_run case_prod_beta)

lemma encryptForDevice_env:
  assumes "env_kept I B M"
  shows "stable (inv_rel (on_env I)) (encryptForDevice B M dev km)"
  unfolding encryptForDevice_def getOrCreateActiveSession_def checkTrust_def putSession_def
  by (intro stable_intros frame_rel_inv env_liftE env_onSession env_keptD [OF assms] env_kept_Encrypt [OF assms]
      | assumption)+

lemma recipientDevices_env:
  assumes "env_kept I B M"
  shows "stable (inv_rel (on_env I)) (recipientDevices M jid)"
  unfolding recipientDevices_def devicesFor_def SyncDevices_def
  by (intro stable_intros frame_rel_inv env_liftE env_keptD [OF assms])

lemma encryptLoop_env:
  assumes "env_kept I B M"
  shows "stable (inv_rel (on_env I)) (encryptLoop B M km devs keys errs)"
proof (induction devs arbitrary: keys errs)
  case (Cons d devs)
  show ?case
    unfolding encryptLoop.simps by (intro stable_intros frame_rel_inv encryptForDevice_env assms Cons.IH)
qed (simp, intro stable_intros frame_rel_inv)

lemma encrypt_env:
  assumes "env_kept I B M"
  shows "stable (inv_rel (on_env I)) (encrypt B M jid pt)"
  unfolding encrypt_def
  by (intro stable_intros frame_rel_inv env_liftE recipientDevices_env [OF assms] encryptLoop_env [OF assms] env_keptD [OF assms])

section \<open>Conditions the whole backend keeps\<close>

definition backend_keeps :: "('e \<Rightarrow> bool) \<Rightarrow> ('e, 'dr, 'ls, 'x) backend \<Rightarrow> bool" where
  "backend_keeps I B \<longleftrightarrow>
     (\<forall>n. stable (inv_rel I) (rand_Read B n)) \<and>
     (\<forall>a. stable (inv_rel I) (x3dh_CreateNewSpk B a)) \<and>
     stable (inv_rel I) (x3dh_CreateNewOpk B) \<and>
     (\<forall>a b c d f. stable (inv_rel I) (x3dh_CreateInitialMessage B a b c d f)) \<and>
     (\<forall>a b c d f. stable (inv_rel I) (x3dh_ReceiveInitialMessage B a b c d f)) \<and>
     (\<forall>a b c. stable (inv_rel I) (dr_CreateActive B a b c)) \<and>
     (\<forall>a b c d. stable (inv_rel I) (dr_CreatePassive B a b c d)) \<and>
     (\<forall>a. stable (inv_rel I) (dr_UnmarshalBinary B a)) \<and>
     (\<forall>a. stable (inv_rel I) (dr_MarshalBinary B a)) \<and>
     (\<forall>a. stable (inv_rel (I \<circ> snd)) (dr_Encrypt B a)) \<and>
     (\<forall>a. stable (inv_rel (I \<circ> snd)) (dr_Decrypt B a)) \<and>
     (\<forall>a. stable (inv_rel I) (ls_CreateNewSpk B a)) \<and>
     (\<forall>a b c d f. stable (inv_rel I) (ls_CreateInitialMessage B a b c d f)) \<and>
     (\<forall>a b c d f g. stable (inv_rel I) (ls_ReceiveInitialMessage B a b c d f g)) \<and>
     (\<forall>a b c. stable (inv_rel I) (ls_NewActiveSession B a b c)) \<and>
     (\<forall>a b c. stable (inv_rel I) (ls_NewPassiveSession B a b c)) \<and>
     (\<forall>a. stable (inv_rel I) (ls_ParsePreKeyMessage B a)) \<and>
     (\<forall>a. stable (inv_rel I) (ls_UnmarshalBinary B a)) \<and>
     (\<forall>a. stable (inv_rel I) (ls_MarshalBinary B a)) \<and>
     (\<forall>a b c d f. stable (inv_rel (I \<circ> snd)) (ls_EncryptPreKeyWhisperMessage B a b c d f)) \<and>
     (\<forall>a. stable (inv_rel (I \<circ> snd)) (ls_EncryptWhisperMessage B a)) \<and>
     (\<forall>a. stable (inv_rel (I \<circ> snd)) (ls_DecryptWhisperMessage B a)) \<and>
     (\<forall>a. stable (inv_rel I) (xo_EncryptPayload B a)) \<and>
     (\<forall>a. stable (inv_rel I) (xo_EncryptPayloadV1 B a)) \<and>
     (\<forall>a b. stable (inv_rel I) (xo_DecryptPayload B a b)) \<and>
     (\<forall>a b c. stable (inv_rel I) (xo_DecryptPayloadV1 B a b c))"

lemma backend_keeps_True: "backend_keeps (\<lambda>_. True) B"
  by (simp add: backend_keeps_def stable_def inv_rel_def)

lemma env_keptI:
  assumes "backend_keeps I B" and "\<And>j. stable (inv_rel I) (FetchDeviceList (m_transport M) j)"
    and "\<And>d. stable (inv_rel I) (FetchBundle (m_transport M) d)"
    and "\<And>r d k. m_trustResolver M = Some r \<Longrightarrow> stable (inv_rel I) (r d k)"
  shows "env_kept I B M"
  using assms unfolding env_kept_def backend_keeps_def by auto

lemma backend_keepsD:
  assumes "backend_keeps I B"
  shows "stable (inv_rel I) (GenerateIdentityKey B p)"
    and "stable (inv_rel I) (IdentityPublicKey B p k)"
    and "stable (inv_rel I) (GenerateSignedPreKey B p k)"
    and "stable (inv_rel I) (GenerateOneTimePreKey B)"
    and "stable (inv_rel I) (LoadSession B p data)"
    and "stable (inv_rel I) (NewPassiveSession B k a b c d f)"
    and "stable (inv_rel I) (PeekLegacyPreKeyIDs B data)"
    and "stable (inv_rel I) (NewPassiveSessionFromPreKeyBlob B k a b c data)"
    and "stable (inv_rel I) (Marshal B sess)"
    and "stable (inv_rel I) (DecryptPayload B p k iv ct)"
  using assms
  unfolding backend_keeps_def GenerateIdentityKey_def IdentityPublicKey_def GenerateSignedPreKey_def
    GenerateOneTimePreKey_def LoadSession_def NewPassiveSession_def PeekLegacyPreKeyIDs_def
    NewPassiveSessionFromPreKeyBlob_def Marshal_def DecryptPayload_def
  by (auto intro!: stable_intros split: option.split)

lemma backend_keeps_Decrypt: "backend_keeps I B \<Longrightarrow> I e \<Longrightarrow> I (snd (snd (Decrypt B c (s, e))))"
proof -
  assume "backend_keeps I B" "I e"
  then have "I (snd (snd (dr_Decrypt B c (x, e))))" "I (snd (snd (ls_DecryptWhisperMessage B c (y, e))))" for x y
    unfolding backend_keeps_def stable_def inv_rel_def by (metis comp_apply snd_conv)+
  with \<open>I e\<close> show ?thesis
    by (simp add: Decrypt_def on_dr_def on_ls_def case_prod_beta split: option.split)
qed

lemma DecryptMessage_env:
  assumes "backend_keeps I B"
  shows "stable (inv_rel (on_env I)) (DecryptMessage B M msg)"
  unfolding DecryptMessage_def getOrCreateSessionForIncoming_def signedPreKeyByID_def putSession_def
  by (intro stable_intros frame_rel_inv env_liftE env_onSession backend_keepsD [OF assms] backend_keeps_Decrypt [OF assms]
      | assumption)+

lemma generateLoop_env: "backend_keeps I B \<Longrightarrow> stable (inv_rel (on_env I)) (generateLoop B S n recs)"
proof (induction n arbitrary: recs)
  case (Suc n)
  show ?case
    unfolding generateLoop.simps by (intro stable_intros frame_rel_inv env_liftE backend_keepsD Suc)
qed (simp, intro stable_intros frame_rel_inv)

lemma InitIdentity_env:
  assumes "backend_keeps I B"
  shows "stable (inv_rel (on_env I)) (InitIdentity B S jid d p)"
  unfolding InitIdentity_def generateOneTimePreKeys_def
  by (intro stable_intros frame_rel_inv env_liftE backend_keepsD generateLoop_env assms)

lemma Bundle_env:
  assumes "backend_keeps I B"
  shows "stable (inv_rel (on_env I)) (Manager_Bundle B M)"
  unfolding Manager_Bundle_def by (intro stable_intros frame_rel_inv env_liftE backend_keepsD assms)

end
