(* ===== verification/Manager_Delivery.thy ===== *)
theory Manager_Delivery
  imports Manager_Encrypt Manager_Environment
begin

text \<open>
  What happens to one device of a message: if a condition on the store that the other devices'
  turns keep decides the outcome of the device's own turn, it decides whether the device has a key
  in the message or an entry among the failures. Three such conditions are a ready device whose
  session the backend can use, a device whose identity key is blocked, and one whose identity key is
  undecided and declined.
\<close>

section \<open>One device in the loop\<close>

context omemo_store
begin

lemma encryptLoop_outcome:
  assumes M: "m_store M = S" and dev: "dev \<noteq> m_localDevice M" and env: "env_kept I B M"
    and T: "\<And>d. stable (store_rel invar alpha T) (encryptForDevice B M d km)"
    and keep: "\<And>d a b. d \<noteq> dev \<Longrightarrow> P a \<Longrightarrow> enc_ok d a b \<Longrightarrow> T a b \<Longrightarrow> P b"
    and turn: "\<And>w. invar (w_store w) \<Longrightarrow> I (w_env w) \<Longrightarrow> P (alpha (w_store w)) \<Longrightarrow>
       wp (encryptForDevice B M dev km) (\<lambda>key _. K key) (\<lambda>e _. is_fatal e \<or> R e) w"
  shows "invar (w_store w) \<Longrightarrow> I (w_env w) \<Longrightarrow> P (alpha (w_store w)) \<Longrightarrow> dev \<in> set devs \<Longrightarrow>
     wp (encryptLoop B M km devs keys errs)
       (\<lambda>(keys', errs') _. (\<exists>key \<in> set keys'. K key) \<or> (\<exists>err \<in> set errs'. de_Device err = dev \<and> R (de_Err err)))
       (\<lambda>_ _. True) w"
proof (induction devs arbitrary: keys errs w)
  case (Cons d devs)
  have rest: "wp (encryptLoop B M km devs ks es)
       (\<lambda>(keys', errs') _. (\<exists>key \<in> set keys'. K key) \<or> (\<exists>err \<in> set errs'. de_Device err = dev \<and> R (de_Err err)))
       (\<lambda>_ _. True) w1"
    if "invar (w_store w1)" and "(\<exists>key \<in> set ks. K key) \<or> (\<exists>err \<in> set es. de_Device err = dev \<and> R (de_Err err))"
    for ks es w1
    using that(2) by (intro wp_mono [OF encryptLoop_wp [OF M that(1)]]) auto
  show ?case
  proof (cases "d = dev")
    case True
    have "wp (encryptForDevice B M d km) (\<lambda>key w'. invar (w_store w') \<and> K key)
        (\<lambda>e w'. invar (w_store w') \<and> (is_fatal e \<or> R e)) w"
      unfolding True
      by (rule wp_mono [OF wp_conj [OF encryptForDevice_wp [OF M Cons.prems(1)] turn [OF Cons.prems(1-3)]]]) auto
    with True dev show ?thesis
      by (auto simp: wp_simps elim!: wp_mono intro!: rest)
  next
    case False
    with Cons.prems have mem: "dev \<in> set devs" by simp
    have "wp (encryptForDevice B M d km) (\<lambda>_ w'. invar (w_store w') \<and> I (w_env w') \<and> P (alpha (w_store w')))
        (\<lambda>_ w'. invar (w_store w') \<and> I (w_env w') \<and> P (alpha (w_store w'))) w"
      using False Cons.prems(1,3)
      by (intro wp_mono [OF wp_conj [OF encryptForDevice_wp [OF M Cons.prems(1)]
          wp_conj [OF T [unfolded stable_wp, rule_format, of d w] env_wp [OF encryptForDevice_env [OF env] Cons.prems(2)]]]])
        (auto simp: store_rel_def intro: keep)
    then show ?thesis
      using Cons.prems mem by (auto simp: wp_simps elim!: wp_mono intro!: Cons.IH)
  qed
qed simp

end

section \<open>Conditions that decide the outcome\<close>

text \<open>A stored session \<open>data\<close> with which the backend can encrypt, whatever the environment.\<close>

definition marshals :: "('e, 'dr, 'ls, 'x) backend \<Rightarrow> ('dr, 'ls) signal_Session \<Rightarrow> bool" where
  "marshals B s \<longleftrightarrow> (\<forall>e. \<exists>x e'. Marshal B s e = (Inr x, e'))"

definition encrypts :: "('e, 'dr, 'ls, 'x) backend \<Rightarrow> ('dr, 'ls) signal_Session \<Rightarrow> bool" where
  "encrypts B s \<longleftrightarrow> (\<forall>km e. \<exists>c s' e'. Encrypt B km (s, e) = (Inr c, (s', e')) \<and> marshals B s')"

definition usable :: "('e, 'dr, 'ls, 'x) backend \<Rightarrow> Protocol \<Rightarrow> slice \<Rightarrow> bool" where
  "usable B p data \<longleftrightarrow> (\<forall>e. \<exists>s e'. LoadSession B p data e = (Inr s, e') \<and> encrypts B s)"

definition ready_with :: "Device \<Rightarrow> slice \<Rightarrow> slice \<Rightarrow> astore \<Rightarrow> bool" where
  "ready_with dev data k a \<longleftrightarrow> ready dev k a \<and> a_sessions a dev = Some data"

definition blocked_with :: "Device \<Rightarrow> slice \<Rightarrow> slice \<Rightarrow> astore \<Rightarrow> bool" where
  "blocked_with dev data k a \<longleftrightarrow> a_sessions a dev = Some data \<and> a_remoteID a dev = Some k \<and>
     a_trust a (slice_string k) = TrustUntrusted"

text \<open>
  No decision on the identity key \<open>x\<close> is to be had: there is no callback, or it returns the error \<open>err\<close>
  for this key, whichever device it is asked about.
\<close>

definition declines :: "('s, 'e) Manager \<Rightarrow> byte list \<Rightarrow> goerror \<Rightarrow> bool" where
  "declines M x err \<longleftrightarrow> (case m_trustResolver M of
     None \<Rightarrow> err = ErrUntrustedDevice
   | Some r \<Rightarrow> \<forall>d k e. slice_string k = x \<longrightarrow> (\<exists>e'. r d k e = (Inl err, e')))"

lemma declinesD:
  "declines M x err \<Longrightarrow> m_trustResolver M = Some r \<Longrightarrow> slice_string k = x \<Longrightarrow> \<exists>e'. r d k e = (Inl err, e')"
  by (simp add: declines_def)

definition undecided_with :: "Device \<Rightarrow> slice \<Rightarrow> slice \<Rightarrow> astore \<Rightarrow> bool" where
  "undecided_with dev data k a \<longleftrightarrow> a_sessions a dev = Some data \<and> a_remoteID a dev = Some k \<and>
     a_trust a (slice_string k) = TrustUndecided"

abbreviation trust_of :: "byte list \<Rightarrow> astore \<Rightarrow> TrustState" where
  "trust_of x \<equiv> (\<lambda>a. a_trust a x)"

lemma ready_with_kept: "d \<noteq> dev \<Longrightarrow> ready_with dev data k a \<Longrightarrow> enc_ok d a b \<Longrightarrow> ready_with dev data k b"
  by (auto simp: ready_with_def enc_ok_def ready_kept_def enc_frame_def)

text \<open>
  \<open>M\<close> takes the identity key \<open>k\<close> of \<open>dev\<close>: it is trusted, or undecided and the callback accepts
  every key of the device.
\<close>

definition takes :: "('s, 'e) Manager \<Rightarrow> Device \<Rightarrow> slice \<Rightarrow> astore \<Rightarrow> bool" where
  "takes M dev k a \<longleftrightarrow> a_trust a (slice_string k) = TrustTrusted \<or>
     a_trust a (slice_string k) \<noteq> TrustUntrusted \<and>
     (\<exists>r. m_trustResolver M = Some r \<and> (\<forall>e. \<exists>e'. r dev k e = (Inr (), e')))"

definition takes_with :: "('s, 'e) Manager \<Rightarrow> Device \<Rightarrow> slice \<Rightarrow> slice \<Rightarrow> astore \<Rightarrow> bool" where
  "takes_with M dev data k a \<longleftrightarrow> a_sessions a dev = Some data \<and> a_remoteID a dev = Some k \<and> takes M dev k a"

lemma ready_takes: "ready_with dev data k a \<Longrightarrow> takes_with M dev data k a"
  by (simp add: ready_with_def ready_def takes_with_def takes_def)

lemma enc_frame_takes: "enc_frame D a b \<Longrightarrow> takes M dev k a \<Longrightarrow> takes M dev k b"
  unfolding enc_frame_def takes_def by metis

lemma takes_with_kept: "d \<noteq> dev \<Longrightarrow> takes_with M dev data k a \<Longrightarrow> enc_ok d a b \<Longrightarrow> takes_with M dev data k b"
  by (auto simp: takes_with_def enc_ok_def intro: enc_frame_takes) (auto simp: enc_frame_def)

lemma enc_frame_blocked: "enc_frame D a b \<Longrightarrow> a_trust a x = TrustUntrusted \<Longrightarrow> a_trust b x = TrustUntrusted"
  unfolding enc_frame_def by metis

lemma enc_frame_others:
  "enc_frame D a b \<Longrightarrow> \<not> D d \<Longrightarrow> a_sessions b d = a_sessions a d \<and> a_remoteID b d = a_remoteID a d"
  by (simp add: enc_frame_def)

lemma blocked_with_kept: "d \<noteq> dev \<Longrightarrow> blocked_with dev data k a \<Longrightarrow> enc_ok d a b \<Longrightarrow> blocked_with dev data k b"
  using enc_frame_blocked [of "\<lambda>x. x = d" a b "slice_string k"] enc_frame_others [of "\<lambda>x. x = d" a b dev]
  by (simp add: blocked_with_def enc_ok_def)

lemma undecided_with_kept:
  "d \<noteq> dev \<Longrightarrow> undecided_with dev data k a \<Longrightarrow> enc_ok d a b \<Longrightarrow> same (trust_of (slice_string k)) a b \<Longrightarrow>
     undecided_with dev data k b"
  using enc_frame_others [of "\<lambda>x. x = d" a b dev] by (simp add: undecided_with_def enc_ok_def same_def)

lemma lists_frame_rest: "lists_frame J a b \<Longrightarrow> a_sessions b = a_sessions a \<and> a_remoteID b = a_remoteID a \<and> a_trust b = a_trust a"
  by (cases a; cases b) (auto simp: lists_frame_def)

lemma conditions_lists:
  "lists_frame J a b \<Longrightarrow> ready_with dev data k a \<Longrightarrow> ready_with dev data k b"
  "lists_frame J a b \<Longrightarrow> blocked_with dev data k a \<Longrightarrow> blocked_with dev data k b"
  "lists_frame J a b \<Longrightarrow> takes_with M dev data k a \<Longrightarrow> takes_with M dev data k b"
  "lists_frame J a b \<Longrightarrow> undecided_with dev data k a \<Longrightarrow> undecided_with dev data k b"
  by (auto simp: ready_with_def blocked_with_def undecided_with_def ready_def takes_with_def takes_def dest: lists_frame_rest)

text \<open>A device of either account in a stored list is addressed.\<close>

definition listed :: "('s, 'e) Manager \<Rightarrow> string \<Rightarrow> Device \<Rightarrow> astore \<Rightarrow> bool" where
  "listed M jid dev a \<longleftrightarrow> dev_JID dev \<in> {jid, dev_JID (m_localDevice M)} \<and>
     dev_ID dev \<in> set (a_devices a (dev_JID dev)) \<and> dev \<noteq> m_localDevice M"

lemma listed_all_devices:
  assumes "listed M jid dev a" and "lists_frame {jid, dev_JID (m_localDevice M)} a b"
  shows "dev \<in> set (all_devices M jid b)"
proof -
  from assms(1) have "a_devices a (dev_JID dev) \<noteq> []" by (auto simp: listed_def)
  with assms(2) have "a_devices b (dev_JID dev) = a_devices a (dev_JID dev)" by (simp add: lists_frame_def)
  with assms(1) show ?thesis
    by (cases dev) (auto simp: listed_def all_devices_def devs_of_def)
qed

section \<open>A key that is declined stays undecided\<close>

context omemo_store
begin

lemma stable_wider: "stable R m \<Longrightarrow> (\<And>w w'. R w w' \<Longrightarrow> R' w w') \<Longrightarrow> stable R' m"
  by (simp add: stable_def)

lemma trust_of_calls:
  "stable (store_rel invar alpha (same a_trust)) m \<Longrightarrow> stable (store_rel invar alpha (same (trust_of x))) m"
  by (erule stable_wider) (auto simp: store_rel_def same_def)

lemma checkTrust_declined:
  assumes M: "m_store M = S" and d: "declines M x err"
  shows "stable (store_rel invar alpha (same (trust_of x))) (checkTrust M dev k)"
proof (cases "slice_string k = x")
  case True
  have ask: "stable (store_rel invar alpha (same (trust_of x))) (andThen (liftE (r dev k)) f)"
    if "m_trustResolver M = Some r" for r and f :: "unit \<Rightarrow> (('a, 'b) world, unit) act"
    unfolding stable_def
  proof
    fix w :: "('a, 'b) world"
    from declinesD [OF d that True] obtain e' where "r dev k (w_env w) = (Inl err, e')" ..
    then show "store_rel invar alpha (same (trust_of x)) w (snd (andThen (liftE (r dev k)) f w))"
      by (simp add: andThen_run liftE_def zoom_def store_rel_def same_def)
  qed
  show ?thesis
    unfolding checkTrust_def M
    by (intro stable_intros frame_rel_store_rel frame_rel_same trust_of_calls [OF trust_kept_calls(3)] ask)
next
  case False
  then have "stable (store_rel invar alpha (same (trust_of x))) (liftS (SetTrust S k TrustTrusted))"
    by (auto intro!: SetTrust_spec [THEN stable_store] simp: same_def)
  then show ?thesis
    unfolding checkTrust_def M
    by (intro stable_intros frame_rel_store_rel frame_rel_same trust_of_calls [OF trust_kept_calls(3)])
qed

lemma encryptForDevice_declined_kept:
  assumes M: "m_store M = S" and d: "declines M x err"
  shows "stable (store_rel invar alpha (same (trust_of x))) (encryptForDevice B M dev km)"
  unfolding encryptForDevice_def getOrCreateActiveSession_def putSession_def M
  by (intro stable_intros frame_rel_store_rel frame_rel_same trust_kept_calls [THEN trust_of_calls]
      checkTrust_declined [OF M d])

lemma encryptLoop_declined_kept:
  assumes M: "m_store M = S" and d: "declines M x err"
  shows "stable (store_rel invar alpha (same (trust_of x))) (encryptLoop B M km devs keys errs)"
proof (induction devs arbitrary: keys errs)
  case Nil
  show ?case unfolding encryptLoop.simps by (intro stable_intros frame_rel_store_rel frame_rel_same)
next
  case (Cons dev devs)
  show ?case
    unfolding encryptLoop.simps
    by (intro stable_intros frame_rel_store_rel frame_rel_same Cons.IH encryptForDevice_declined_kept [OF M d])
qed

lemma encrypt_declined_kept:
  assumes M: "m_store M = S" and d: "declines M x err"
  shows "stable (store_rel invar alpha (same (trust_of x))) (encrypt B M jid pt)"
  unfolding encrypt_def recipientDevices_def devicesFor_def SyncDevices_def M
  by (intro stable_intros frame_rel_store_rel frame_rel_same trust_kept_calls [THEN trust_of_calls]
      encryptLoop_declined_kept [OF M d])

end

context reliable_store
begin

lemma checkTrust_takes:
  assumes M: "m_store M = S" and i: "invar (w_store v)" and t: "takes M dev k (alpha (w_store v))"
    and ok: "\<And>v'. invar (w_store v') \<Longrightarrow> Q () v'"
  shows "wp (checkTrust M dev k) Q E v"
proof -
  have ask: "wp (liftE (r dev k)) (\<lambda>_. wp (liftS (SetTrust S k TrustTrusted)) Q E) E (v\<lparr>w_store := s\<rparr>)"
    if total: "\<forall>e. \<exists>e'. r dev k e = (Inr (), e')" and s: "invar s" for r s
  proof -
    have "wp (liftS (SetTrust S k TrustTrusted)) Q E (v\<lparr>w_store := s, w_env := e\<rparr>)" for e
      by (rule wp_store_total [OF SetTrust_spec SetTrust_total]) (use s in \<open>auto intro: ok\<close>)
    moreover obtain e where "r dev k (w_env v) = (Inr (), e)" using total by blast
    ultimately show ?thesis by (simp add: wp_def liftE_def zoom_def)
  qed
  show ?thesis
    using i t ask unfolding checkTrust_def takes_def
    by (auto simp: wp_simps M ok intro!: wp_store_total [OF Trust_spec Trust_total])
qed

text \<open>The rest of a turn, once there is a session that encrypts and an identity key that is taken.\<close>

lemma turn_rest:
  assumes M: "m_store M = S" and i: "invar (w_store v)" and s: "encrypts B sess"
    and k: "a_remoteID (alpha (w_store v)) dev = Some k" and t: "takes M dev k (alpha (w_store v))"
  shows "wp (andThen (wrapErr ''load identity key'' (liftS (RemoteIdentityKey (m_store M) dev))) (\<lambda>found.
     case found of
       None \<Rightarrow> throw (Errorf ''no known identity key for device'')
     | Some idKey \<Rightarrow>
         andThen (checkTrust M dev idKey) (\<lambda>_.
         andThen (wrapErr ''ratchet encrypt'' (onSession (Encrypt B km) sess)) (\<lambda>(data, sess').
         andThen (putSession B M dev sess') (\<lambda>_.
         ret \<lparr>rk_Device = dev_ID dev, rk_Data = data, rk_KeyExchange = kx\<rparr>)))))
     (\<lambda>key _. rk_Device key = dev_ID dev \<and> rk_KeyExchange key = kx) (\<lambda>_ _. False) v"
proof -
  have enc: "wp (onSession (Encrypt B km) sess) Q E w"
    if "\<And>c s' e. marshals B s' \<Longrightarrow> Q (c, s') (w\<lparr>w_env := e\<rparr>)" for Q E and w :: "('a, 'b) world"
  proof -
    from s obtain c s' e' where "Encrypt B km (sess, w_env w) = (Inr c, (s', e'))" "marshals B s'"
      unfolding encrypts_def by blast
    with that show ?thesis by (simp add: wp_def onSession_def)
  qed
  have mar: "wp (liftE (Marshal B s)) Q E w"
    if "marshals B s" and "\<And>x e. Q x (w\<lparr>w_env := e\<rparr>)" for Q E s and w :: "('a, 'b) world"
    using that unfolding wp_liftE by (intro wp_total) (auto simp: marshals_def)
  show ?thesis
    using k t unfolding putSession_def
    by (auto simp: wp_simps M i intro!: wp_store_total [OF RemoteIdentityKey_spec RemoteIdentityKey_total]
        checkTrust_takes enc mar wp_store_total [OF PutSession_spec PutSession_total])
qed

lemma encryptForDevice_turn_wp:
  assumes M: "m_store M = S"
    and opn: "wp (getOrCreateActiveSession B M dev) (\<lambda>(sess, kx) v. invar (w_store v) \<and> encrypts B sess \<and> K kx \<and>
       (\<exists>k. a_remoteID (alpha (w_store v)) dev = Some k \<and> takes M dev k (alpha (w_store v)))) (\<lambda>_ _. False) (locked dev w)"
  shows "wp (encryptForDevice B M dev km) (\<lambda>key _. rk_Device key = dev_ID dev \<and> K (rk_KeyExchange key)) (\<lambda>e _. is_fatal e) w"
proof (cases "fst (deviceLock dev w) \<in> w_held w")
  case True
  then show ?thesis by (simp add: encryptForDevice_def wp_withDeviceLock deadlock_def)
next
  case False
  show ?thesis
    unfolding encryptForDevice_def wp_withDeviceLock if_not_P [OF False] wp_andThen [of "wrapErr ''establish session'' _"] wp_wrapErr
  proof (rule wp_mono [OF opn], goal_cases)
    case (1 p v)
    obtain sess kx where p: "p = (sess, kx)" by (cases p)
    with 1 obtain k where "invar (w_store v)" "encrypts B sess" "K kx" "a_remoteID (alpha (w_store v)) dev = Some k"
      "takes M dev k (alpha (w_store v))" by auto
    then show ?case
      unfolding p prod.case
      by (intro wp_mono [OF turn_rest [OF M]]) auto
  qed simp
qed

text \<open>A usable session with an identity key that is taken: the turn ends with a key, or a panic.\<close>

lemma encryptForDevice_takes:
  assumes M: "m_store M = S" and i: "invar (w_store w)"
    and P: "takes_with M dev data k (alpha (w_store w))" and u: "usable B (m_protocol M) data"
  shows "wp (encryptForDevice B M dev km)
     (\<lambda>key _. rk_Device key = dev_ID dev \<and> rk_KeyExchange key = None) (\<lambda>e _. is_fatal e) w"
proof (rule encryptForDevice_turn_wp [OF M])
  have load: "wp (liftE (LoadSession B (m_protocol M) data)) Q E v"
    if "\<And>s e. encrypts B s \<Longrightarrow> Q s (v\<lparr>w_env := e\<rparr>)" for Q E and v :: "('a, 'b) world"
    using u that unfolding wp_liftE by (intro wp_total) (auto simp: usable_def, blast)
  show "wp (getOrCreateActiveSession B M dev) (\<lambda>(sess, kx) v. invar (w_store v) \<and> encrypts B sess \<and> kx = None \<and>
       (\<exists>k. a_remoteID (alpha (w_store v)) dev = Some k \<and> takes M dev k (alpha (w_store v)))) (\<lambda>_ _. False) (locked dev w)"
    using P unfolding getOrCreateActiveSession_def takes_with_def
    by (auto simp: wp_simps M i intro!: wp_store_total [OF Session_spec Session_total] load)
qed

lemmas encryptForDevice_ready = encryptForDevice_takes [OF _ _ ready_takes]

text \<open>A blocked identity key: the turn ends with \<open>ErrBlockedDevice\<close>, the callback is not asked.\<close>

lemma encryptForDevice_blocked:
  assumes M: "m_store M = S" and i: "invar (w_store w)"
    and P: "blocked_with dev data k (alpha (w_store w))"
    and u: "\<forall>e. \<exists>s e'. LoadSession B (m_protocol M) data e = (Inr s, e')"
  shows "wp (encryptForDevice B M dev km) (\<lambda>_ _. False) (\<lambda>e _. is_fatal e \<or> e = ErrBlockedDevice) w"
proof -
  have load: "wp (liftE (LoadSession B (m_protocol M) data)) Q E v"
    if "\<And>s e. Q s (v\<lparr>w_env := e\<rparr>)" for Q E and v :: "('a, 'b) world"
    using u that unfolding wp_liftE by (intro wp_total) blast
  have ne: "TrustUntrusted \<noteq> TrustTrusted" by simp
  show ?thesis
    using P unfolding encryptForDevice_def getOrCreateActiveSession_def checkTrust_def blocked_with_def
    by (auto simp: wp_simps M i deadlock_def ne
        intro!: wp_store_total [OF Session_spec Session_total] load
          wp_store_total [OF RemoteIdentityKey_spec RemoteIdentityKey_total]
          wp_store_total [OF Trust_spec Trust_total])
qed

text \<open>An undecided identity key that is declined: the turn ends with that error.\<close>

lemma encryptForDevice_declined:
  assumes M: "m_store M = S" and i: "invar (w_store w)" and d: "declines M (slice_string k) err"
    and P: "undecided_with dev data k (alpha (w_store w))"
    and u: "\<forall>e. \<exists>s e'. LoadSession B (m_protocol M) data e = (Inr s, e')"
  shows "wp (encryptForDevice B M dev km) (\<lambda>_ _. False) (\<lambda>e _. is_fatal e \<or> e = err) w"
proof -
  have load: "wp (liftE (LoadSession B (m_protocol M) data)) Q E v"
    if "\<And>s e. Q s (v\<lparr>w_env := e\<rparr>)" for Q E and v :: "('a, 'b) world"
    using u that unfolding wp_liftE by (intro wp_total) blast
  have ask: "wp (liftE (r dev k)) Q E v" if "m_trustResolver M = Some r" and "\<And>e. E err (v\<lparr>w_env := e\<rparr>)"
    for r Q E and v :: "('a, 'b) world"
  proof -
    from declinesD [OF d that(1) refl] obtain e' where "r dev k (w_env v) = (Inl err, e')" ..
    with that(2) show ?thesis by (simp add: wp_def liftE_def zoom_def)
  qed
  have none: "err = ErrUntrustedDevice" if "m_trustResolver M = None" using d that by (simp add: declines_def)
  show ?thesis
    using P unfolding encryptForDevice_def getOrCreateActiveSession_def checkTrust_def undecided_with_def
    by (auto simp: wp_simps M i deadlock_def none split: option.split
        intro!: wp_store_total [OF Session_spec Session_total] load ask
          wp_store_total [OF RemoteIdentityKey_spec RemoteIdentityKey_total]
          wp_store_total [OF Trust_spec Trust_total])
qed

text \<open>The recipient's list is known: the list of devices cannot fail to be had.\<close>

lemma recipientDevices_known:
  assumes M: "m_store M = S" and i: "invar (w_store w)" and J: "a_devices (alpha (w_store w)) jid \<noteq> []"
  shows "wp (recipientDevices M jid) (\<lambda>_ _. True) (\<lambda>e _. is_fatal e) w"
  unfolding recipientDevices_def Let_def
  using J by (auto simp: wp_simps wp_ret_fun wp_True intro!: devicesFor_total_wp [OF M i, where J = UNIV])

lemma encrypt_outcome_rel:
  assumes M: "m_store M = S" and i: "invar (w_store w)" and nl: "dev \<noteq> m_localDevice M"
    and env: "env_kept I B M" and I: "I (w_env w)"
    and rcpt: "wp (recipientDevices M jid) (\<lambda>devs _. dev \<in> set devs) (\<lambda>e _. is_fatal e) w" and P: "P (alpha (w_store w))"
    and T: "\<And>d km. stable (store_rel invar alpha T) (encryptForDevice B M d km)"
    and lists: "\<And>J a b. lists_frame J a b \<Longrightarrow> P a \<Longrightarrow> P b"
    and keep: "\<And>d a b. d \<noteq> dev \<Longrightarrow> P a \<Longrightarrow> enc_ok d a b \<Longrightarrow> T a b \<Longrightarrow> P b"
    and turn: "\<And>km w. invar (w_store w) \<Longrightarrow> I (w_env w) \<Longrightarrow> P (alpha (w_store w)) \<Longrightarrow>
       wp (encryptForDevice B M dev km) (\<lambda>key _. K key) (\<lambda>e _. is_fatal e \<or> R e) w"
    and payload: "\<forall>e. \<exists>x e'. EncryptPayload B (m_protocol M) pt e = (Inr x, e')"
  shows "wp (encrypt B M jid pt)
     (\<lambda>(m, errs, err) _. (\<exists>msg. m = Some msg \<and> (\<exists>key \<in> set (em_Keys msg). K key)) \<or>
        (\<exists>err \<in> set errs. de_Device err = dev \<and> R (de_Err err))) (\<lambda>_ _. True) w"
proof -
  let ?ok = "\<lambda>keys errs. (\<exists>key \<in> set keys. K key) \<or> (\<exists>err \<in> set errs. de_Device err = dev \<and> R (de_Err err))"
  have loop: "wp (encryptLoop B M km devs [] []) (\<lambda>(keys, errs) _. ?ok keys errs) (\<lambda>_ _. True) w1"
    if "invar (w_store w1)" "I (w_env w1)" "P (alpha (w_store w1))" "dev \<in> set devs" for km devs w1
    by (rule encryptLoop_outcome [where I = I and P = P and K = K and R = R and T = T, OF M nl env T keep turn that])
  have keeps: "I e \<Longrightarrow> EncryptPayload B (m_protocol M) pt e = (r, e') \<Longrightarrow> I e'" for e r e'
    using stable_runD [OF env_keptD(8) [OF env]] by (simp add: inv_rel_def)
  have pay: "wp (liftE (EncryptPayload B (m_protocol M) pt)) Q E v"
    if "I (w_env v)" and "\<And>x e. I e \<Longrightarrow> Q x (v\<lparr>w_env := e\<rparr>)" for Q E and v :: "('a, 'b) world"
    using payload that keeps unfolding wp_liftE by (intro wp_total) blast
  show ?thesis
    unfolding encrypt_def wp_tryCatch Let_def
  proof (rule wp_mono [OF wp_conj [OF recipientDevices_total_wp [OF M i]
      wp_conj [OF env_wp [OF recipientDevices_env [OF env] I] rcpt]]], goal_cases)
    case (1 devs w1)
    then have "invar (w_store w1)" "I (w_env w1)" "P (alpha (w_store w1))" "dev \<in> set devs"
      using P by (auto intro: lists)
    then show ?case
      by (intro pay) (auto simp: wp_simps split: prod.split intro!: loop [THEN wp_mono])
  qed simp
qed

lemma encryptForDevice_any: "m_store M = S \<Longrightarrow> stable (store_rel invar alpha (\<lambda>_ _. True)) (encryptForDevice B M d km)"
proof -
  assume M: "m_store M = S"
  have "wp (encryptForDevice B M d km) (\<lambda>_ w'. invar (w_store w')) (\<lambda>_ w'. invar (w_store w')) w" if "invar (w_store w)" for w
    by (rule wp_mono [OF encryptForDevice_wp [OF M that]]) auto
  then show ?thesis by (simp add: stable_def store_rel_def wp_snd)
qed

lemmas encrypt_outcome_gen = encrypt_outcome_rel [where T = "\<lambda>_ _. True", OF _ _ _ _ _ _ _ encryptForDevice_any]

lemma recipientDevices_listed:
  assumes M: "m_store M = S" and i: "invar (w_store w)" and J: "a_devices (alpha (w_store w)) jid \<noteq> []"
    and dev: "listed M jid dev (alpha (w_store w))"
  shows "wp (recipientDevices M jid) (\<lambda>devs _. dev \<in> set devs) (\<lambda>e _. is_fatal e) w"
  by (rule wp_mono [OF wp_conj [OF recipientDevices_total_wp [OF M i] recipientDevices_known [OF M i J]]])
    (use listed_all_devices [OF dev] in auto)

lemma encrypt_outcome:
  assumes M: "m_store M = S" and i: "invar (w_store w)" and J: "a_devices (alpha (w_store w)) jid \<noteq> []"
    and dev: "listed M jid dev (alpha (w_store w))" and P: "P (alpha (w_store w))"
    and lists: "\<And>J a b. lists_frame J a b \<Longrightarrow> P a \<Longrightarrow> P b"
    and keep: "\<And>d a b. d \<noteq> dev \<Longrightarrow> P a \<Longrightarrow> enc_ok d a b \<Longrightarrow> P b"
    and turn: "\<And>km w. invar (w_store w) \<Longrightarrow> P (alpha (w_store w)) \<Longrightarrow>
       wp (encryptForDevice B M dev km) (\<lambda>key _. K key) (\<lambda>e _. is_fatal e \<or> R e) w"
    and payload: "\<forall>e. \<exists>x e'. EncryptPayload B (m_protocol M) pt e = (Inr x, e')"
  shows "wp (encrypt B M jid pt)
     (\<lambda>(m, errs, err) _. (\<exists>msg. m = Some msg \<and> (\<exists>key \<in> set (em_Keys msg). K key)) \<or>
        (\<exists>err \<in> set errs. de_Device err = dev \<and> R (de_Err err))) (\<lambda>_ _. True) w"
proof (rule encrypt_outcome_gen [where P = P and K = K and R = R, OF M i _ env_kept_True TrueI
      recipientDevices_listed [OF M i J dev] P M lists keep turn payload])
  show "dev \<noteq> m_localDevice M" using dev by (simp add: listed_def)
qed

end

end
