(* ===== verification/Omemo_Fake.thy ===== *)
theory Omemo_Fake
  imports Omemo_Memstore Omemo_Manager
begin

text \<open>
  Concrete instances to run the model on. \<open>fakeNetwork\<close> and \<open>fakeTransport\<close> are the in-memory
  network of \<open>manager_test.go\<close>, which every manager of a test shares. \<open>stub\<close> is a
  backend without cryptography, in which a public key is its private key and a ratchet prefixes
  its session key: it only shows that the assumptions made about a backend can hold together, and
  lets concrete runs be evaluated.
\<close>

section \<open>The shared network\<close>

record fakeNetwork =
  fn_devices :: "string \<rightharpoonup> DeviceList"
  fn_bundles :: "Device \<rightharpoonup> Bundle"

definition newFakeNetwork :: fakeNetwork where
  "newFakeNetwork = \<lparr>fn_devices = Map.empty, fn_bundles = Map.empty\<rparr>"

definition fake_FetchDeviceList :: "string \<Rightarrow> ('a fakeNetwork_scheme, DeviceList) act" where
  "fake_FetchDeviceList jid net =
     (case fn_devices net jid of
        None \<Rightarrow> (Inl (Errorf (''no device list published for '' @ jid)), net)
      | Some list \<Rightarrow> (Inr list, net))"

definition fake_PublishDeviceList :: "DeviceList \<Rightarrow> ('a fakeNetwork_scheme, unit) act" where
  "fake_PublishDeviceList list net = (Inr (), net\<lparr>fn_devices := (fn_devices net)(dl_JID list \<mapsto> list)\<rparr>)"

definition fake_FetchBundle :: "Device \<Rightarrow> ('a fakeNetwork_scheme, Bundle) act" where
  "fake_FetchBundle dev net =
     (case fn_bundles net dev of
        None \<Rightarrow> (Inl (Errorf ''no bundle published for device''), net)
      | Some b \<Rightarrow> (Inr b, net))"

definition fake_PublishBundle :: "Bundle \<Rightarrow> ('a fakeNetwork_scheme, unit) act" where
  "fake_PublishBundle b net = (Inr (), net\<lparr>fn_bundles := (fn_bundles net)(b_Device b \<mapsto> b)\<rparr>)"

definition fakeTransport :: "('a fakeNetwork_scheme) Transport" where
  "fakeTransport = \<lparr>FetchDeviceList = fake_FetchDeviceList, PublishDeviceList = fake_PublishDeviceList,
     FetchBundle = fake_FetchBundle, PublishBundle = fake_PublishBundle\<rparr>"

lemmas fake_defs = fake_FetchDeviceList_def fake_PublishDeviceList_def fake_FetchBundle_def
  fake_PublishBundle_def

interpretation fakenet: pep_transport fakeTransport fn_devices fn_bundles
  by unfold_locales (auto simp: fakeTransport_def fake_defs wp_def)

section \<open>A backend without cryptography\<close>

record fakeEnv = fakeNetwork +
  fe_rand :: nat

type_synonym stub_backend = "(fakeEnv, byte list, byte list, byte list) backend"

definition stub_rand :: "nat \<Rightarrow> (fakeEnv, byte list) act" where
  "stub_rand n e = (Inr (replicate n (of_nat (fe_rand e))), e\<lparr>fe_rand := Suc (fe_rand e)\<rparr>)"

definition stub_keypair :: "(fakeEnv, slice \<times> slice) act" where
  "stub_keypair e = (Inr (Some [of_nat (fe_rand e)], Some [of_nat (fe_rand e)]), e\<lparr>fe_rand := Suc (fe_rand e)\<rparr>)"

definition stub_spk :: "slice \<Rightarrow> (fakeEnv, slice \<times> slice \<times> slice) act" where
  "stub_spk idKey = andThen stub_keypair (\<lambda>(pub, priv). ret (pub, priv, Some []))"

text \<open>Both sides concatenate the public values in the initiator's order.\<close>

definition stub_secret :: "slice \<Rightarrow> slice \<Rightarrow> slice \<Rightarrow> slice \<Rightarrow> slice \<Rightarrow> byte list" where
  "stub_secret a b spk opk ek = slice_string a @ slice_string b @ slice_string spk @ slice_string opk @ slice_string ek"

definition stub_pub2 :: "slice \<Rightarrow> slice" where
  "stub_pub2 idKey = Some (drop 32 (slice_string idKey))"

definition stub_initial :: "slice \<Rightarrow> slice \<Rightarrow> slice \<Rightarrow> slice \<Rightarrow> slice \<Rightarrow> (fakeEnv, slice \<times> slice \<times> slice) act" where
  "stub_initial idKey peer spk sig opk = andThen stub_keypair (\<lambda>(ek, _).
     ret (Some (stub_secret (stub_pub2 idKey) peer spk opk ek), Some [], ek))"

definition stub_receive :: "slice \<Rightarrow> slice \<Rightarrow> slice \<Rightarrow> slice \<Rightarrow> slice \<Rightarrow> (fakeEnv, slice \<times> slice) act" where
  "stub_receive idKey peer spk opk ek = ret (Some (stub_secret peer (stub_pub2 idKey) spk opk ek), Some [])"

definition stub_unmarshal :: "slice \<Rightarrow> (fakeEnv, byte list) act" where
  "stub_unmarshal s = (case s of None \<Rightarrow> throw (Errorf ''no data'') | Some bs \<Rightarrow> ret bs)"

definition stub_encrypt :: "slice \<Rightarrow> (byte list \<times> fakeEnv, slice) act" where
  "stub_encrypt m = (\<lambda>(k, e). (Inr (Some (k @ slice_string m)), (k, e)))"

definition stub_decrypt :: "slice \<Rightarrow> (byte list \<times> fakeEnv, slice) act" where
  "stub_decrypt c = (\<lambda>(k, e).
     (if take (length k) (slice_string c) = k then Inr (Some (drop (length k) (slice_string c)))
      else Inl (Errorf ''decryption failed''), (k, e)))"

definition stub_payload :: "slice \<Rightarrow> (fakeEnv, slice \<times> slice) act" where
  "stub_payload pt = andThen (stub_rand 4) (\<lambda>k. ret (Some k, Some (k @ slice_string pt)))"

definition stub_open :: "slice \<Rightarrow> slice \<Rightarrow> (fakeEnv, slice) act" where
  "stub_open k ct =
     (if take (slice_len k) (slice_string ct) = slice_string k
      then ret (Some (drop (slice_len k) (slice_string ct)))
      else throw (Errorf ''payload authentication failed''))"

text \<open>The legacy message: four-byte identifiers, then length-prefixed keys, then the inner message.\<close>

definition put32 :: "uint32 \<Rightarrow> byte list" where
  "put32 w = map (\<lambda>i. ucast (drop_bit (8 * i) w)) [0, 1, 2, 3]"

definition get32 :: "byte list \<Rightarrow> uint32" where
  "get32 bs = foldr (\<lambda>b w. push_bit 8 w + ucast b) bs 0"

definition stub_prekey_message :: "slice \<Rightarrow> slice \<Rightarrow> uint32 \<Rightarrow> uint32 \<Rightarrow> uint32 \<Rightarrow> (byte list \<times> fakeEnv, slice) act" where
  "stub_prekey_message km ek pkID spkID reg = (\<lambda>(k, e).
     (Inr (Some (put32 spkID @ put32 pkID @ put32 (of_nat (slice_len ek)) @ slice_string ek
             @ take 32 k @ k @ slice_string km)), (k, e)))"

definition stub_parse :: "slice \<Rightarrow> (fakeEnv, PreKeyMessage) act" where
  "stub_parse s = (let bs = slice_string s; n = unat (get32 (take 4 (drop 8 bs))); r = drop 12 bs in
     if length bs < 44 then throw (Errorf ''short message'')
     else ret \<lparr>pm_SignedPreKeyID = get32 (take 4 bs), pm_PreKeyID = get32 (take 4 (drop 4 bs)),
               pm_IdentityKey = Some (take 32 (drop n r)), pm_BaseKey = Some (take n r),
               pm_Message = Some (drop (n + 32) r)\<rparr>)"

definition stub_initial1 :: "slice \<Rightarrow> slice \<Rightarrow> slice \<Rightarrow> slice \<Rightarrow> slice \<Rightarrow> (fakeEnv, byte list \<times> slice) act" where
  "stub_initial1 idKey peer spk sig opk = andThen stub_keypair (\<lambda>(ek, _).
     ret (stub_secret idKey peer spk opk ek, ek))"

definition stub :: stub_backend where
  "stub = \<lparr>
     rand_Read = stub_rand,
     ed25519_public = (\<lambda>seed. seed),
     x25519_public = (\<lambda>k. k),
     x3dh_CreateNewSpk = stub_spk,
     x3dh_CreateNewOpk = stub_keypair,
     x3dh_CreateInitialMessage = stub_initial,
     x3dh_ReceiveInitialMessage = stub_receive,
     dr_CreateActive = (\<lambda>sk ad spk. ret (slice_string sk)),
     dr_CreatePassive = (\<lambda>sk ad pub priv. ret (slice_string sk)),
     dr_UnmarshalBinary = stub_unmarshal,
     dr_MarshalBinary = (\<lambda>k. ret (Some k)),
     dr_Encrypt = stub_encrypt,
     dr_Decrypt = stub_decrypt,
     ls_CreateNewSpk = stub_spk,
     ls_CreateInitialMessage = stub_initial1,
     ls_ReceiveInitialMessage = (\<lambda>idKey peer spkPub spkPriv opk ek. ret (stub_secret peer idKey spkPriv opk ek)),
     ls_NewActiveSession = (\<lambda>idKey peer x. ret x),
     ls_NewPassiveSession = (\<lambda>idKey peer x. ret x),
     ls_ParsePreKeyMessage = stub_parse,
     ls_UnmarshalBinary = stub_unmarshal,
     ls_MarshalBinary = (\<lambda>k. ret (Some k)),
     ls_EncryptPreKeyWhisperMessage = stub_prekey_message,
     ls_EncryptWhisperMessage = stub_encrypt,
     ls_DecryptWhisperMessage = stub_decrypt,
     xo_EncryptPayload = stub_payload,
     xo_EncryptPayloadV1 = (\<lambda>pt. andThen (stub_payload pt) (\<lambda>(k, ct). ret (k, Some [], ct))),
     xo_DecryptPayload = stub_open,
     xo_DecryptPayloadV1 = (\<lambda>k iv ct. stub_open k ct)\<rparr>"

section \<open>Two accounts\<close>

text \<open>Managers as the tests set them up: a shared network and a callback that trusts every key.\<close>

definition trust_all :: "fakeEnv TrustResolver" where
  "trust_all dev key = ret ()"

definition ex_key :: "byte \<Rightarrow> byte list" where
  "ex_key b = replicate 64 b"

definition ex_manager :: "Protocol \<Rightarrow> string \<Rightarrow> byte \<Rightarrow> (MemStore, fakeEnv) Manager" where
  "ex_manager p jid b = \<lparr>m_store = MemStore_Store, m_transport = fakeTransport, m_protocol = p,
     m_identityKey = Some (if p = ProtocolV1 then replicate 32 b else ex_key b),
     m_localDevice = \<lparr>dev_JID = jid, dev_ID = 1\<rparr>, m_trustResolver = Some trust_all\<rparr>"

text \<open>A store with a signed prekey and one one-time prekey, and the network that publishes it.\<close>

definition ex_store :: "string \<Rightarrow> byte \<Rightarrow> MemStore" where
  "ex_store jid b = (ms_New [])\<lparr>ms_identityKey := Some (ex_key b),
     ms_localDevice := \<lparr>dev_JID = jid, dev_ID = 1\<rparr>,
     ms_currentSPK := \<lparr>spr_ID = 1, spr_Public = Some [7], spr_Private = Some [7], spr_Signature = Some []\<rparr>,
     ms_preKeys := [(5, \<lparr>pkr_ID = 5, pkr_Public = Some [9], pkr_Private = Some [9]\<rparr>)],
     ms_nextPreKeyID := 5\<rparr>"

definition ex_bundle :: "string \<Rightarrow> byte \<Rightarrow> Bundle" where
  "ex_bundle jid b = \<lparr>b_Device = \<lparr>dev_JID = jid, dev_ID = 1\<rparr>, b_IdentityKey = Some (replicate 32 b),
     b_SignedPreKey = \<lparr>spk_ID = 1, spk_Public = Some [7], spk_Signature = Some []\<rparr>,
     b_PreKeys = [\<lparr>pk_ID = 5, pk_Public = Some [9]\<rparr>]\<rparr>"

definition ex_env :: fakeEnv where
  "ex_env = \<lparr>fn_devices = [''b'' \<mapsto> \<lparr>dl_JID = ''b'', dl_Devices = [1]\<rparr>,
                           ''a'' \<mapsto> \<lparr>dl_JID = ''a'', dl_Devices = [1]\<rparr>],
     fn_bundles = [\<lparr>dev_JID = ''b'', dev_ID = 1\<rparr> \<mapsto> ex_bundle ''b'' 2,
                   \<lparr>dev_JID = ''a'', dev_ID = 1\<rparr> \<mapsto> ex_bundle ''a'' 3],
     fe_rand = 20\<rparr>"

definition ex_world :: "string \<Rightarrow> byte \<Rightarrow> (MemStore, fakeEnv) world" where
  "ex_world jid b = \<lparr>w_store = ex_store jid b, w_env = ex_env, w_locks = Map.empty, w_nextLock = 0,
     w_held = {}\<rparr>"

text \<open>A first message from \<open>a\<close> to \<open>b\<close>, evaluated.\<close>

definition ex_sent :: "Protocol \<Rightarrow> (goerror + encrypt_result) \<times> (MemStore, fakeEnv) world" where
  "ex_sent p = EncryptMessage stub (ex_manager p ''a'' 3) ''b'' (Some [104, 105]) (ex_world ''a'' 3)"

definition the_msg :: "goerror + encrypt_result \<Rightarrow> EncryptedMessage option" where
  "the_msg r = (case r of Inr (Some m, [], None) \<Rightarrow> Some m | _ \<Rightarrow> None)"

definition ex_msg :: "Protocol \<Rightarrow> EncryptedMessage" where
  "ex_msg p = the (the_msg (fst (ex_sent p)))"

lemma the_msg_Some: "the_msg r = Some m \<Longrightarrow> r = Inr (Some m, [], None)"
  by (auto simp: the_msg_def split: sum.splits prod.splits option.splits list.splits)

lemma ex_sent_ok: "the_msg (fst (ex_sent ProtocolV2)) \<noteq> None"
  by code_simp

lemma ex_sent_run:
  "EncryptMessage stub (ex_manager ProtocolV2 ''a'' 3) ''b'' (Some [104, 105]) (ex_world ''a'' 3) =
     (Inr (Some (ex_msg ProtocolV2), [], None), snd (ex_sent ProtocolV2))"
proof -
  from ex_sent_ok have "the_msg (fst (ex_sent ProtocolV2)) = Some (ex_msg ProtocolV2)"
    by (auto simp: ex_msg_def)
  from the_msg_Some [OF this] show ?thesis
    unfolding ex_sent_def [symmetric] by (simp add: prod_eq_iff)
qed

lemma ex_manager_simps [simp]:
  "m_store (ex_manager p jid b) = MemStore_Store"
  "m_transport (ex_manager p jid b) = fakeTransport"
  "m_protocol (ex_manager p jid b) = p"
  "m_localDevice (ex_manager p jid b) = \<lparr>dev_JID = jid, dev_ID = 1\<rparr>"
  "m_trustResolver (ex_manager p jid b) = Some trust_all"
  by (simp_all add: ex_manager_def)

lemma ex_world_inv [simp]: "ms_inv (w_store (ex_world jid b))"
  by (simp add: ex_world_def ex_store_def ms_inv_def ms_New_def)

text \<open>The recipient \<open>b\<close> decrypts it, and gets it a second time.\<close>

definition ex_received :: "Protocol \<Rightarrow> (goerror + slice) \<times> (MemStore, fakeEnv) world" where
  "ex_received p = DecryptMessage stub (ex_manager p ''b'' 2) (ex_msg p) (ex_world ''b'' 2)"

lemma ex_received_ok: "fst (ex_received ProtocolV2) = Inr (Some [104, 105])"
  by code_simp

lemma ex_received_run:
  "DecryptMessage stub (ex_manager ProtocolV2 ''b'' 2) (ex_msg ProtocolV2) (ex_world ''b'' 2) =
     (Inr (Some [104, 105]), snd (ex_received ProtocolV2))"
  using ex_received_ok by (simp add: ex_received_def prod_eq_iff)

text \<open>The same message without the key exchange, as from a sender who believes in a session.\<close>

definition drop_kx :: "EncryptedMessage \<Rightarrow> EncryptedMessage" where
  "drop_kx msg = msg\<lparr>em_Keys := map (\<lambda>k. k\<lparr>rk_KeyExchange := None\<rparr>) (em_Keys msg)\<rparr>"

end
