(* ===== verification/Properties_Encrypt.thy ===== *)
theory Properties_Encrypt
  imports Manager_Delivery Omemo_Fake
begin

text \<open>
  The properties of encryption, for a manager over the in-memory store, with every transport and
  every backend: which devices get a key, how failures are reported, what a call leaves alone.
\<close>

section \<open>From the contract to runs on the in-memory store\<close>

lemma EncryptMessage_facts:
  assumes "m_store M = MemStore_Store" and "ms_inv (w_store w)"
    and "EncryptMessage B M jid pt w = (Inr r, w')"
  shows "ms_inv (w_store w')"
    and "encrypt_post (\<lambda>a devs. devs = all_devices M jid a) M pt r (ms_abs (w_store w'))"
    and "send_frame {jid, dev_JID (m_localDevice M)} (ms_abs (w_store w)) (ms_abs (w_store w'))"
  using wp_run_Inr [OF memstore.encrypt_total_wp [OF assms(1,2) assms(1,2)] assms(3) [unfolded EncryptMessage_def]]
  by auto

lemma loop_post_key_device:
  assumes "loop_post ds keys errs a" and "key \<in> set keys"
  shows "\<exists>d \<in> set ds. \<exists>k. rk_Device key = dev_ID d \<and> ready d k a"
proof -
  from assms(1) obtain bs where bs: "map rk_Device keys = map dev_ID (served bs ds)"
    "\<forall>d \<in> set (served bs ds). \<exists>k. ready d k a" by (auto simp: loop_post_def)
  from assms(2) bs(1) have "rk_Device key \<in> set (map dev_ID (served bs ds))" by (metis image_eqI list.set_map)
  with bs(2) served_subset [of bs ds] show ?thesis by auto
qed

section \<open>Keys go to trusted devices only\<close>

text \<open>
  C8. Every key of an encrypted message is for a device of the recipient or of the sender's own
  account, never the sending device, for which the store then holds a session and an identity key
  marked trusted; and that key was not marked untrusted before the call: a blocked identity key
  never receives a message key, whatever the trust callback says.
\<close>

theorem EncryptMessage_trusted_only:
  assumes "m_store M = MemStore_Store" and "ms_inv (w_store w)"
    and "EncryptMessage B M jid pt w = (Inr (Some msg, errs, err), w')"
    and "key \<in> set (em_Keys msg)"
  shows "\<exists>dev k. rk_Device key = dev_ID dev \<and> dev \<noteq> m_localDevice M \<and>
     dev_JID dev \<in> {jid, dev_JID (m_localDevice M)} \<and>
     ms_sessions (w_store w') dev \<noteq> None \<and> ms_remoteID (w_store w') dev = Some k \<and>
     ms_trust (w_store w') (slice_string k) = Some TrustTrusted \<and>
     ms_trust (w_store w) (slice_string k) \<noteq> Some TrustUntrusted"
proof -
  note facts = EncryptMessage_facts [OF assms(1-3)]
  let ?devs = "all_devices M jid (ms_abs (w_store w'))"
  from facts(2) have devs:
    "loop_post (filter (\<lambda>d. d \<noteq> m_localDevice M) ?devs) (em_Keys msg) errs (ms_abs (w_store w'))"
    by (auto simp: encrypt_post_def split: option.splits)
  from loop_post_key_device [OF devs assms(4)] obtain d k where d: "d \<in> set ?devs"
    "d \<noteq> m_localDevice M" "rk_Device key = dev_ID d" "ready d k (ms_abs (w_store w'))" by auto
  from send_frame_trust [OF facts(3)] d(4) have "ms_trust (w_store w) (slice_string k) \<noteq> Some TrustUntrusted"
    by (simp add: ready_def ms_abs_trust)
  moreover have "dev_JID d \<in> {jid, dev_JID (m_localDevice M)}"
    using d(1) addressing_all [of jid M] unfolding addressing_def by blast
  ultimately show ?thesis using d(2-4)
    by (intro exI [of _ d] exI [of _ k]) (auto simp: ready_def ms_abs_trust)
qed

theorem EncryptMessage_trusted_only_witness:
  "\<exists>key \<in> set (em_Keys (ex_msg ProtocolV2)). \<exists>dev k. rk_Device key = dev_ID dev \<and>
     dev \<noteq> \<lparr>dev_JID = ''a'', dev_ID = 1\<rparr> \<and> dev_JID dev \<in> {''b'', ''a''} \<and>
     ms_remoteID (w_store (snd (ex_sent ProtocolV2))) dev = Some k \<and>
     ms_trust (w_store (snd (ex_sent ProtocolV2))) (slice_string k) = Some TrustTrusted"
proof -
  have "em_Keys (ex_msg ProtocolV2) \<noteq> []" by code_simp
  then obtain key where key: "key \<in> set (em_Keys (ex_msg ProtocolV2))" by (meson list.set_sel(1))
  show ?thesis
    using EncryptMessage_trusted_only [OF _ _ ex_sent_run key] key by auto
qed

section \<open>Every addressed device is accounted for\<close>

text \<open>Keys and failures split the devices \<open>ds\<close> position by position, each in the order of \<open>ds\<close>.\<close>

definition accounted :: "Device list \<Rightarrow> RecipientKey list \<Rightarrow> DeviceError list \<Rightarrow> bool" where
  "accounted ds keys errs \<longleftrightarrow> (\<exists>bs. length bs = length ds \<and>
     map rk_Device keys = map dev_ID (served bs ds) \<and> map de_Device errs = skipped bs ds)"

lemma loop_post_accounted: "loop_post ds keys errs a \<Longrightarrow> accounted ds keys errs"
  by (auto simp: loop_post_def accounted_def)

lemma accounted_Nil: "accounted ds [] errs \<Longrightarrow> map de_Device errs = ds"
proof -
  assume "accounted ds [] errs"
  then obtain bs where bs: "length bs = length ds" "served bs ds = []" "map de_Device errs = skipped bs ds"
    by (auto simp: accounted_def)
  from bs(1,2) have "skipped bs ds = ds" by (induction bs ds rule: list_induct2) (auto split: if_splits)
  with bs(3) show ?thesis by simp
qed

lemma accounted_length: "accounted ds keys errs \<Longrightarrow> length keys + length errs = length ds"
  unfolding accounted_def by (metis length_map served_skipped_length)

text \<open>
  C9. A message that is returned carries no error, names this device as its sender and holds at
  least one key; and each device of the recipient and of the own account in the store's lists, but
  the sending one, has either its key among the message's keys or its entry among the device
  errors, both in the order of the device lists.
\<close>

theorem EncryptMessage_accounts:
  assumes "m_store M = MemStore_Store" and "ms_inv (w_store w)"
    and "EncryptMessage B M jid pt w = (Inr (Some msg, errs, err), w')"
  shows "err = None \<and> em_Sender msg = m_localDevice M \<and> em_Keys msg \<noteq> [] \<and>
     accounted (recipients M jid (ms_abs (w_store w'))) (em_Keys msg) errs"
  using EncryptMessage_facts(2) [OF assms]
  by (auto simp: encrypt_post_def recipients_def dest: loop_post_accounted split: option.splits)

theorem EncryptMessage_accounts_witness:
  "em_Sender (ex_msg ProtocolV2) = \<lparr>dev_JID = ''a'', dev_ID = 1\<rparr> \<and>
   accounted (recipients (ex_manager ProtocolV2 ''a'' 3) ''b''
     (ms_abs (w_store (snd (ex_sent ProtocolV2))))) (em_Keys (ex_msg ProtocolV2)) []"
  using EncryptMessage_accounts [OF _ _ ex_sent_run] by simp

text \<open>
  C29. An error comes back exactly when no message does; if the failure is not that of the device
  lists or of the payload, it is \<open>ErrNoRecipients\<close> and every addressed device has its own entry
  among the device errors, in order.
\<close>

theorem EncryptMessage_error_iff_no_message:
  assumes "m_store M = MemStore_Store" and "ms_inv (w_store w)"
    and "EncryptMessage B M jid pt w = (Inr (m, errs, err), w')"
  shows "(err = None \<longleftrightarrow> m \<noteq> None) \<and>
     (m = None \<longrightarrow> errs = [] \<or> err = Some ErrNoRecipients \<and>
        map de_Device errs = recipients M jid (ms_abs (w_store w')))"
  using EncryptMessage_facts(2) [OF assms]
  by (auto simp: encrypt_post_def recipients_def dest!: loop_post_accounted accounted_Nil split: option.splits)

text \<open>A message to an account nobody has published anything for.\<close>

definition ex_unknown :: "(goerror + encrypt_result) \<times> (MemStore, fakeEnv) world" where
  "ex_unknown = EncryptMessage stub (ex_manager ProtocolV2 ''a'' 3) ''c'' (Some []) (ex_world ''a'' 3)"

lemma ex_unknown_run: "\<exists>e. fst ex_unknown = Inr (None, [], Some e)"
proof -
  have "case fst ex_unknown of Inr (None, [], Some e) \<Rightarrow> True | _ \<Rightarrow> False" by code_simp
  then show ?thesis by (auto split: sum.splits prod.splits option.splits list.splits)
qed

theorem EncryptMessage_error_iff_no_message_witness:
  "\<exists>m errs err. fst ex_unknown = Inr (m, errs, err) \<and> (err = None \<longleftrightarrow> m \<noteq> None)"
proof -
  obtain e where "fst ex_unknown = Inr (None, [], Some e)" using ex_unknown_run by blast
  then have run: "EncryptMessage stub (ex_manager ProtocolV2 ''a'' 3) ''c'' (Some []) (ex_world ''a'' 3) =
      (Inr (None, [], Some e), snd ex_unknown)"
    unfolding ex_unknown_def [symmetric] by (simp add: prod_eq_iff)
  from EncryptMessage_error_iff_no_message [OF _ _ run] \<open>fst ex_unknown = _\<close> show ?thesis by auto
qed

section \<open>Trust decisions\<close>

text \<open>
  C22. Without a trust callback a call of \<open>EncryptMessage\<close> that makes a message changes no trust
  decision, and every key of the message is for a device whose identity key was marked trusted before the call.
\<close>

theorem EncryptMessage_no_resolver:
  assumes "m_store M = MemStore_Store" and "ms_inv (w_store w)" and "m_trustResolver M = None"
    and "EncryptMessage B M jid pt w = (Inr (Some msg, errs, err), w')"
  shows "a_trust (ms_abs (w_store w')) = a_trust (ms_abs (w_store w)) \<and>
     (\<forall>key \<in> set (em_Keys msg). \<exists>dev k. rk_Device key = dev_ID dev \<and>
        dev \<in> set (recipients M jid (ms_abs (w_store w'))) \<and> ms_remoteID (w_store w') dev = Some k \<and>
        ms_trust (w_store w) (slice_string k) = Some TrustTrusted)"
proof -
  have kept: "a_trust (ms_abs (w_store w')) = a_trust (ms_abs (w_store w))"
    using stable_runD [OF memstore.encrypt_trust_kept [OF assms(1,3)] assms(4) [unfolded EncryptMessage_def]] assms(2)
    by (simp add: store_rel_def same_def)
  have post: "loop_post (recipients M jid (ms_abs (w_store w'))) (em_Keys msg) errs (ms_abs (w_store w'))"
    using EncryptMessage_facts(2) [OF assms(1,2,4)]
    by (auto simp: encrypt_post_def recipients_def split: option.splits)
  have "\<exists>dev k. rk_Device key = dev_ID dev \<and>
     dev \<in> set (recipients M jid (ms_abs (w_store w'))) \<and> ms_remoteID (w_store w') dev = Some k \<and>
     ms_trust (w_store w) (slice_string k) = Some TrustTrusted" if "key \<in> set (em_Keys msg)" for key
    using loop_post_key_device [OF post that] kept by (fastforce simp: ready_def ms_abs_trust)
  with kept show ?thesis by blast
qed

text \<open>A world in which \<open>a\<close> has a session with \<open>b\<close>, whose identity key has the trust state \<open>t\<close>.\<close>

definition ex_known :: "TrustState \<Rightarrow> (MemStore, fakeEnv) world" where
  "ex_known t = (ex_world ''a'' 3)\<lparr>w_store := (ex_store ''a'' 3)\<lparr>
     ms_sessions := [\<lparr>dev_JID = ''b'', dev_ID = 1\<rparr> \<mapsto> Some [1]],
     ms_remoteID := [\<lparr>dev_JID = ''b'', dev_ID = 1\<rparr> \<mapsto> Some [2]],
     ms_trust := [[2] \<mapsto> t], ms_devices := [''b'' \<mapsto> [1]]\<rparr>\<rparr>"

definition ex_manager0 :: "(MemStore, fakeEnv) Manager" where
  "ex_manager0 = (ex_manager ProtocolV2 ''a'' 3)\<lparr>m_trustResolver := None\<rparr>"

lemma ex_known_inv [simp]: "ms_inv (w_store (ex_known t))"
  by (simp add: ex_known_def ex_world_def ex_store_def ms_inv_def ms_New_def)

definition ex_known_sent :: "(goerror + encrypt_result) \<times> (MemStore, fakeEnv) world" where
  "ex_known_sent = EncryptMessage stub ex_manager0 ''b'' (Some [1]) (ex_known TrustTrusted)"

lemma ex_known_sent_run: "\<exists>msg :: EncryptedMessage. em_Keys msg \<noteq> [] \<and>
   EncryptMessage stub ex_manager0 ''b'' (Some [1]) (ex_known TrustTrusted) = (Inr (Some msg, [], None), snd ex_known_sent)"
proof -
  have "case the_msg (fst ex_known_sent) of None \<Rightarrow> False | Some msg \<Rightarrow> em_Keys msg \<noteq> []" by code_simp
  then obtain msg where "the_msg (fst ex_known_sent) = Some msg" "em_Keys msg \<noteq> []" by (auto split: option.splits)
  then show ?thesis
    unfolding ex_known_sent_def [symmetric] by (auto simp: prod_eq_iff dest: the_msg_Some)
qed

theorem EncryptMessage_no_resolver_witness:
  "\<exists>msg :: EncryptedMessage. em_Keys msg \<noteq> [] \<and> (\<forall>key \<in> set (em_Keys msg). \<exists>dev k.
     rk_Device key = dev_ID dev \<and> ms_remoteID (w_store (snd ex_known_sent)) dev = Some k \<and>
     ms_trust (w_store (ex_known TrustTrusted)) (slice_string k) = Some TrustTrusted)"
proof -
  obtain msg where msg: "em_Keys msg \<noteq> []" and run: "EncryptMessage stub ex_manager0 ''b'' (Some [1])
      (ex_known TrustTrusted) = (Inr (Some msg, [], None), snd ex_known_sent)"
    using ex_known_sent_run by blast
  have "m_store ex_manager0 = MemStore_Store" "m_trustResolver ex_manager0 = None"
    by (simp_all add: ex_manager0_def)
  from EncryptMessage_no_resolver [OF this(1) ex_known_inv this(2) run] msg show ?thesis
    by (intro exI [of _ msg]) blast
qed

section \<open>What a call leaves alone\<close>

text \<open>
  C30. A call of \<open>EncryptMessage\<close>, whether it panics or not, changes neither the identity, the
  signed prekeys nor the pool of one-time prekeys, touches no session and no identity key of a
  device of a third account, replaces no device list that is not empty, and never takes a device
  that was ready (a session and a trusted identity key) out of that state.
\<close>

theorem EncryptMessage_frame:
  assumes "m_store M = MemStore_Store" and "ms_inv (w_store w)"
    and "EncryptMessage B M jid pt w = (r, w')"
  shows "send_frame {jid, dev_JID (m_localDevice M)} (ms_abs (w_store w)) (ms_abs (w_store w')) \<and>
     ms_inv (w_store w')"
  using memstore.encrypt_total_wp [OF assms(1,2) assms(1,2), of B jid pt] assms(3)
  by (cases r) (auto simp: EncryptMessage_def wp_def)

theorem EncryptMessage_frame_witness:
  "send_frame {''b'', ''a''} (ms_abs (w_store (ex_world ''a'' 3))) (ms_abs (w_store (snd (ex_sent ProtocolV2))))"
  using EncryptMessage_frame [OF _ _ ex_sent_run] by simp

text \<open>
  C23. A key-transport message is a message without payload: when \<open>EncryptKeyTransport\<close> returns one,
  it has neither payload nor initialization vector, and its keys account for every device as those
  of \<open>EncryptMessage\<close> do.
\<close>

theorem EncryptKeyTransport_no_payload:
  assumes "m_store M = MemStore_Store" and "ms_inv (w_store w)"
    and "EncryptKeyTransport B M jid w = (Inr (Some msg, errs, err), w')"
  shows "em_Payload msg = None \<and> em_IV msg = None \<and> err = None \<and> em_Keys msg \<noteq> [] \<and>
     accounted (recipients M jid (ms_abs (w_store w'))) (em_Keys msg) errs"
proof -
  from assms(3) have "EncryptMessage B M jid None w = (Inr (Some msg, errs, err), w')"
    by (simp add: EncryptMessage_def EncryptKeyTransport_def)
  from EncryptMessage_facts(2) [OF assms(1,2) this] show ?thesis
    by (auto simp: encrypt_post_def recipients_def dest: loop_post_accounted split: option.splits)
qed

definition ex_transport :: "(goerror + encrypt_result) \<times> (MemStore, fakeEnv) world" where
  "ex_transport = EncryptKeyTransport stub (ex_manager ProtocolV1 ''a'' 3) ''b'' (ex_world ''a'' 3)"

theorem EncryptKeyTransport_no_payload_witness:
  "\<exists>msg. the_msg (fst ex_transport) = Some msg \<and> em_Payload msg = None \<and> em_Keys msg \<noteq> []"
proof -
  have "the_msg (fst ex_transport) \<noteq> None" by code_simp
  then obtain msg where msg: "the_msg (fst ex_transport) = Some msg" by blast
  from the_msg_Some [OF this] have "EncryptKeyTransport stub (ex_manager ProtocolV1 ''a'' 3) ''b'' (ex_world ''a'' 3) =
      (Inr (Some msg, [], None), snd ex_transport)"
    unfolding ex_transport_def [symmetric] by (simp add: prod_eq_iff)
  from EncryptKeyTransport_no_payload [OF _ _ this] msg show ?thesis by simp
qed

section \<open>Devices that must be served, devices that must be refused\<close>

text \<open>
  C13. A listed device of the recipient or the own account with a stored session the backend can use
  and a trusted identity key gets its key in the message, without a key exchange, whatever happens
  to the other devices; \<open>EncryptMessage\<close> then returns a message and no error.
\<close>

theorem EncryptMessage_serves_ready:
  assumes "m_store M = MemStore_Store" and "ms_inv (w_store w)"
    and "listed M jid dev (ms_abs (w_store w))" and "a_devices (ms_abs (w_store w)) jid \<noteq> []"
    and "ready_with dev data k (ms_abs (w_store w))" and "usable B (m_protocol M) data"
    and "\<forall>e. \<exists>x e'. EncryptPayload B (m_protocol M) pt e = (Inr x, e')"
    and "EncryptMessage B M jid pt w = (Inr (m, errs, err), w')"
  shows "err = None \<and> (\<exists>msg. m = Some msg \<and>
     (\<exists>key \<in> set (em_Keys msg). rk_Device key = dev_ID dev \<and> rk_KeyExchange key = None))"
proof -
  have turn: "wp (encryptForDevice B M dev km)
      (\<lambda>key _. rk_Device key = dev_ID dev \<and> rk_KeyExchange key = None) (\<lambda>e _. is_fatal e \<or> False) w1"
    if "ms_inv (w_store w1)" and "ready_with dev data k (ms_abs (w_store w1))" for km and w1 :: "(MemStore, 'a) world"
    using memstore.encryptForDevice_ready [OF assms(1) that assms(6)] by simp
  have "wp (encrypt B M jid pt)
     (\<lambda>(m, errs, err) _. (\<exists>msg. m = Some msg \<and> (\<exists>key \<in> set (em_Keys msg).
          rk_Device key = dev_ID dev \<and> rk_KeyExchange key = None)) \<or>
        (\<exists>err \<in> set errs. de_Device err = dev \<and> False)) (\<lambda>_ _. True) w"
    by (rule memstore.encrypt_outcome [where P = "ready_with dev data k"])
      (use assms(1-7) turn in \<open>auto intro: ready_with_kept conditions_lists\<close>)
  from wp_run_Inr [OF this assms(8) [unfolded EncryptMessage_def]]
  obtain msg key where "m = Some msg" "key \<in> set (em_Keys msg)"
    "rk_Device key = dev_ID dev" "rk_KeyExchange key = None" by auto
  with EncryptMessage_facts(2) [OF assms(1,2,8)] show ?thesis
    by (auto simp: encrypt_post_def split: option.splits)
qed

lemma stub_session_simps:
  "LoadSession stub ProtocolV2 (Some bs) e =
     (Inr \<lparr>s_protocol = ProtocolV2, s_dr = Some bs, s_ls = None, s_pending = None\<rparr>, e)"
  "\<exists>a b c e'. EncryptPayload stub ProtocolV2 pt e = (Inr (a, b, c), e')"
  by (simp_all add: LoadSession_def EncryptPayload_def stub_def stub_unmarshal_def stub_payload_def
      stub_rand_def act_simps)

lemma stub_usable: "usable stub ProtocolV2 (Some bs)"
  by (simp add: usable_def encrypts_def marshals_def stub_session_simps)
    (simp add: Encrypt_def Marshal_def on_dr_def stub_def stub_encrypt_def act_simps)

lemma ex_known_listed:
  "listed ex_manager0 ''b'' \<lparr>dev_JID = ''b'', dev_ID = 1\<rparr> (ms_abs (w_store (ex_known t)))"
  "a_devices (ms_abs (w_store (ex_known t))) ''b'' \<noteq> []"
  by (simp_all add: listed_def ex_known_def ex_manager0_def ms_abs_def ex_manager_def)

lemma ex_manager0_simps [simp]:
  "m_store ex_manager0 = MemStore_Store" "m_protocol ex_manager0 = ProtocolV2"
  by (simp_all add: ex_manager0_def)

theorem EncryptMessage_serves_ready_witness:
  "\<exists>msg :: EncryptedMessage. fst ex_known_sent = Inr (Some msg, [], None) \<and>
     (\<exists>key \<in> set (em_Keys msg). rk_Device key = 1 \<and> rk_KeyExchange key = None)"
proof -
  obtain msg where run: "EncryptMessage stub ex_manager0 ''b'' (Some [1])
      (ex_known TrustTrusted) = (Inr (Some msg, [], None), snd ex_known_sent)"
    using ex_known_sent_run by blast
  have "ready_with \<lparr>dev_JID = ''b'', dev_ID = 1\<rparr> (Some [1]) (Some [2]) (ms_abs (w_store (ex_known TrustTrusted)))"
    by (simp add: ready_with_def ready_def ex_known_def ms_abs_def slice_string_def)
  note key = EncryptMessage_serves_ready [OF _ _ ex_known_listed this _ _ run]
  from run have "fst ex_known_sent = Inr (Some msg, [], None)" by (metis ex_known_sent_def fst_conv)
  with key show ?thesis by (auto simp: stub_usable stub_session_simps)
qed

text \<open>
  C14. A listed device with a stored session that the backend loads and an identity key that is
  marked untrusted is always refused: it is reported with \<open>ErrBlockedDevice\<close>, whatever trust callback
  the manager has. (Without a session the code fetches a bundle before it looks at the trust state, so
  another error may come first; \<open>EncryptMessage_trusted_only\<close> covers that case.)
\<close>

theorem EncryptMessage_refuses_blocked:
  assumes "m_store M = MemStore_Store" and "ms_inv (w_store w)"
    and "listed M jid dev (ms_abs (w_store w))" and "a_devices (ms_abs (w_store w)) jid \<noteq> []"
    and "blocked_with dev data k (ms_abs (w_store w))"
    and "\<forall>e. \<exists>s e'. LoadSession B (m_protocol M) data e = (Inr s, e')"
    and "\<forall>e. \<exists>x e'. EncryptPayload B (m_protocol M) pt e = (Inr x, e')"
    and "EncryptMessage B M jid pt w = (Inr (m, errs, err), w')"
  shows "\<exists>e \<in> set errs. de_Device e = dev \<and> de_Err e = ErrBlockedDevice"
proof -
  have turn: "wp (encryptForDevice B M dev km) (\<lambda>_ _. False) (\<lambda>e _. is_fatal e \<or> e = ErrBlockedDevice) w1"
    if "ms_inv (w_store w1)" and "blocked_with dev data k (ms_abs (w_store w1))" for km and w1 :: "(MemStore, 'a) world"
    by (rule memstore.encryptForDevice_blocked [OF assms(1) that assms(6)])
  have "wp (encrypt B M jid pt)
     (\<lambda>(m, errs, err) _. (\<exists>msg. m = Some msg \<and> (\<exists>key \<in> set (em_Keys msg). False)) \<or>
        (\<exists>err \<in> set errs. de_Device err = dev \<and> de_Err err = ErrBlockedDevice)) (\<lambda>_ _. True) w"
    by (rule memstore.encrypt_outcome [where P = "blocked_with dev data k"])
      (use assms(1-7) turn in \<open>auto intro: blocked_with_kept conditions_lists\<close>)
  from wp_run_Inr [OF this assms(8) [unfolded EncryptMessage_def]] show ?thesis by auto
qed

definition ex_blocked :: "(goerror + encrypt_result) \<times> (MemStore, fakeEnv) world" where
  "ex_blocked = EncryptMessage stub ex_manager0 ''b'' (Some [1]) (ex_known TrustUntrusted)"

theorem EncryptMessage_refuses_blocked_witness:
  "\<exists>m errs err. fst ex_blocked = Inr (m, errs, err) \<and>
     (\<exists>e \<in> set errs. de_Device e = \<lparr>dev_JID = ''b'', dev_ID = 1\<rparr> \<and> de_Err e = ErrBlockedDevice)"
proof -
  have "case fst ex_blocked of Inl _ \<Rightarrow> False | Inr _ \<Rightarrow> True" by code_simp
  then obtain m errs err where run: "fst ex_blocked = Inr (m, errs, err)" by (auto split: sum.splits)
  then have run': "EncryptMessage stub ex_manager0 ''b'' (Some [1]) (ex_known TrustUntrusted) =
      (Inr (m, errs, err), snd ex_blocked)"
    unfolding ex_blocked_def by (simp add: prod_eq_iff)
  have "blocked_with \<lparr>dev_JID = ''b'', dev_ID = 1\<rparr> (Some [1]) (Some [2]) (ms_abs (w_store (ex_known TrustUntrusted)))"
    by (simp add: blocked_with_def ex_known_def ms_abs_def slice_string_def)
  from EncryptMessage_refuses_blocked [OF _ _ ex_known_listed this _ _ run'] run show ?thesis
    by (simp add: stub_session_simps)
qed

text \<open>
  C21. A listed device with a stored session that the backend loads and an identity key that no decision
  is to be had for is left out: without a trust callback it is reported with \<open>ErrUntrustedDevice\<close>, with one
  that declines the key, with the callback's own error, unwrapped; and the key stays undecided, also when
  other devices of the message have the same one.
\<close>

theorem EncryptMessage_refuses_undecided:
  assumes "m_store M = MemStore_Store" and "ms_inv (w_store w)"
    and "listed M jid dev (ms_abs (w_store w))" and "a_devices (ms_abs (w_store w)) jid \<noteq> []"
    and "undecided_with dev data k (ms_abs (w_store w))" and "declines M (slice_string k) err"
    and "\<forall>e. \<exists>s e'. LoadSession B (m_protocol M) data e = (Inr s, e')"
    and "\<forall>e. \<exists>x e'. EncryptPayload B (m_protocol M) pt e = (Inr x, e')"
    and "EncryptMessage B M jid pt w = (Inr (m, errs, e), w')"
  shows "(\<exists>e \<in> set errs. de_Device e = dev \<and> de_Err e = err) \<and>
     a_trust (ms_abs (w_store w')) (slice_string k) = TrustUndecided"
proof -
  note run = assms(9) [unfolded EncryptMessage_def]
  have nl: "dev \<noteq> m_localDevice M" using assms(3) by (simp add: listed_def)
  have turn: "wp (encryptForDevice B M dev km) (\<lambda>_ _. False) (\<lambda>e _. is_fatal e \<or> e = err) w1"
    if "ms_inv (w_store w1)" and "undecided_with dev data k (ms_abs (w_store w1))" for km and w1 :: "(MemStore, 'a) world"
    by (rule memstore.encryptForDevice_declined [OF assms(1) that(1) assms(6) that(2) assms(7)])
  have "wp (encrypt B M jid pt)
     (\<lambda>(m, errs, err') _. (\<exists>msg. m = Some msg \<and> (\<exists>key \<in> set (em_Keys msg). False)) \<or>
        (\<exists>e \<in> set errs. de_Device e = dev \<and> de_Err e = err)) (\<lambda>_ _. True) w"
    by (rule memstore.encrypt_outcome_rel [where P = "undecided_with dev data k" and I = "\<lambda>_. True", OF assms(1,2) nl
        env_kept_True TrueI memstore.recipientDevices_listed [OF assms(1,2,4,3)] assms(5)
        memstore.encryptForDevice_declined_kept [OF assms(1,6)]])
      (use assms(8) turn in \<open>auto intro: undecided_with_kept conditions_lists\<close>)
  from wp_run_Inr [OF this run] have "\<exists>e \<in> set errs. de_Device e = dev \<and> de_Err e = err" by auto
  moreover have "a_trust (ms_abs (w_store w')) (slice_string k) = a_trust (ms_abs (w_store w)) (slice_string k)"
    using stable_runD [OF memstore.encrypt_declined_kept [OF assms(1,6)] run] assms(2)
    by (simp add: store_rel_def same_def)
  ultimately show ?thesis using assms(5) by (simp add: undecided_with_def)
qed

text \<open>A callback that declines every key with an error of its own.\<close>

definition decline_all :: "fakeEnv TrustResolver" where
  "decline_all dev key = throw (Errorf ''no'')"

definition ex_manager1 :: "(MemStore, fakeEnv) Manager" where
  "ex_manager1 = (ex_manager ProtocolV2 ''a'' 3)\<lparr>m_trustResolver := Some decline_all\<rparr>"

definition ex_declined :: "(goerror + encrypt_result) \<times> (MemStore, fakeEnv) world" where
  "ex_declined = EncryptMessage stub ex_manager1 ''b'' (Some [1]) (ex_known TrustUndecided)"

theorem EncryptMessage_refuses_undecided_witness:
  "\<exists>m errs err. fst ex_declined = Inr (m, errs, err) \<and>
     (\<exists>e \<in> set errs. de_Device e = \<lparr>dev_JID = ''b'', dev_ID = 1\<rparr> \<and> de_Err e = Errorf ''no'')"
proof -
  have "case fst ex_declined of Inl _ \<Rightarrow> False | Inr _ \<Rightarrow> True" by code_simp
  then obtain m errs err where run: "fst ex_declined = Inr (m, errs, err)" by (auto split: sum.splits)
  then have run': "EncryptMessage stub ex_manager1 ''b'' (Some [1]) (ex_known TrustUndecided) =
      (Inr (m, errs, err), snd ex_declined)"
    unfolding ex_declined_def by (simp add: prod_eq_iff)
  have M: "m_store ex_manager1 = MemStore_Store" "m_protocol ex_manager1 = ProtocolV2"
    "listed ex_manager1 ''b'' \<lparr>dev_JID = ''b'', dev_ID = 1\<rparr> (ms_abs (w_store (ex_known TrustUndecided)))"
    using ex_known_listed(1) [of TrustUndecided] by (simp_all add: ex_manager1_def ex_manager0_def listed_def)
  have "undecided_with \<lparr>dev_JID = ''b'', dev_ID = 1\<rparr> (Some [1]) (Some [2]) (ms_abs (w_store (ex_known TrustUndecided)))"
    by (simp add: undecided_with_def ex_known_def ms_abs_def slice_string_def)
  moreover have "declines ex_manager1 (slice_string (Some [2])) (Errorf ''no'')"
    by (simp add: declines_def ex_manager1_def decline_all_def throw_run)
  ultimately show ?thesis
    using EncryptMessage_refuses_undecided [OF M(1) _ M(3) ex_known_listed(2) _ _ _ _ run'] run
    by (simp add: M(2) stub_session_simps)
qed

end
