(* ===== verification/Manager_Decrypt.thy ===== *)
theory Manager_Decrypt
  imports Manager_Store
begin

text \<open>
  Decrypting an incoming message: the signed prekey a key exchange names, the one-time prekey it
  consumes, the session it creates. The lemmas of the locale hold for every store that keeps the
  contract, every transport and every backend.
\<close>

section \<open>Changes on the abstract store\<close>

text \<open>A completed key exchange from \<open>sender\<close> uses up the one-time prekey \<open>i\<close> and records \<open>k\<close>.\<close>

definition kx_step :: "Device \<Rightarrow> uint32 \<Rightarrow> slice \<Rightarrow> astore \<Rightarrow> astore \<Rightarrow> bool" where
  "kx_step sender i k a a' \<longleftrightarrow> a_preKeys a i \<noteq> None \<and>
     a' = a\<lparr>a_preKeys := (a_preKeys a)(i := None), a_remoteID := (a_remoteID a)(sender \<mapsto> k)\<rparr>"

text \<open>
  What a message from \<open>sender\<close> may change, whether it is decrypted or not: the session and the
  identity key of \<open>sender\<close>, and at most one one-time prekey, which goes.
\<close>

definition dec_frame :: "Device \<Rightarrow> astore \<Rightarrow> astore \<Rightarrow> bool" where
  "dec_frame sender a a' \<longleftrightarrow>
     a'\<lparr>a_sessions := a_sessions a, a_remoteID := a_remoteID a, a_preKeys := a_preKeys a\<rparr> = a \<and>
     (\<forall>d. d \<noteq> sender \<longrightarrow> a_sessions a' d = a_sessions a d \<and> a_remoteID a' d = a_remoteID a d) \<and>
     (a_preKeys a' = a_preKeys a \<or>
      (\<exists>i. a_preKeys a i \<noteq> None \<and> a_preKeys a' = (a_preKeys a)(i := None)))"

text \<open>The signed prekey an identifier names: the current one, or else the stale one.\<close>

definition spk_for :: "astore \<Rightarrow> uint32 \<Rightarrow> SignedPreKeyRecord option" where
  "spk_for a i =
     (if spr_ID (a_currentSPK a) = i then Some (a_currentSPK a)
      else case a_staleSPK a of
             Some r \<Rightarrow> if spr_ID r = i then Some r else None
           | None \<Rightarrow> None)"

text \<open>
  A key exchange that was completed: for protocol v2 with the identifiers and the identity key it
  carries; for v1 those are inside the message bytes.
\<close>

definition kx_done :: "Protocol \<Rightarrow> Device \<Rightarrow> KeyExchange \<Rightarrow> astore \<Rightarrow> astore \<Rightarrow> bool" where
  "kx_done p sender kx a a' \<longleftrightarrow> (\<exists>sp pk k. spk_for a sp \<noteq> None \<and> kx_step sender pk k a a' \<and>
     (p \<noteq> ProtocolV1 \<longrightarrow> sp = kx_SignedPreKeyID kx \<and> pk = kx_PreKeyID kx \<and> k = kx_IdentityKey kx))"

lemma kx_doneI:
  "spk_for a sp \<noteq> None \<Longrightarrow> a_preKeys a pk \<noteq> None \<Longrightarrow>
     a' = a\<lparr>a_preKeys := (a_preKeys a)(pk := None), a_remoteID := (a_remoteID a)(sender \<mapsto> k)\<rparr> \<Longrightarrow>
     (p \<noteq> ProtocolV1 \<Longrightarrow> sp = kx_SignedPreKeyID kx \<and> pk = kx_PreKeyID kx \<and> k = kx_IdentityKey kx) \<Longrightarrow>
     kx_done p sender kx a a'"
  unfolding kx_done_def kx_step_def by blast

lemma dec_frame_refl [simp, intro]: "dec_frame sender a a"
  by (simp add: dec_frame_def)

lemma dec_frame_consume: "a_preKeys a i \<noteq> None \<Longrightarrow> dec_frame sender a (a\<lparr>a_preKeys := (a_preKeys a)(i := None)\<rparr>)"
  by (auto simp: dec_frame_def)

lemma dec_frame_kx: "kx_step sender i k a a' \<Longrightarrow> dec_frame sender a a'"
  by (auto simp: kx_step_def dec_frame_def)

lemma dec_frame_done: "kx_done p sender kx a a' \<Longrightarrow> dec_frame sender a a'"
  by (auto simp: kx_done_def dest: dec_frame_kx)

lemma dec_frame_session: "dec_frame sender a b \<Longrightarrow> session_put sender b c \<Longrightarrow> dec_frame sender a c"
  by (auto simp: dec_frame_def session_put_def)

section \<open>Clients of the contract\<close>

context omemo_store
begin

lemma signedPreKeyByID_wp:
  assumes M: "m_store M = S" and i: "invar (w_store w)"
    and ok: "\<And>r w'. invar (w_store w') \<Longrightarrow> alpha (w_store w') = alpha (w_store w) \<Longrightarrow>
       spk_for (alpha (w_store w)) n = Some r \<Longrightarrow> Q r w'"
    and err: "\<And>e w'. invar (w_store w') \<Longrightarrow> alpha (w_store w') = alpha (w_store w) \<Longrightarrow> E e w'"
  shows "wp (signedPreKeyByID M n) Q E w"
  unfolding signedPreKeyByID_def
  by (auto simp: wp_simps M i spk_for_def split: option.split
      intro!: wp_store [OF CurrentSignedPreKey_spec] wp_store [OF StaleSignedPreKey_spec] ok err)

text \<open>
  \<open>getOrCreateSessionForIncoming\<close>: with no key exchange a stored session is needed and nothing
  changes; with one, a signed prekey of ours is named and a one-time prekey is used up.
\<close>

lemma getOrCreateSessionForIncoming_wp:
  assumes M: "m_store M = S" and i: "invar (w_store w)"
    and loaded: "\<And>sess data w'. invar (w_store w') \<Longrightarrow> alpha (w_store w') = alpha (w_store w) \<Longrightarrow>
       rk_KeyExchange key = None \<Longrightarrow> a_sessions (alpha (w_store w)) sender \<noteq> None \<Longrightarrow> Q (sess, data) w'"
    and created: "\<And>sess data kx w'. invar (w_store w') \<Longrightarrow> rk_KeyExchange key = Some kx \<Longrightarrow>
       kx_done (m_protocol M) sender kx (alpha (w_store w)) (alpha (w_store w')) \<Longrightarrow> Q (sess, data) w'"
    and err: "\<And>e w'. invar (w_store w') \<Longrightarrow>
       a_sessions (alpha (w_store w')) = a_sessions (alpha (w_store w)) \<Longrightarrow>
       dec_frame sender (alpha (w_store w)) (alpha (w_store w')) \<Longrightarrow> E e w'"
  shows "wp (getOrCreateSessionForIncoming B M sender key) Q E w"
proof (cases "rk_KeyExchange key")
  case None
  then show ?thesis
    unfolding getOrCreateSessionForIncoming_def
    by (auto simp: wp_simps M i split: option.split
        intro!: wp_store [OF Session_spec] wp_liftE_any loaded err)
next
  case (Some kx)
  then show ?thesis
    unfolding getOrCreateSessionForIncoming_def
    by (auto simp: wp_simps M i split: option.split
        intro!: wp_store [OF ConsumePreKey_spec] wp_store [OF PutRemoteIdentityKey_spec]
          signedPreKeyByID_wp [OF M] wp_liftE_any err dec_frame_consume)
      (auto intro!: created kx_doneI)
qed

text \<open>The whole of \<open>DecryptMessage\<close>, for the key that is addressed to this device.\<close>

lemma DecryptMessage_wp:
  assumes M: "m_store M = S" and i: "invar (w_store w)"
    and key: "find (\<lambda>k. rk_Device k = dev_ID (m_localDevice M)) (em_Keys msg) = Some key"
  shows "wp (DecryptMessage B M msg)
     (\<lambda>pt w'. invar (w_store w') \<and> (em_Payload msg = None \<longrightarrow> pt = None) \<and>
        dec_frame (em_Sender msg) (alpha (w_store w)) (alpha (w_store w')) \<and>
        (case rk_KeyExchange key of
           None \<Rightarrow> a_sessions (alpha (w_store w)) (em_Sender msg) \<noteq> None \<and>
             session_put (em_Sender msg) (alpha (w_store w)) (alpha (w_store w'))
         | Some kx \<Rightarrow> (\<exists>b. kx_done (m_protocol M) (em_Sender msg) kx (alpha (w_store w)) b \<and>
             session_put (em_Sender msg) b (alpha (w_store w')))))
     (\<lambda>e w'. invar (w_store w') \<and>
        dec_frame (em_Sender msg) (alpha (w_store w)) (alpha (w_store w'))) w"
  unfolding DecryptMessage_def key option.case
  by (auto simp: wp_simps M i intro!: getOrCreateSessionForIncoming_wp [OF M] wp_onSession_any
      putSession_wp [OF M] wp_liftE_any)
    (blast intro: dec_frame_session dec_frame_refl dec_frame_done)+

end

end
