(* ===== verification/Manager_PreKeys.thy ===== *)
theory Manager_PreKeys
  imports Manager_Store Manager_Decrypt
begin

text \<open>
  Identity and prekey management: \<open>InitIdentity\<close>, \<open>NewManager\<close>, \<open>Bundle\<close>, the rotation of the
  signed prekey and the generation of one-time prekeys. The pool invariant \<open>pool_ok\<close> says that a
  record is stored under its own identifier and that every identifier in the pool was issued; with
  the store's promise of fresh identifiers, generating prekeys never replaces one.
\<close>

section \<open>The pool invariant\<close>

definition pool_ok :: "astore \<Rightarrow> bool" where
  "pool_ok a \<longleftrightarrow> dom (a_preKeys a) \<subseteq> a_issued a \<and> (\<forall>i r. a_preKeys a i = Some r \<longrightarrow> pkr_ID r = i)"

text \<open>New prekey records \<open>rs\<close>: one identifier each, none issued before.\<close>

definition fresh_recs :: "PreKeyRecord list \<Rightarrow> astore \<Rightarrow> bool" where
  "fresh_recs rs a \<longleftrightarrow> distinct (map pkr_ID rs) \<and> pkr_ID ` set rs \<inter> a_issued a = {}"

text \<open>Identifiers are handed out; nothing else changes.\<close>

definition issue_frame :: "astore \<Rightarrow> astore \<Rightarrow> bool" where
  "issue_frame a a' \<longleftrightarrow> a'\<lparr>a_issued := a_issued a\<rparr> = a \<and> a_issued a \<subseteq> a_issued a'"

definition issue :: "PreKeyRecord list \<Rightarrow> astore \<Rightarrow> astore" where
  "issue rs a = a\<lparr>a_issued := a_issued a \<union> pkr_ID ` set rs\<rparr>"

definition add_prekeys :: "PreKeyRecord list \<Rightarrow> astore \<Rightarrow> astore" where
  "add_prekeys rs a = (issue rs a)\<lparr>a_preKeys := put_recs rs (a_preKeys a)\<rparr>"

lemma issue_frame_refl [simp, intro]: "issue_frame a a"
  by (simp add: issue_frame_def)

lemma issue_frame_trans: "issue_frame a b \<Longrightarrow> issue_frame b c \<Longrightarrow> issue_frame a c"
  unfolding issue_frame_def by (cases a; cases b; cases c) auto

lemma issue_frame_insert [simp, intro]: "issue_frame a (a\<lparr>a_issued := insert i (a_issued a)\<rparr>)"
  by (auto simp: issue_frame_def)

lemma issue_frame_issue [simp, intro]: "issue_frame a (issue rs a)"
  by (auto simp: issue_frame_def issue_def)

lemma issue_Nil [simp]: "issue [] a = a"
  by (simp add: issue_def)

lemma issue_Cons: "issue rs (a\<lparr>a_issued := insert (pkr_ID r) (a_issued a)\<rparr>) = issue (r # rs) a"
  by (simp add: issue_def)

lemma fresh_recs_Nil [simp]: "fresh_recs [] a"
  by (simp add: fresh_recs_def)

lemma fresh_recs_Cons:
  "pkr_ID r \<notin> a_issued a \<Longrightarrow> fresh_recs rs (a\<lparr>a_issued := insert (pkr_ID r) (a_issued a)\<rparr>) \<Longrightarrow>
     fresh_recs (r # rs) a"
  by (auto simp: fresh_recs_def)

lemma pool_ok_issue_frame: "issue_frame a a' \<Longrightarrow> pool_ok a \<Longrightarrow> pool_ok a'"
  by (cases a; cases a') (auto simp: issue_frame_def pool_ok_def)

lemma fresh_disjoint: "pool_ok a \<Longrightarrow> fresh_recs rs a \<Longrightarrow> dom (a_preKeys a) \<inter> pkr_ID ` set rs = {}"
  unfolding pool_ok_def fresh_recs_def by blast

lemma add_prekeys_old:
  "pool_ok a \<Longrightarrow> fresh_recs rs a \<Longrightarrow> a_preKeys a i = Some r \<Longrightarrow> a_preKeys (add_prekeys rs a) i = Some r"
proof -
  assume a: "pool_ok a" "fresh_recs rs a" "a_preKeys a i = Some r"
  then have "i \<notin> pkr_ID ` set rs" using fresh_disjoint [OF a(1,2)] by auto
  with a(3) show ?thesis by (simp add: add_prekeys_def issue_def put_recs_other)
qed

lemma add_prekeys_new:
  "fresh_recs rs a \<Longrightarrow> r \<in> set rs \<Longrightarrow> a_preKeys (add_prekeys rs a) (pkr_ID r) = Some r"
  by (simp add: add_prekeys_def issue_def fresh_recs_def put_recs_member)

lemma dom_add_prekeys: "dom (a_preKeys (add_prekeys rs a)) = dom (a_preKeys a) \<union> pkr_ID ` set rs"
  by (simp add: add_prekeys_def issue_def dom_put_recs)

lemma put_recs_cases:
  "put_recs rs m i = Some r \<Longrightarrow> m i = Some r \<or> r \<in> set rs \<and> pkr_ID r = i"
proof (induction rs arbitrary: m)
  case (Cons x rs)
  from Cons.prems have "put_recs rs (m(pkr_ID x \<mapsto> x)) i = Some r" by simp
  from Cons.IH [OF this] show ?case by (auto split: if_splits)
qed simp

lemma pool_ok_add_prekeys: "pool_ok a \<Longrightarrow> pool_ok (add_prekeys rs a)"
  unfolding pool_ok_def dom_add_prekeys
  by (auto simp: add_prekeys_def issue_def dest!: put_recs_cases)

lemma card_add_prekeys:
  assumes "pool_ok a" and "fresh_recs rs a" and "finite (dom (a_preKeys a))"
  shows "card (dom (a_preKeys (add_prekeys rs a))) = card (dom (a_preKeys a)) + length rs"
proof -
  note fresh_disjoint [OF assms(1,2)]
  moreover have "card (pkr_ID ` set rs) = length rs"
    using assms(2) by (metis distinct_card fresh_recs_def length_map list.set_map)
  ultimately show ?thesis
    using assms(3) by (simp add: dom_add_prekeys card_Un_disjoint)
qed

lemma pool_ok_consume: "pool_ok a \<Longrightarrow> pool_ok (a\<lparr>a_preKeys := (a_preKeys a)(i := None)\<rparr>)"
  by (auto simp: pool_ok_def split: if_splits)

text \<open>Initialisation: identity and device, the first signed prekey, then a hundred one-time prekeys.\<close>

definition init_step :: "slice \<Rightarrow> Device \<Rightarrow> SignedPreKeyRecord \<Rightarrow> astore \<Rightarrow> astore" where
  "init_step key dev spk a = rotate_spk spk (a\<lparr>a_identityKey := key, a_localDevice := dev\<rparr>)"

definition initialised ::
  "('e, 'dr, 'ls, 'x) backend \<Rightarrow> Protocol \<Rightarrow> Device \<Rightarrow> astore \<Rightarrow> astore \<Rightarrow> bool" where
  "initialised B p dev a a' \<longleftrightarrow> (\<exists>key spk rs e e'. GenerateIdentityKey B p e = (Inr key, e') \<and>
     spr_ID spk = 1 \<and> length rs = 100 \<and> fresh_recs rs a \<and> a' = add_prekeys rs (init_step key dev spk a))"

definition inited :: "slice \<Rightarrow> Device \<Rightarrow> astore \<Rightarrow> astore \<Rightarrow> bool" where
  "inited key dev a b \<longleftrightarrow> (\<exists>spk. spr_ID spk = 1 \<and> b = init_step key dev spk a)"

lemma initedI:
  "b = rotate_spk spk (a\<lparr>a_identityKey := key, a_localDevice := dev\<rparr>) \<Longrightarrow> spr_ID spk = 1 \<Longrightarrow> inited key dev a b"
  by (auto simp: inited_def init_step_def)

lemma inited_issued: "inited key dev a b \<Longrightarrow> a_issued b = a_issued a"
  by (auto simp: inited_def init_step_def rotate_spk_def)

lemma initialisedI:
  assumes "GenerateIdentityKey B p e = (Inr key, e')" and "inited key dev a b"
    and "int (length rs) = 100" and "fresh_recs rs b" and "a' = add_prekeys rs b"
  shows "initialised B p dev a a'"
proof -
  from assms(2) obtain spk where spk: "spr_ID spk = 1" "b = init_step key dev spk a" by (auto simp: inited_def)
  have "fresh_recs rs a" using assms(4) inited_issued [OF assms(2)] by (simp add: fresh_recs_def)
  with assms spk show ?thesis
    unfolding initialised_def
    by (intro exI [of _ key] exI [of _ spk] exI [of _ rs] exI [of _ e] exI [of _ e']) auto
qed

section \<open>Clients of the contract\<close>

context omemo_store
begin

lemma NextPreKeyID_wp:
  assumes "invar (w_store w)" and "card (a_issued (alpha (w_store w))) < 2 ^ 32 - 1"
    and "\<And>n s. invar s \<Longrightarrow> n \<notin> a_issued (alpha (w_store w)) \<Longrightarrow>
       alpha s = (alpha (w_store w))\<lparr>a_issued := insert n (a_issued (alpha (w_store w)))\<rparr> \<Longrightarrow>
       Q n (w\<lparr>w_store := s\<rparr>)"
    and "\<And>e s. invar s \<Longrightarrow> alpha s = alpha (w_store w) \<Longrightarrow> E e (w\<lparr>w_store := s\<rparr>)"
  shows "wp (liftS (NextPreKeyID S)) Q E w"
  using assms(1) by (rule wp_store [OF NextPreKeyID_spec]) (use assms(2-4) in auto)

text \<open>The loop allocates one fresh identifier a round.\<close>

lemma generateLoop_wp:
  "invar (w_store w) \<Longrightarrow> card (a_issued (alpha (w_store w))) + k < 2 ^ 32 \<Longrightarrow>
   wp (generateLoop B S k recs)
     (\<lambda>recs' w'. \<exists>rs. recs' = recs @ rs \<and> length rs = k \<and> invar (w_store w') \<and>
        fresh_recs rs (alpha (w_store w)) \<and> alpha (w_store w') = issue rs (alpha (w_store w)))
     (\<lambda>e w'. invar (w_store w') \<and> issue_frame (alpha (w_store w)) (alpha (w_store w'))) w"
proof (induction k arbitrary: recs w)
  case 0
  then show ?case by (simp add: wp_ret)
next
  case (Suc k)
  have step: "wp (generateLoop B S k (recs @ [r]))
     (\<lambda>recs' w'. \<exists>rs. recs' = recs @ rs \<and> length rs = Suc k \<and> invar (w_store w') \<and>
        fresh_recs rs (alpha (w_store w)) \<and> alpha (w_store w') = issue rs (alpha (w_store w)))
     (\<lambda>e w'. invar (w_store w') \<and> issue_frame (alpha (w_store w)) (alpha (w_store w'))) w1"
    if n: "pkr_ID r \<notin> a_issued (alpha (w_store w))" and i: "invar (w_store w1)"
      and a: "alpha (w_store w1) = (alpha (w_store w))\<lparr>a_issued := insert (pkr_ID r) (a_issued (alpha (w_store w)))\<rparr>"
    for w1 r
  proof -
    from n a Suc.prems have "card (a_issued (alpha (w_store w1))) + k < 2 ^ 32" by simp
    from Suc.IH [OF i this, of "recs @ [r]"] show ?thesis
    proof (rule wp_mono, goal_cases)
      case (1 recs' w2)
      then obtain rs where rs: "recs' = (recs @ [r]) @ rs" "length rs = k" "invar (w_store w2)"
        "fresh_recs rs (alpha (w_store w1))" "alpha (w_store w2) = issue rs (alpha (w_store w1))" by blast
      with n a show ?case
        by (intro exI [of _ "r # rs"]) (auto simp: issue_Cons intro!: fresh_recs_Cons)
    next
      case (2 e w2)
      with a show ?case by (auto intro: issue_frame_trans [OF issue_frame_insert])
    qed
  qed
  show ?case
    unfolding generateLoop.simps wp_andThen wp_wrapErr
    using Suc.prems
    by (intro NextPreKeyID_wp wp_liftE_any) (auto simp: wp_simps split: prod.split intro!: step)
qed

lemma generateOneTimePreKeys_wp:
  assumes i: "invar (w_store w)" and n: "0 \<le> n"
    and c: "card (a_issued (alpha (w_store w))) + nat n < 2 ^ 32"
  shows "wp (generateOneTimePreKeys B S n)
     (\<lambda>_ w'. \<exists>rs. int (length rs) = n \<and> invar (w_store w') \<and> fresh_recs rs (alpha (w_store w)) \<and>
        alpha (w_store w') = add_prekeys rs (alpha (w_store w)))
     (\<lambda>e w'. invar (w_store w') \<and> issue_frame (alpha (w_store w)) (alpha (w_store w'))) w"
proof -
  from n c have "\<not> (n < 0 \<or> max_prekeys < n)" by simp
  then have eq: "generateOneTimePreKeys B S n =
      andThen (generateLoop B S (nat n) []) (\<lambda>recs. liftS (PutPreKeys S recs))"
    unfolding generateOneTimePreKeys_def by (rule if_not_P)
  show ?thesis
    unfolding eq wp_andThen
  proof (rule wp_mono [OF generateLoop_wp [OF i c]], goal_cases)
    case (1 recs w1)
    then show ?case
      using n by (intro wp_store [OF PutPreKeys_spec])
        (auto intro!: exI [of _ recs] simp: add_prekeys_def issue_def issue_frame_def)
  qed simp_all
qed

text \<open>\<open>InitIdentity\<close>: the identity, the device, the first signed prekey and the first pool.\<close>

lemma InitIdentity_wp:
  assumes i: "invar (w_store w)" and c: "card (a_issued (alpha (w_store w))) + 100 < 2 ^ 32"
  shows "wp (InitIdentity B S jid d p)
     (\<lambda>_ w'. invar (w_store w') \<and> initialised B p \<lparr>dev_JID = jid, dev_ID = d\<rparr>
        (alpha (w_store w)) (alpha (w_store w'))) (\<lambda>_ _. True) w"
proof -
  let ?dev = "\<lparr>dev_JID = jid, dev_ID = d\<rparr>"
  have pool: "wp (generateOneTimePreKeys B S DefaultPreKeyCount)
      (\<lambda>_ w'. invar (w_store w') \<and> initialised B p ?dev (alpha (w_store w)) (alpha (w_store w')))
      (\<lambda>_ _. True) w1"
    if "GenerateIdentityKey B p e = (Inr key, e')" and "invar (w_store w1)"
      and a: "inited key ?dev (alpha (w_store w)) (alpha (w_store w1))" for w1 key e e'
  proof -
    have c1: "card (a_issued (alpha (w_store w1))) + nat DefaultPreKeyCount < 2 ^ 32"
      using c by (simp add: inited_issued [OF a] DefaultPreKeyCount_def)
    show ?thesis
      by (rule wp_mono [OF generateOneTimePreKeys_wp [OF that(2) _ c1]])
        (use that in \<open>auto simp: DefaultPreKeyCount_def intro: initialisedI\<close>)
  qed
  show ?thesis
    unfolding InitIdentity_def wp_andThen wp_wrapErr
  proof (rule wp_liftE_run, goal_cases)
    case (1 key e)
    show ?case
      using i
      by (auto simp: wp_simps split: prod.split
          intro!: wp_store [OF SetIdentityKeyPair_spec] wp_store [OF SetLocalDevice_spec] wp_liftE_any
            wp_store [OF RotateSignedPreKey_spec] pool [OF 1])
        (auto intro: initedI)
  qed simp
qed

end

end
