(* ===== verification/Properties_Decrypt.thy ===== *)
theory Properties_Decrypt
  imports Manager_Decrypt Manager_PreKeys Omemo_Fake
begin

text \<open>
  The properties of decryption, for a manager over the in-memory store, with every transport and
  every backend: when a message is refused, what a key exchange uses up, what a message can change.
\<close>

section \<open>From the contract to runs on the in-memory store\<close>

definition own_key :: "('s, 'e) Manager \<Rightarrow> EncryptedMessage \<Rightarrow> RecipientKey option" where
  "own_key M msg = find (\<lambda>k. rk_Device k = dev_ID (m_localDevice M)) (em_Keys msg)"

lemma DecryptMessage_no_key: "own_key M msg = None \<Longrightarrow> DecryptMessage B M msg w = (Inl ErrOwnDeviceKeyMissing, w)"
  by (simp add: DecryptMessage_def own_key_def act_simps)

lemma DecryptMessage_facts:
  assumes "m_store M = MemStore_Store" and "ms_inv (w_store w)" and "DecryptMessage B M msg w = (r, w')"
  shows "ms_inv (w_store w')" and "dec_frame (em_Sender msg) (ms_abs (w_store w)) (ms_abs (w_store w'))"
proof -
  have "ms_inv (w_store w') \<and> dec_frame (em_Sender msg) (ms_abs (w_store w)) (ms_abs (w_store w'))"
  proof (cases "own_key M msg")
    case None
    with assms(2,3) show ?thesis by (simp add: DecryptMessage_no_key)
  next
    case (Some key)
    with memstore.DecryptMessage_wp [OF assms(1,2), of msg key B] assms(3) show ?thesis
      by (cases r) (auto simp: wp_def own_key_def)
  qed
  then show "ms_inv (w_store w')" and "dec_frame (em_Sender msg) (ms_abs (w_store w)) (ms_abs (w_store w'))"
    by simp_all
qed

text \<open>What a decrypted key exchange of protocol v2 did to the store.\<close>

lemma DecryptMessage_consumes:
  assumes "m_store M = MemStore_Store" and "ms_inv (w_store w)" and "m_protocol M \<noteq> ProtocolV1"
    and "own_key M msg = Some key" and "rk_KeyExchange key = Some kx"
    and "DecryptMessage B M msg w = (Inr pt, w')"
  shows "spk_for (ms_abs (w_store w)) (kx_SignedPreKeyID kx) \<noteq> None"
    and "map_of (ms_preKeys (w_store w)) (kx_PreKeyID kx) \<noteq> None"
    and "map_of (ms_preKeys (w_store w')) = (map_of (ms_preKeys (w_store w)))(kx_PreKeyID kx := None)"
    and "ms_remoteID (w_store w') (em_Sender msg) = Some (kx_IdentityKey kx)"
    and "ms_sessions (w_store w') (em_Sender msg) \<noteq> None"
proof -
  from wp_run_Inr [OF memstore.DecryptMessage_wp [OF assms(1,2) assms(4) [unfolded own_key_def]] assms(6)]
  obtain b where b: "kx_done (m_protocol M) (em_Sender msg) kx (ms_abs (w_store w)) b"
    "session_put (em_Sender msg) b (ms_abs (w_store w'))" using assms(5) by auto
  from b(2) obtain x where x: "ms_abs (w_store w') = b\<lparr>a_sessions := (a_sessions b)(em_Sender msg \<mapsto> x)\<rparr>"
    by (auto simp: session_put_def)
  have "a_preKeys (ms_abs (w_store w')) = a_preKeys b" "a_remoteID (ms_abs (w_store w')) = a_remoteID b"
    "a_sessions (ms_abs (w_store w')) (em_Sender msg) = Some x" by (simp_all add: x)
  with b(1) assms(3) show "spk_for (ms_abs (w_store w)) (kx_SignedPreKeyID kx) \<noteq> None"
    and "map_of (ms_preKeys (w_store w)) (kx_PreKeyID kx) \<noteq> None"
    and "map_of (ms_preKeys (w_store w')) = (map_of (ms_preKeys (w_store w)))(kx_PreKeyID kx := None)"
    and "ms_remoteID (w_store w') (em_Sender msg) = Some (kx_IdentityKey kx)"
    and "ms_sessions (w_store w') (em_Sender msg) \<noteq> None"
    by (auto simp: kx_done_def kx_step_def)
qed

text \<open>The key of the example message, and the worlds of its witnesses.\<close>

lemma ex_own_key:
  "\<exists>key kx. own_key (ex_manager ProtocolV2 ''b'' 2) (ex_msg ProtocolV2) = Some key \<and>
     rk_KeyExchange key = Some kx \<and> kx_PreKeyID kx = 5 \<and> kx_SignedPreKeyID kx = 1 \<and>
     kx_IdentityKey kx = Some (replicate 32 3)"
proof -
  have "case own_key (ex_manager ProtocolV2 ''b'' 2) (ex_msg ProtocolV2) of None \<Rightarrow> False
     | Some key \<Rightarrow> (case rk_KeyExchange key of None \<Rightarrow> False | Some kx \<Rightarrow> kx_PreKeyID kx = 5 \<and>
         kx_SignedPreKeyID kx = 1 \<and> kx_IdentityKey kx = Some (replicate 32 3))"
    by code_simp
  then show ?thesis by (auto split: option.splits)
qed

lemma ex_sender: "em_Sender (ex_msg ProtocolV2) = \<lparr>dev_JID = ''a'', dev_ID = 1\<rparr>"
  by code_simp

lemma ex_world_free [simp]: "lock_free dev (ex_world jid b)"
  by (simp add: lock_free_def ex_world_def)

lemma own_key_drop_kx:
  "own_key M msg = Some key \<Longrightarrow> own_key M (drop_kx msg) = Some (key\<lparr>rk_KeyExchange := None\<rparr>)"
proof -
  have "find P (map (\<lambda>k. k\<lparr>rk_KeyExchange := None\<rparr>) ks) = map_option (\<lambda>k. k\<lparr>rk_KeyExchange := None\<rparr>) (find P ks)"
    if "\<And>k. P (k\<lparr>rk_KeyExchange := None\<rparr>) = P k" for P and ks :: "RecipientKey list"
    using that by (induction ks) auto
  then show "own_key M msg = Some key \<Longrightarrow> own_key M (drop_kx msg) = Some (key\<lparr>rk_KeyExchange := None\<rparr>)"
    by (simp add: own_key_def drop_kx_def)
qed

text \<open>\<open>b\<close> after the first message: a second one comes in the session, without a key exchange.\<close>

definition ex_again :: "(goerror + slice) \<times> (MemStore, fakeEnv) world" where
  "ex_again = DecryptMessage stub (ex_manager ProtocolV2 ''b'' 2)
     ((drop_kx (ex_msg ProtocolV2))\<lparr>em_Payload := None\<rparr>) (snd (ex_received ProtocolV2))"

lemma ex_again_ok: "fst ex_again = Inr None"
  by code_simp

section \<open>What a message may change\<close>

text \<open>
  C31. Decrypting a message, whatever it holds and whether or not it can be decrypted, changes at most
  the session and the recorded identity key of the sending device, and removes at most one one-time
  prekey: no trust decision, no other device's session, no device list, no identity or signed prekey.
\<close>

theorem DecryptMessage_frame:
  assumes "m_store M = MemStore_Store" and "ms_inv (w_store w)" and "DecryptMessage B M msg w = (r, w')"
  shows "ms_inv (w_store w') \<and> dec_frame (em_Sender msg) (ms_abs (w_store w)) (ms_abs (w_store w'))"
  using DecryptMessage_facts [OF assms] by simp

theorem DecryptMessage_frame_witness:
  "dec_frame \<lparr>dev_JID = ''a'', dev_ID = 1\<rparr> (ms_abs (w_store (ex_world ''b'' 2)))
     (ms_abs (w_store (snd (ex_received ProtocolV2))))"
  using DecryptMessage_frame [OF _ _ ex_received_run] by (simp add: ex_sender)

text \<open>
  C15. A decrypted message that carries a key exchange (protocol v2) named one of our signed prekeys,
  the current or the stale one, and a one-time prekey in the pool; that one-time prekey is gone
  afterwards, the others are kept, the identity key of the key exchange is recorded for the sender,
  and a session with the sender is stored.
\<close>

theorem DecryptMessage_key_exchange:
  assumes "m_store M = MemStore_Store" and "ms_inv (w_store w)" and "m_protocol M \<noteq> ProtocolV1"
    and "own_key M msg = Some key" and "rk_KeyExchange key = Some kx"
    and "DecryptMessage B M msg w = (Inr pt, w')"
  shows "spk_for (ms_abs (w_store w)) (kx_SignedPreKeyID kx) \<noteq> None \<and>
     map_of (ms_preKeys (w_store w)) (kx_PreKeyID kx) \<noteq> None \<and>
     map_of (ms_preKeys (w_store w')) = (map_of (ms_preKeys (w_store w)))(kx_PreKeyID kx := None) \<and>
     ms_remoteID (w_store w') (em_Sender msg) = Some (kx_IdentityKey kx) \<and>
     ms_sessions (w_store w') (em_Sender msg) \<noteq> None"
  using DecryptMessage_consumes [OF assms] by simp

theorem DecryptMessage_key_exchange_witness:
  "map_of (ms_preKeys (w_store (ex_world ''b'' 2))) 5 \<noteq> None \<and>
   map_of (ms_preKeys (w_store (snd (ex_received ProtocolV2)))) 5 = None \<and>
   ms_remoteID (w_store (snd (ex_received ProtocolV2))) \<lparr>dev_JID = ''a'', dev_ID = 1\<rparr> = Some (Some (replicate 32 3))"
proof -
  obtain key kx where k: "own_key (ex_manager ProtocolV2 ''b'' 2) (ex_msg ProtocolV2) = Some key"
    "rk_KeyExchange key = Some kx" "kx_PreKeyID kx = 5" "kx_IdentityKey kx = Some (replicate 32 3)"
    using ex_own_key by blast
  from DecryptMessage_key_exchange [OF _ _ _ k(1,2) ex_received_run] k(3,4) show ?thesis
    by (simp add: ex_sender)
qed

text \<open>
  C32. A decrypted message without a key exchange had a session of its sender to be decrypted with;
  no one-time prekey is used up, and only that session changes. A message without payload gives a
  nil plaintext, with or without a key exchange.
\<close>

theorem DecryptMessage_existing_session:
  assumes "m_store M = MemStore_Store" and "ms_inv (w_store w)"
    and "own_key M msg = Some key" and "rk_KeyExchange key = None"
    and "DecryptMessage B M msg w = (Inr pt, w')"
  shows "ms_sessions (w_store w) (em_Sender msg) \<noteq> None \<and>
     session_put (em_Sender msg) (ms_abs (w_store w)) (ms_abs (w_store w')) \<and>
     (em_Payload msg = None \<longrightarrow> pt = None)"
  using wp_run_Inr [OF memstore.DecryptMessage_wp [OF assms(1,2) assms(3) [unfolded own_key_def]] assms(5)] assms(4)
  by auto

theorem DecryptMessage_existing_session_witness:
  "ms_sessions (w_store (snd (ex_received ProtocolV2))) \<lparr>dev_JID = ''a'', dev_ID = 1\<rparr> \<noteq> None \<and>
   fst ex_again = Inr None"
proof -
  let ?msg = "(drop_kx (ex_msg ProtocolV2))\<lparr>em_Payload := None\<rparr>"
  obtain key where k: "own_key (ex_manager ProtocolV2 ''b'' 2) (ex_msg ProtocolV2) = Some key"
    using ex_own_key by blast
  from own_key_drop_kx [OF k] have
    "own_key (ex_manager ProtocolV2 ''b'' 2) ?msg = Some (key\<lparr>rk_KeyExchange := None\<rparr>)"
    by (simp add: own_key_def)
  moreover have "DecryptMessage stub (ex_manager ProtocolV2 ''b'' 2) ?msg (snd (ex_received ProtocolV2)) =
      (Inr None, snd ex_again)"
    using ex_again_ok by (simp add: ex_again_def prod_eq_iff)
  moreover have "ms_inv (w_store (snd (ex_received ProtocolV2)))"
    using DecryptMessage_facts(1) [OF _ _ ex_received_run] by simp
  ultimately show ?thesis
    using DecryptMessage_existing_session [of "ex_manager ProtocolV2 ''b'' 2"] ex_sender ex_again_ok
    by (fastforce simp: drop_kx_def)
qed

section \<open>Refusals\<close>

text \<open>
  C35. A message with no key for this device is refused with \<open>ErrOwnDeviceKeyMissing\<close>, with no effect
  on the store, the environment or the locks; a message with one is handled as if that key, the
  first with this device's identifier, were the only one in it.
\<close>

theorem DecryptMessage_own_key:
  "DecryptMessage B M msg =
     (case own_key M msg of
        None \<Rightarrow> throw ErrOwnDeviceKeyMissing
      | Some key \<Rightarrow> DecryptMessage B M (msg\<lparr>em_Keys := [key]\<rparr>))"
proof (cases "own_key M msg")
  case (Some key)
  then have "rk_Device key = dev_ID (m_localDevice M)" by (auto simp: own_key_def find_Some_iff)
  with Some show ?thesis by (simp add: DecryptMessage_def own_key_def cong: if_cong)
qed (simp add: DecryptMessage_def own_key_def)

text \<open>
  C33. A message without a key exchange from a device we hold no session with fails with an error that
  \<open>errors.Is\<close> finds to be \<open>ErrUnknownSession\<close>, and neither the store nor the environment changes.
\<close>

theorem DecryptMessage_unknown_session:
  assumes "m_store M = MemStore_Store" and "lock_free (em_Sender msg) w"
    and "own_key M msg = Some key" and "rk_KeyExchange key = None"
    and "ms_sessions (w_store w) (em_Sender msg) = None"
  shows "\<exists>e w'. DecryptMessage B M msg w = (Inl e, w') \<and> errors_Is e ErrUnknownSession \<and>
     w_store w' = w_store w \<and> w_env w' = w_env w"
  using assms unfolding DecryptMessage_def own_key_def getOrCreateSessionForIncoming_def
  by (simp add: act_simps liftS_def ms_defs wrapped_def lock_free_def)

theorem DecryptMessage_unknown_session_witness:
  "\<exists>e w'. DecryptMessage stub (ex_manager ProtocolV2 ''b'' 2) (drop_kx (ex_msg ProtocolV2))
     (ex_world ''b'' 2) = (Inl e, w') \<and> errors_Is e ErrUnknownSession"
proof -
  obtain key where "own_key (ex_manager ProtocolV2 ''b'' 2) (ex_msg ProtocolV2) = Some key"
    using ex_own_key by blast
  from DecryptMessage_unknown_session [OF _ _ own_key_drop_kx [OF this], of "ex_world ''b'' 2" stub]
  show ?thesis by (auto simp: ex_world_def ex_store_def ms_New_def lock_free_def)
qed

text \<open>
  A key exchange (protocol v2) for a one-time prekey that is not in the pool fails, with the
  store unchanged: no session is created, and the recorded identity key of the sender stays.
\<close>

theorem DecryptMessage_unknown_prekey:
  assumes "m_store M = MemStore_Store" and "m_protocol M \<noteq> ProtocolV1"
    and "own_key M msg = Some key" and "rk_KeyExchange key = Some kx"
    and "map_of (ms_preKeys (w_store w)) (kx_PreKeyID kx) = None"
  shows "\<exists>e w'. DecryptMessage B M msg w = (Inl e, w') \<and> w_store w' = w_store w \<and> w_env w' = w_env w"
  using assms unfolding DecryptMessage_def own_key_def getOrCreateSessionForIncoming_def signedPreKeyByID_def
  by (simp add: act_simps liftS_def ms_defs wrapped_def split: option.split)

theorem DecryptMessage_unknown_prekey_witness:
  "\<exists>e w'. DecryptMessage stub (ex_manager ProtocolV2 ''b'' 2) (ex_msg ProtocolV2)
     (snd (ex_received ProtocolV2)) = (Inl e, w') \<and> w_store w' = w_store (snd (ex_received ProtocolV2))"
proof -
  obtain key kx where k: "own_key (ex_manager ProtocolV2 ''b'' 2) (ex_msg ProtocolV2) = Some key"
    "rk_KeyExchange key = Some kx" "kx_PreKeyID kx = 5" using ex_own_key by blast
  have "map_of (ms_preKeys (w_store (snd (ex_received ProtocolV2)))) 5 = None" by code_simp
  with DecryptMessage_unknown_prekey [OF _ _ k(1,2), of "snd (ex_received ProtocolV2)" stub] k(3)
  show ?thesis by auto
qed

text \<open>
  C34. The error of the in-memory store for an unknown one-time prekey is not \<open>ErrPreKeyNotFound\<close>:
  \<open>errors.Is\<close> does not find that sentinel in the error \<open>DecryptMessage\<close> returns, so a caller cannot
  tell this case as the comment of \<open>ErrPreKeyNotFound\<close> says.
\<close>

theorem DecryptMessage_unknown_prekey_error:
  assumes "m_store M = MemStore_Store" and "m_protocol M \<noteq> ProtocolV1" and "lock_free (em_Sender msg) w"
    and "own_key M msg = Some key" and "rk_KeyExchange key = Some kx"
    and "spk_for (ms_abs (w_store w)) (kx_SignedPreKeyID kx) \<noteq> None"
    and "map_of (ms_preKeys (w_store w)) (kx_PreKeyID kx) = None"
  shows "let n = fmt_d (kx_PreKeyID kx);
             e = Wrap ''establish session'' (Wrap (''consume one-time prekey '' @ n)
                   (Errorf (''one-time prekey '' @ n @ '' not found'')))
         in fst (DecryptMessage B M msg w) = Inl e \<and> \<not> errors_Is e ErrPreKeyNotFound"
  using assms unfolding DecryptMessage_def own_key_def getOrCreateSessionForIncoming_def signedPreKeyByID_def
  by (auto simp: act_simps liftS_def ms_defs wrapped_def lock_free_def spk_for_def Let_def split: option.splits if_splits)

theorem DecryptMessage_unknown_prekey_error_witness:
  "\<exists>e. fst (DecryptMessage stub (ex_manager ProtocolV2 ''b'' 2) (ex_msg ProtocolV2)
     (snd (ex_received ProtocolV2))) = Inl e \<and> \<not> errors_Is e ErrPreKeyNotFound"
proof -
  let ?w = "snd (ex_received ProtocolV2)"
  obtain key kx where k: "own_key (ex_manager ProtocolV2 ''b'' 2) (ex_msg ProtocolV2) = Some key"
    "rk_KeyExchange key = Some kx" "kx_PreKeyID kx = 5" "kx_SignedPreKeyID kx = 1" using ex_own_key by blast
  have "map_of (ms_preKeys (w_store ?w)) 5 = None" by code_simp
  moreover have "spr_ID (ms_currentSPK (w_store ?w)) = 1" by code_simp
  moreover have "w_held ?w = {}"
    using stableD [OF DecryptMessage_held, of "ex_world ''b'' 2" stub "ex_manager ProtocolV2 ''b'' 2" "ex_msg ProtocolV2"]
    by (simp add: ex_received_def same_def ex_world_def)
  ultimately show ?thesis
    using DecryptMessage_unknown_prekey_error [of "ex_manager ProtocolV2 ''b'' 2", OF _ _ _ k(1,2), of ?w stub] k(3,4)
    by (simp add: lock_free_def spk_for_def Let_def)
qed

end
