(* ===== verification/Manager_Calls.thy ===== *)
theory Manager_Calls
  imports Manager_Encrypt Manager_Decrypt Manager_PreKeys
begin

text \<open>
  Sequences of calls. \<open>call\<close> lists what an application does with a manager and its store, one
  constructor per exported operation; \<open>run_call\<close> is the world after the call, whatever it
  returned, and \<open>reaches\<close> the worlds that sequences of calls lead to. The relation \<open>call_rel\<close> holds
  between the abstract stores before and after every call: the identity is kept, and the pool of
  one-time prekeys never takes back an identifier it gave out.
\<close>

section \<open>Calls\<close>

datatype call =
    CallEncrypt string slice
  | CallKeyTransport string
  | CallDecrypt EncryptedMessage
  | CallReset Device
  | CallSync string
  | CallGenerate int
  | CallRotate
  | CallBundle
  | CallPublish
  | CallNeedsMore
  | CallSetTrust slice TrustState
  | CallSetDevices string "DeviceID list"

fun run_call ::
  "('e, 'dr, 'ls, 'x) backend \<Rightarrow> ('s, 'e) Manager \<Rightarrow> call \<Rightarrow> ('s, 'e) world \<Rightarrow> ('s, 'e) world" where
  "run_call B M (CallEncrypt jid pt) w = snd (EncryptMessage B M jid pt w)"
| "run_call B M (CallKeyTransport jid) w = snd (EncryptKeyTransport B M jid w)"
| "run_call B M (CallDecrypt msg) w = snd (DecryptMessage B M msg w)"
| "run_call B M (CallReset dev) w = snd (ResetSession M dev w)"
| "run_call B M (CallSync jid) w = snd (SyncDevices M jid w)"
| "run_call B M (CallGenerate n) w = snd (GenerateOneTimePreKeys B M n w)"
| "run_call B M CallRotate w = snd (Manager_RotateSignedPreKey B M w)"
| "run_call B M CallBundle w = snd (Manager_Bundle B M w)"
| "run_call B M CallPublish w = snd (Manager_PublishBundle B M w)"
| "run_call B M CallNeedsMore w = snd (NeedsMorePreKeys M w)"
| "run_call B M (CallSetTrust k t) w = snd (liftS (SetTrust (m_store M) k t) w)"
| "run_call B M (CallSetDevices jid ds) w = snd (liftS (SetDevices (m_store M) jid ds) w)"

text \<open>Prekey identifiers are 32 bits wide: a call may not run the counter past its end.\<close>

fun call_ok :: "('s \<Rightarrow> astore) \<Rightarrow> call \<Rightarrow> ('s, 'e) world \<Rightarrow> bool" where
  "call_ok alpha (CallGenerate n) w = (card (a_issued (alpha (w_store w))) + nat n < 2 ^ 32)"
| "call_ok alpha c w = True"

text \<open>The worlds that sequences of calls lead to, each call permitted by \<open>ok\<close> where it is made.\<close>

inductive reaches ::
  "(call \<Rightarrow> ('s, 'e) world \<Rightarrow> bool) \<Rightarrow> ('e, 'dr, 'ls, 'x) backend \<Rightarrow> ('s, 'e) Manager \<Rightarrow>
     ('s, 'e) world \<Rightarrow> ('s, 'e) world \<Rightarrow> bool" for ok B M w where
  here: "reaches ok B M w w"
| step: "reaches ok B M w w' \<Longrightarrow> ok c w' \<Longrightarrow> reaches ok B M w (run_call B M c w')"

text \<open>The application makes no trust decision itself.\<close>

fun decides_no_trust :: "call \<Rightarrow> bool" where
  "decides_no_trust (CallSetTrust k t) = False"
| "decides_no_trust c = True"

section \<open>The relation every call keeps\<close>

text \<open>The pool stays well formed, and an identifier that was issued and is gone stays gone.\<close>

definition pool_step :: "astore \<Rightarrow> astore \<Rightarrow> bool" where
  "pool_step a a' \<longleftrightarrow> a_issued a \<subseteq> a_issued a' \<and> (pool_ok a \<longrightarrow> pool_ok a' \<and>
     (\<forall>i \<in> a_issued a. a_preKeys a i = None \<longrightarrow> a_preKeys a' i = None))"

definition call_rel :: "astore \<Rightarrow> astore \<Rightarrow> bool" where
  "call_rel a a' \<longleftrightarrow> pool_step a a' \<and> a_identityKey a' = a_identityKey a \<and> a_localDevice a' = a_localDevice a"

lemma frame_rel_call_rel [simp, intro]: "frame_rel call_rel"
  unfolding frame_rel_def
proof
  show "reflp call_rel" by (auto simp: call_rel_def pool_step_def intro: reflpI)
  show "transp call_rel"
  proof (rule transpI)
    fix a b c assume "call_rel a b" "call_rel b c"
    then show "call_rel a c" unfolding call_rel_def pool_step_def by (simp, blast)
  qed
qed

text \<open>Trust decisions: an undecided key may become trusted, a blocked one stays blocked.\<close>

definition trust_rel :: "astore \<Rightarrow> astore \<Rightarrow> bool" where
  "trust_rel a a' \<longleftrightarrow> (\<forall>k. a_trust a' k = a_trust a k \<or>
     a_trust a' k = TrustTrusted \<and> a_trust a k \<noteq> TrustUntrusted)"

lemma frame_rel_trust_rel [simp, intro]: "frame_rel trust_rel"
  unfolding frame_rel_def
proof
  show "reflp trust_rel" by (auto simp: trust_rel_def intro: reflpI)
  show "transp trust_rel"
  proof (rule transpI)
    fix a b c assume "trust_rel a b" "trust_rel b c"
    then show "trust_rel a c" unfolding trust_rel_def by metis
  qed
qed

lemma trust_rel_same: "a_trust a' = a_trust a \<Longrightarrow> trust_rel a a'"
  by (simp add: trust_rel_def)

lemma trust_rel_trans: "trust_rel a b \<Longrightarrow> trust_rel b c \<Longrightarrow> trust_rel a c"
  using frame_rel_trust_rel by (auto simp: frame_rel_def dest: transpD)

lemma trust_rel_send: "send_frame J a a' \<Longrightarrow> trust_rel a a'"
  by (simp add: send_frame_def trust_rel_def)

lemma trust_rel_frames:
  "dec_frame d a a' \<Longrightarrow> trust_rel a a'" "issue_frame a a' \<Longrightarrow> trust_rel a a'"
  "trust_rel a (add_prekeys rs a)"
  by (cases a; cases a'; auto simp: dec_frame_def issue_frame_def add_prekeys_def issue_def
      intro!: trust_rel_same)+

lemma call_rel_refl [simp, intro]: "call_rel a a"
  by (simp add: call_rel_def pool_step_def)

lemma call_rel_trans: "call_rel a b \<Longrightarrow> call_rel b c \<Longrightarrow> call_rel a c"
  using frame_rel_call_rel by (auto simp: frame_rel_def dest: transpD)

lemma call_rel_steps:
  "call_rel a (a\<lparr>a_sessions := f\<rparr>)" "call_rel a (a\<lparr>a_trust := g\<rparr>)" "call_rel a (a\<lparr>a_devices := h\<rparr>)"
  "call_rel a (rotate_spk r a)"
  by (auto simp: call_rel_def pool_step_def pool_ok_def rotate_spk_def)

lemma call_rel_send: "send_frame J a a' \<Longrightarrow> call_rel a a'"
  by (cases a; cases a') (auto simp: send_frame_def call_rel_def pool_step_def pool_ok_def)

lemma call_rel_dec: "dec_frame d a a' \<Longrightarrow> call_rel a a'"
  by (cases a; cases a')
    (auto simp: dec_frame_def call_rel_def pool_step_def pool_ok_def split: if_splits)

lemma call_rel_issue: "issue_frame a a' \<Longrightarrow> call_rel a a'"
  by (cases a; cases a') (auto simp: issue_frame_def call_rel_def pool_step_def pool_ok_def)

lemma call_rel_add: "fresh_recs rs a \<Longrightarrow> call_rel a (add_prekeys rs a)"
proof -
  assume f: "fresh_recs rs a"
  have "a_preKeys (add_prekeys rs a) i = None" if "i \<in> a_issued a" "a_preKeys a i = None" for i
  proof -
    from f that(1) have "i \<notin> pkr_ID ` set rs" by (auto simp: fresh_recs_def)
    with that(2) show ?thesis by (simp add: add_prekeys_def put_recs_other)
  qed
  then show ?thesis
    using pool_ok_add_prekeys [of a rs]
    by (auto simp: call_rel_def pool_step_def) (auto simp: add_prekeys_def issue_def)
qed

section \<open>Relations between the stores before and after calls\<close>

text \<open>
  A relation that every change a call makes on the store satisfies holds between the stores before
  and after every sequence of calls. \<open>T\<close> says whether the application's own trust decisions are
  among the changes it allows.
\<close>

locale call_relation = omemo_store S invar alpha
  for S :: "'s Store" and invar :: "'s \<Rightarrow> bool" and alpha :: "'s \<Rightarrow> astore" +
  fixes R :: "astore \<Rightarrow> astore \<Rightarrow> bool" and T :: bool
  assumes R_frame: "frame_rel R"
    and R_send: "send_frame J a a' \<Longrightarrow> R a a'"
    and R_dec: "dec_frame d a a' \<Longrightarrow> R a a'"
    and R_issue: "issue_frame a a' \<Longrightarrow> R a a'"
    and R_add: "fresh_recs rs a \<Longrightarrow> R a (add_prekeys rs a)"
    and R_steps: "R a (rotate_spk r a)" "R a (a\<lparr>a_sessions := f\<rparr>)" "R a (a\<lparr>a_devices := h\<rparr>)"
    and R_trust: "T \<Longrightarrow> R a (a\<lparr>a_trust := g\<rparr>)"
begin

lemma R_refl [simp, intro]: "R a a"
  using R_frame by (auto simp: frame_rel_def dest: reflpD)

lemma R_trans: "R a b \<Longrightarrow> R b c \<Longrightarrow> R a c"
  using R_frame by (auto simp: frame_rel_def dest: transpD)

lemma call_store:
  "stable (store_rel invar alpha R) (liftS (CurrentSignedPreKey S))"
  "stable (store_rel invar alpha R) (liftS (PreKeys S))"
  "stable (store_rel invar alpha R) (liftS (PreKeyCount S))"
  "stable (store_rel invar alpha R) (liftS (RotateSignedPreKey S r))"
  "stable (store_rel invar alpha R) (liftS (DeleteSession S d))"
  "stable (store_rel invar alpha R) (liftS (SetDevices S j ds))"
  "T \<Longrightarrow> stable (store_rel invar alpha R) (liftS (SetTrust S k t))"
  using R_frame
  by (auto intro!: CurrentSignedPreKey_spec [THEN stable_store] PreKeys_spec [THEN stable_store]
      PreKeyCount_spec [THEN stable_store] RotateSignedPreKey_spec [THEN stable_store]
      DeleteSession_spec [THEN stable_store] SetTrust_spec [THEN stable_store]
      SetDevices_spec [THEN stable_store] simp: R_steps R_trust)

lemma call_stable:
  assumes M: "m_store M = S"
  shows "stable (store_rel invar alpha R) (ResetSession M dev)"
    and "stable (store_rel invar alpha R) (SyncDevices M jid)"
    and "stable (store_rel invar alpha R) (Manager_RotateSignedPreKey B M)"
    and "stable (store_rel invar alpha R) (Manager_Bundle B M)"
    and "stable (store_rel invar alpha R) (Manager_PublishBundle B M)"
    and "stable (store_rel invar alpha R) (NeedsMorePreKeys M)"
  unfolding ResetSession_def SyncDevices_def Manager_RotateSignedPreKey_def nextSignedPreKeyID_def
    Manager_PublishBundle_def Manager_Bundle_def NeedsMorePreKeys_def M
  by (intro stable_intros frame_rel_store_rel R_frame call_store)+

lemma generate_call:
  assumes i: "invar (w_store w)" and ok: "card (a_issued (alpha (w_store w))) + nat n < 2 ^ 32"
  shows "store_rel invar alpha R w (snd (generateOneTimePreKeys B S n w))"
proof (cases "0 \<le> n \<and> n \<le> max_prekeys")
  case True
  then have n: "0 \<le> n" by simp
  have "wp (generateOneTimePreKeys B S n) (\<lambda>_. store_rel invar alpha R w)
      (\<lambda>_. store_rel invar alpha R w) w"
    by (rule wp_mono [OF generateOneTimePreKeys_wp [OF i n ok]])
      (auto simp: store_rel_def R_add R_issue)
  then show ?thesis by (simp add: wp_snd)
qed (auto simp: generateOneTimePreKeys_def throw_run store_rel_def)

lemma DecryptMessage_call:
  assumes M: "m_store M = S" and i: "invar (w_store w)"
  shows "store_rel invar alpha R w (snd (DecryptMessage B M msg w))"
proof (cases "find (\<lambda>k. rk_Device k = dev_ID (m_localDevice M)) (em_Keys msg)")
  case (Some key)
  have "wp (DecryptMessage B M msg) (\<lambda>_. store_rel invar alpha R w)
      (\<lambda>_. store_rel invar alpha R w) w"
    by (rule wp_mono [OF DecryptMessage_wp [OF M i Some]]) (auto simp: store_rel_def R_dec)
  then show ?thesis by (simp add: wp_snd)
qed (simp add: DecryptMessage_def throw_run store_rel_def)

lemma encrypt_call:
  assumes M: "m_store M = S" and i: "invar (w_store w)"
  shows "store_rel invar alpha R w (snd (encrypt B M jid pt w))"
proof -
  have "wp (encrypt B M jid pt) (\<lambda>_. store_rel invar alpha R w)
      (\<lambda>_. store_rel invar alpha R w) w"
    by (rule wp_mono [OF encrypt_wp [OF M i M i]]) (auto simp: store_rel_def R_send)
  then show ?thesis by (simp add: wp_snd)
qed

text \<open>Every call keeps the invariant and the relation, and so does every sequence of calls.\<close>

lemma run_call_rel:
  assumes M: "m_store M = S" and i: "invar (w_store w)" and ok: "call_ok alpha c w"
    and t: "T \<or> decides_no_trust c"
  shows "store_rel invar alpha R w (run_call B M c w)"
  using i ok t
  by (cases c) (simp_all add: EncryptMessage_def EncryptKeyTransport_def GenerateOneTimePreKeys_def M
      encrypt_call [OF M] DecryptMessage_call [OF M] generate_call
      stableD [OF call_stable(1) [OF M]] stableD [OF call_stable(2) [OF M]]
      stableD [OF call_stable(3) [OF M]] stableD [OF call_stable(4) [OF M]]
      stableD [OF call_stable(5) [OF M]] stableD [OF call_stable(6) [OF M]]
      stableD [OF call_store(6)] stableD [OF call_store(7)])

lemma reaches_rel:
  assumes "reaches ok B M w w'" and M: "m_store M = S" and i: "invar (w_store w)"
    and ok: "\<And>c w. ok c w \<Longrightarrow> call_ok alpha c w \<and> (T \<or> decides_no_trust c)"
  shows "invar (w_store w') \<and> R (alpha (w_store w)) (alpha (w_store w'))"
  using assms(1)
proof (induction rule: reaches.induct)
  case (step w' c)
  with run_call_rel [OF M, of w' c B] ok [of c w'] show ?case
    by (auto simp: store_rel_def intro: R_trans)
qed (simp add: i)

end

interpretation memstore_pool: call_relation MemStore_Store ms_inv ms_abs call_rel True
  by unfold_locales (auto intro: call_rel_send call_rel_dec call_rel_issue call_rel_add call_rel_steps)

interpretation memstore_trust: call_relation MemStore_Store ms_inv ms_abs trust_rel False
  by unfold_locales
    (erule trust_rel_send trust_rel_frames | simp add: trust_rel_frames trust_rel_same rotate_spk_def)+

section \<open>A manager from its start\<close>

lemma options_keep:
  "m_store (foldl (\<lambda>m opt. opt m) m (map WithTrustResolver rs)) = m_store m \<and>
   m_transport (foldl (\<lambda>m opt. opt m) m (map WithTrustResolver rs)) = m_transport m \<and>
   m_protocol (foldl (\<lambda>m opt. opt m) m (map WithTrustResolver rs)) = m_protocol m \<and>
   m_identityKey (foldl (\<lambda>m opt. opt m) m (map WithTrustResolver rs)) = m_identityKey m \<and>
   m_localDevice (foldl (\<lambda>m opt. opt m) m (map WithTrustResolver rs)) = m_localDevice m"
  by (induction rs arbitrary: m) (simp_all add: WithTrustResolver_def)

lemma NewManager_loads:
  assumes "NewManager MemStore_Store T p (map WithTrustResolver rs) w = (Inr M, w')"
  shows "w' = w\<lparr>w_locks := Map.empty\<rparr> \<and> m_store M = MemStore_Store \<and> m_transport M = T \<and> m_protocol M = p \<and>
     m_identityKey M = a_identityKey (ms_abs (w_store w)) \<and> m_localDevice M = a_localDevice (ms_abs (w_store w))"
  using assms by (auto simp: NewManager_def act_simps liftS_def ms_defs ms_abs_def options_keep)

end
