(* ===== verification/Properties_PreKeys.thy ===== *)
theory Properties_PreKeys
  imports Manager_Calls Omemo_Fake
begin

text \<open>
  The properties of identity and prekey management, for a manager over the in-memory store, with
  every transport and every backend: initialisation, bundles, the pool of one-time prekeys, the
  rotation of the signed prekey.
\<close>

section \<open>Exact runs on the in-memory store\<close>

lemmas ms_run_simps = act_simps liftS_def ms_defs wrapped_def

lemma Bundle_run:
  assumes "m_store M = MemStore_Store"
  shows "Manager_Bundle B M w =
     (let s = w_store w; spk = ms_currentSPK s;
          w1 = w\<lparr>w_store := s\<lparr>ms_rangeRand := drop (length (ms_preKeys s)) (ms_rangeRand s)\<rparr>\<rparr>
      in case IdentityPublicKey B (m_protocol M) (m_identityKey M) (w_env w) of
           (Inl e, env) \<Rightarrow> (Inl (wrapped ''derive identity public key'' e), w1\<lparr>w_env := env\<rparr>)
         | (Inr pub, env) \<Rightarrow> (Inr \<lparr>b_Device = m_localDevice M, b_IdentityKey = pub,
              b_SignedPreKey = \<lparr>spk_ID = spr_ID spk, spk_Public = spr_Public spk, spk_Signature = spr_Signature spk\<rparr>,
              b_PreKeys = map (\<lambda>r. \<lparr>pk_ID = pkr_ID r, pk_Public = pkr_Public r\<rparr>)
                 (map snd (go_range (ms_rangeRand s) (ms_preKeys s)))\<rparr>, w1\<lparr>w_env := env\<rparr>))"
  using assms unfolding Manager_Bundle_def
  by (simp add: act_simps liftS_def liftE_def ms_defs Let_def split: prod.split sum.split)

lemma ex_pool_ok: "pool_ok (ms_abs (w_store (ex_world jid b)))"
  by (auto simp: pool_ok_def ex_world_def ex_store_def split: if_splits)

section \<open>Bundles\<close>

definition public_half :: "PreKeyRecord \<Rightarrow> PreKey" where
  "public_half r = \<lparr>pk_ID = pkr_ID r, pk_Public = pkr_Public r\<rparr>"

text \<open>
  C39. A bundle names this device and its current signed prekey, and offers exactly the pool of
  one-time prekeys, each by its public half; making it uses none of them up and changes nothing the
  store keeps.
\<close>

theorem Bundle_offers_pool:
  assumes "m_store M = MemStore_Store" and "Manager_Bundle B M w = (Inr b, w')"
  shows "b_Device b = m_localDevice M \<and>
     spk_ID (b_SignedPreKey b) = spr_ID (ms_currentSPK (w_store w)) \<and>
     spk_Public (b_SignedPreKey b) = spr_Public (ms_currentSPK (w_store w)) \<and>
     mset (b_PreKeys b) = image_mset (public_half \<circ> snd) (mset (ms_preKeys (w_store w))) \<and>
     ms_abs (w_store w') = ms_abs (w_store w)"
proof -
  let ?pks = "ms_preKeys (w_store w)" and ?rand = "ms_rangeRand (w_store w)"
  have "image_mset public_half (image_mset snd (mset (go_range ?rand ?pks))) =
      image_mset (public_half \<circ> snd) (mset ?pks)"
    by (simp add: mset_go_range image_mset.compositionality)
  with assms(2) show ?thesis
    unfolding Bundle_run [OF assms(1)]
    by (auto simp: Let_def public_half_def [abs_def] ms_abs_def split: prod.splits sum.splits)
qed

theorem Bundle_offers_pool_witness:
  "\<exists>b. fst (Manager_Bundle stub (ex_manager ProtocolV2 ''b'' 2) (ex_world ''b'' 2)) = Inr b \<and>
     mset (b_PreKeys b) = {#\<lparr>pk_ID = 5, pk_Public = Some [9]\<rparr>#}"
proof -
  have "case fst (Manager_Bundle stub (ex_manager ProtocolV2 ''b'' 2) (ex_world ''b'' 2)) of Inr _ \<Rightarrow> True | _ \<Rightarrow> False"
    by code_simp
  then obtain b w' where run: "Manager_Bundle stub (ex_manager ProtocolV2 ''b'' 2) (ex_world ''b'' 2) = (Inr b, w')"
    by (metis (no_types, lifting) prod.collapse sum.case(1) sum.exhaust)
  have "ms_preKeys (w_store (ex_world ''b'' 2)) = [(5, \<lparr>pkr_ID = 5, pkr_Public = Some [9], pkr_Private = Some [9]\<rparr>)]"
    by (simp add: ex_world_def ex_store_def)
  with Bundle_offers_pool [OF _ run] show ?thesis by (simp add: run public_half_def)
qed

section \<open>The pool of one-time prekeys\<close>

text \<open>
  \<open>NeedsMorePreKeys\<close> never fails, changes nothing and says whether the pool holds at most 25
  one-time prekeys.
\<close>

theorem NeedsMorePreKeys_spec:
  assumes "m_store M = MemStore_Store"
  shows "NeedsMorePreKeys M w = (Inr (length (ms_preKeys (w_store w)) \<le> 25), w)"
  using assms by (simp add: NeedsMorePreKeys_def MinPreKeyCount_def ms_run_simps)

theorem NeedsMorePreKeys_spec_witness:
  "NeedsMorePreKeys (ex_manager ProtocolV2 ''b'' 2) (ex_world ''b'' 2) = (Inr True, ex_world ''b'' 2)"
  using NeedsMorePreKeys_spec [of "ex_manager ProtocolV2 ''b'' 2" "ex_world ''b'' 2"]
  by (simp add: ex_world_def ex_store_def)

text \<open>
  C37. \<open>GenerateOneTimePreKeys\<close> with a count that is not negative adds exactly that many one-time
  prekeys to the pool and replaces none: every record of the pool is kept, the new ones stand under
  their own identifiers, which were never issued before. (Identifiers are 32 bits: the counter must
  not run past its end.)
\<close>

theorem GenerateOneTimePreKeys_adds:
  assumes "m_store M = MemStore_Store" and "ms_inv (w_store w)" and "pool_ok (ms_abs (w_store w))"
    and "0 \<le> n" and "unat (ms_nextPreKeyID (w_store w)) + nat n < 2 ^ 32"
    and "GenerateOneTimePreKeys B M n w = (Inr u, w')"
  shows "int (length (ms_preKeys (w_store w'))) = int (length (ms_preKeys (w_store w))) + n \<and>
     map_of (ms_preKeys (w_store w)) \<subseteq>\<^sub>m map_of (ms_preKeys (w_store w')) \<and>
     (\<exists>rs. int (length rs) = n \<and> fresh_recs rs (ms_abs (w_store w)) \<and>
        ms_abs (w_store w') = add_prekeys rs (ms_abs (w_store w))) \<and>
     pool_ok (ms_abs (w_store w'))"
proof -
  have c: "card (a_issued (ms_abs (w_store w))) + nat n < 2 ^ 32" using assms(5) by (simp add: issued_card)
  from wp_run_Inr [OF memstore.generateOneTimePreKeys_wp [OF assms(2,4) c]
      assms(6) [unfolded GenerateOneTimePreKeys_def assms(1)]]
  obtain rs where rs: "int (length rs) = n" "ms_inv (w_store w')" "fresh_recs rs (ms_abs (w_store w))"
    "ms_abs (w_store w') = add_prekeys rs (ms_abs (w_store w))" by blast
  have count: "length (ms_preKeys s) = card (dom (a_preKeys (ms_abs s)))" if "ms_inv s" for s
    using that by (simp add: card_dom_map_of ms_inv_def)
  have "length (ms_preKeys (w_store w')) = length (ms_preKeys (w_store w)) + length rs"
    using card_add_prekeys [OF assms(3) rs(3)] rs(2,4) assms(2) by (simp add: count finite_dom_map_of)
  moreover have "map_of (ms_preKeys (w_store w')) = a_preKeys (add_prekeys rs (ms_abs (w_store w)))"
    by (simp flip: rs(4))
  then have "map_of (ms_preKeys (w_store w)) \<subseteq>\<^sub>m map_of (ms_preKeys (w_store w'))"
    using add_prekeys_old [OF assms(3) rs(3)] by (auto simp: map_le_def)
  ultimately show ?thesis
    using rs pool_ok_add_prekeys [OF assms(3), of rs] by auto
qed

theorem GenerateOneTimePreKeys_adds_witness:
  "length (ms_preKeys (w_store (snd (GenerateOneTimePreKeys stub (ex_manager ProtocolV2 ''b'' 2) 2 (ex_world ''b'' 2))))) = 3"
proof -
  let ?r = "GenerateOneTimePreKeys stub (ex_manager ProtocolV2 ''b'' 2) 2 (ex_world ''b'' 2)"
  have "fst ?r = Inr ()" by code_simp
  then have run: "?r = (Inr (), snd ?r)" by (simp add: prod_eq_iff)
  have "length (ms_preKeys (w_store (ex_world ''b'' 2))) = 1" "unat (ms_nextPreKeyID (w_store (ex_world ''b'' 2))) = 5"
    by (simp_all add: ex_world_def ex_store_def)
  with GenerateOneTimePreKeys_adds [OF _ _ ex_pool_ok _ _ run] show ?thesis by simp
qed

text \<open>
  A count that is negative or beyond what \<open>make\<close> can allocate does not return an error: the slice
  allocation panics, with the world unchanged.
\<close>

theorem GenerateOneTimePreKeys_negative:
  assumes "n < 0 \<or> max_prekeys < n"
  shows "\<exists>e. GenerateOneTimePreKeys B M n w = (Inl e, w) \<and> is_fatal e"
  using assms by (simp add: GenerateOneTimePreKeys_def generateOneTimePreKeys_def act_simps)

theorem GenerateOneTimePreKeys_negative_witness:
  "\<exists>e. GenerateOneTimePreKeys stub (ex_manager ProtocolV2 ''b'' 2) (2 ^ 60) (ex_world ''b'' 2) =
     (Inl e, ex_world ''b'' 2) \<and> is_fatal e"
  using GenerateOneTimePreKeys_negative [of "2 ^ 60"] by simp

text \<open>
  C40. The in-memory store's counter of prekey identifiers is 32 bits wide and wraps: the identifier
  of the \<open>j\<close>-th and of the \<open>k\<close>-th next allocation are the same exactly when \<open>j\<close> and \<open>k\<close> are equal
  modulo \<open>2 ^ 32\<close>. Identifiers are thus distinct for the first \<open>2 ^ 32\<close> allocations and repeat after.
\<close>

definition nth_prekey_ID :: "nat \<Rightarrow> MemStore \<Rightarrow> uint32" where
  "nth_prekey_ID k s = (case ms_NextPreKeyID (((\<lambda>s. snd (ms_NextPreKeyID s)) ^^ k) s) of
     (Inr i, _) \<Rightarrow> i | (Inl _, _) \<Rightarrow> 0)"

lemma nth_prekey_ID_eq: "nth_prekey_ID k s = ms_nextPreKeyID s + of_nat (Suc k)"
proof -
  have "ms_nextPreKeyID (((\<lambda>s. snd (ms_NextPreKeyID s)) ^^ k) s) = ms_nextPreKeyID s + of_nat k" for k
    by (induction k) (simp_all add: ms_NextPreKeyID_def)
  then show ?thesis by (simp add: nth_prekey_ID_def ms_NextPreKeyID_def)
qed

theorem prekey_IDs_repeat: "nth_prekey_ID j s = nth_prekey_ID k s \<longleftrightarrow> j mod 2 ^ 32 = k mod 2 ^ 32"
  by (simp add: nth_prekey_ID_eq word_of_nat_eq_iff take_bit_eq_mod)

section \<open>Rotating the signed prekey\<close>

lemma RotateSignedPreKey_run:
  assumes "m_store M = MemStore_Store" and "spr_Public (ms_currentSPK (w_store w)) \<noteq> None"
    and "Manager_RotateSignedPreKey B M w = (Inr u, w')"
  shows "spr_ID (ms_currentSPK (w_store w')) = spr_ID (ms_currentSPK (w_store w)) + 1"
    and "w_store w' = (w_store w)\<lparr>ms_currentSPK := ms_currentSPK (w_store w'),
       ms_staleSPK := Some (ms_currentSPK (w_store w))\<rparr>"
  using assms
  by (auto simp: Manager_RotateSignedPreKey_def nextSignedPreKeyID_def ms_run_simps
      liftE_def Let_def split: prod.splits sum.splits)

lemma signedPreKeyByID_run:
  assumes "m_store M = MemStore_Store"
  shows "fst (signedPreKeyByID M i w) = (case spk_for (ms_abs (w_store w)) i of
     Some r \<Rightarrow> Inr r | None \<Rightarrow> Inl (Errorf (''unknown signed prekey id '' @ fmt_d i)))"
  using assms by (simp add: signedPreKeyByID_def spk_for_def ms_run_simps split: option.split)

lemma uint32_plus_ne: "(i :: uint32) + 1 \<noteq> i" "(i :: uint32) + 1 + 1 \<noteq> i"
  by (simp_all add: add.assoc)

text \<open>
  C38. After a successful rotation, looking up a signed prekey by identifier finds the new one under
  the next identifier and the previous one under its own, and reports every other identifier as
  unknown; pool, sessions, trust and identity are as before.
\<close>

theorem RotateSignedPreKey_grace:
  assumes "m_store M = MemStore_Store" and "spr_Public (ms_currentSPK (w_store w)) \<noteq> None"
    and "Manager_RotateSignedPreKey B M w = (Inr u, w')"
  shows "let old = ms_currentSPK (w_store w); new = ms_currentSPK (w_store w') in
     spr_ID new = spr_ID old + 1 \<and>
     w_store w' = (w_store w)\<lparr>ms_currentSPK := new, ms_staleSPK := Some old\<rparr> \<and>
     (\<forall>i. fst (signedPreKeyByID M i w') =
        (if i = spr_ID new then Inr new else if i = spr_ID old then Inr old
         else Inl (Errorf (''unknown signed prekey id '' @ fmt_d i))))"
proof -
  note rot = RotateSignedPreKey_run [OF assms]
  have "ms_staleSPK (w_store w') = Some (ms_currentSPK (w_store w))" by (subst rot(2)) simp
  with rot show ?thesis
    by (auto simp: signedPreKeyByID_run [OF assms(1)] spk_for_def uint32_plus_ne Let_def)
qed

definition ex_rotate :: "(MemStore, fakeEnv) world \<Rightarrow> (goerror + unit) \<times> (MemStore, fakeEnv) world" where
  "ex_rotate = Manager_RotateSignedPreKey stub (ex_manager ProtocolV2 ''b'' 2)"

lemma ex_rotate_run:
  "Manager_RotateSignedPreKey stub (ex_manager ProtocolV2 ''b'' 2) w = (Inr (), snd (ex_rotate w))"
  "spr_Public (ms_currentSPK (w_store (snd (ex_rotate w)))) \<noteq> None"
  by (simp_all add: ex_rotate_def Manager_RotateSignedPreKey_def nextSignedPreKeyID_def ms_run_simps liftE_def
      GenerateSignedPreKey_def stub_def stub_spk_def stub_keypair_def Let_def)

lemma ex_current: "spr_Public (ms_currentSPK (w_store (ex_world jid b))) \<noteq> None"
  "spr_ID (ms_currentSPK (w_store (ex_world jid b))) = 1"
  by (simp_all add: ex_world_def ex_store_def)

theorem RotateSignedPreKey_grace_witness:
  "fst (signedPreKeyByID (ex_manager ProtocolV2 ''b'' 2) 1 (snd (ex_rotate (ex_world ''b'' 2)))) =
     Inr (ms_currentSPK (w_store (ex_world ''b'' 2)))"
  using RotateSignedPreKey_grace [OF _ ex_current(1) ex_rotate_run(1)] by (simp add: Let_def ex_current)

text \<open>
  The grace period is one rotation: after two successful rotations the identifier of the signed
  prekey that was current before them is unknown, so a key exchange that names it is refused.
\<close>

theorem RotateSignedPreKey_twice:
  assumes "m_store M = MemStore_Store" and "spr_Public (ms_currentSPK (w_store w)) \<noteq> None"
    and "Manager_RotateSignedPreKey B M w = (Inr u, w1)" and "spr_Public (ms_currentSPK (w_store w1)) \<noteq> None"
    and "Manager_RotateSignedPreKey B M w1 = (Inr u', w2)"
  shows "\<exists>e. fst (signedPreKeyByID M (spr_ID (ms_currentSPK (w_store w))) w2) = Inl e"
proof -
  note rot1 = RotateSignedPreKey_run [OF assms(1-3)] and rot2 = RotateSignedPreKey_run [OF assms(1,4,5)]
  have "ms_staleSPK (w_store w2) = Some (ms_currentSPK (w_store w1))" by (subst rot2(2)) simp
  with rot1(1) rot2(1) show ?thesis
    by (simp add: signedPreKeyByID_run [OF assms(1)] spk_for_def uint32_plus_ne)
qed

theorem RotateSignedPreKey_twice_witness:
  "\<exists>e. fst (signedPreKeyByID (ex_manager ProtocolV2 ''b'' 2) 1
     (snd (ex_rotate (snd (ex_rotate (ex_world ''b'' 2)))))) = Inl e"
  using RotateSignedPreKey_twice [OF _ ex_current(1) ex_rotate_run ex_rotate_run(1)] by (simp add: ex_current)

section \<open>Identity keys and initialisation\<close>

text \<open>The random source fills the whole buffer, and an ed25519 public key has 32 bytes.\<close>

definition random_source :: "('e, 'dr, 'ls, 'x) backend \<Rightarrow> bool" where
  "random_source B \<longleftrightarrow> (\<forall>n e bs e'. rand_Read B n e = (Inr bs, e') \<longrightarrow> length bs = n) \<and>
     (\<forall>seed. length seed = 32 \<longrightarrow> length (ed25519_public B seed) = 32)"

text \<open>
  An identity key that was generated has the size its protocol prescribes, 32 bytes for v1 and
  64 for v2, and its public half can be derived with the same protocol: for v1 by the curve, for v2
  as the public key of the seed.
\<close>

theorem identity_key_roundtrip:
  assumes "random_source B" and "GenerateIdentityKey B p e = (Inr key, e')"
  shows "slice_len key = (if p = ProtocolV1 then 32 else 64) \<and>
     (\<exists>seed. length seed = 32 \<and> IdentityPublicKey B p key e'' =
        (Inr (Some (if p = ProtocolV1 then x25519_public B seed else ed25519_public B seed)), e''))"
proof -
  obtain bs where bs: "rand_Read B 32 e = (Inr bs, e')"
    "key = Some (if p = ProtocolV1 then bs else bs @ ed25519_public B bs)"
    using assms(2) by (auto simp: GenerateIdentityKey_def act_simps split: prod.splits sum.splits if_splits)
  with assms(1) have "length bs = 32" "length (ed25519_public B bs) = 32"
    by (auto simp: random_source_def)
  with bs(2) show ?thesis
    by (auto simp: IdentityPublicKey_def act_simps slice_len_def slice_string_def intro!: exI [of _ bs])
qed

lemma stub_random: "random_source stub"
  by (auto simp: random_source_def stub_def stub_rand_def)

theorem identity_key_roundtrip_witness:
  "\<exists>key e'. GenerateIdentityKey stub ProtocolV2 ex_env = (Inr key, e') \<and> slice_len key = 64"
proof -
  obtain key e' where run: "GenerateIdentityKey stub ProtocolV2 ex_env = (Inr key, e')"
    by (simp add: GenerateIdentityKey_def stub_def stub_rand_def act_simps)
  from identity_key_roundtrip [OF stub_random run] run show ?thesis by simp
qed

lemma fresh_store:
  "a_preKeys (ms_abs (ms_New rand)) = Map.empty" "a_issued (ms_abs (ms_New rand)) = {}"
  "a_sessions (ms_abs (ms_New rand)) = Map.empty" "spr_Public (a_currentSPK (ms_abs (ms_New rand))) = None"
  "a_trust (ms_abs (ms_New rand)) = (\<lambda>_. TrustUndecided)" "a_devices (ms_abs (ms_New rand)) = (\<lambda>_. [])"
  "a_staleSPK (ms_abs (ms_New rand)) = None"
  by (auto simp: ms_New_def ms_abs_def zero_TrustState_def)

lemma init_fields:
  assumes "ms_abs s = add_prekeys rs (init_step key dev spk (ms_abs (ms_New rand)))"
  shows "ms_localDevice s = dev" "ms_identityKey s = key" "ms_currentSPK s = spk" "ms_staleSPK s = None"
    "dom (map_of (ms_preKeys s)) = pkr_ID ` set rs"
    "{i. 0 < i \<and> i \<le> ms_nextPreKeyID s} = pkr_ID ` set rs" "ms_sessions s = Map.empty"
    "a_trust (ms_abs s) = (\<lambda>_. TrustUndecided)" "a_devices (ms_abs s) = (\<lambda>_. [])"
  using fresh_store [of rand]
  by (simp_all add: ms_abs_simps [symmetric] assms add_prekeys_def issue_def init_step_def rotate_spk_def
      dom_put_recs del: ms_abs_simps)

lemma InitIdentity_new:
  assumes "w_store w = ms_New rand" and "InitIdentity B MemStore_Store jid d p w = (Inr u, w')"
  shows "ms_inv (w_store w') \<and> initialised B p \<lparr>dev_JID = jid, dev_ID = d\<rparr> (ms_abs (ms_New rand)) (ms_abs (w_store w'))"
proof -
  have "wp (InitIdentity B MemStore_Store jid d p)
     (\<lambda>_ w'. ms_inv (w_store w') \<and> initialised B p \<lparr>dev_JID = jid, dev_ID = d\<rparr> (ms_abs (ms_New rand)) (ms_abs (w_store w')))
     (\<lambda>_ _. True) w"
    using memstore.InitIdentity_wp [of w B jid d p] by (simp add: assms(1) ms_New_inv fresh_store del: ms_abs_simps)
  from wp_run_Inr [OF this assms(2)] show ?thesis .
qed

text \<open>
  C36. Initialising a fresh in-memory store leaves it with the account's device, a generated identity
  key, a signed prekey with identifier 1, no stale one, and exactly the one-time prekeys 1 to 100,
  each under its own identifier; no session, trust decision or device list is made up. A manager over
  it needs no more prekeys.
\<close>

theorem InitIdentity_fresh:
  assumes "w_store w = ms_New rand" and "InitIdentity B MemStore_Store jid d p w = (Inr u, w')"
    and "m_store M = MemStore_Store"
  shows "let s = w_store w' in
     ms_localDevice s = \<lparr>dev_JID = jid, dev_ID = d\<rparr> \<and>
     (\<exists>e e'. GenerateIdentityKey B p e = (Inr (ms_identityKey s), e')) \<and>
     spr_ID (ms_currentSPK s) = 1 \<and> ms_staleSPK s = None \<and>
     length (ms_preKeys s) = 100 \<and> dom (map_of (ms_preKeys s)) = {1 .. 100} \<and>
     ms_inv s \<and> pool_ok (ms_abs s) \<and>
     ms_sessions s = Map.empty \<and> a_trust (ms_abs s) = (\<lambda>_. TrustUndecided) \<and> a_devices (ms_abs s) = (\<lambda>_. []) \<and>
     fst (NeedsMorePreKeys M w') = Inr False"
proof -
  let ?a = "ms_abs (ms_New rand)" and ?s = "w_store w'"
  from InitIdentity_new [OF assms(1,2)] obtain key spk rs e e' where
    inv: "ms_inv ?s" and key: "GenerateIdentityKey B p e = (Inr key, e')" and spk: "spr_ID spk = 1"
      and rs: "length rs = 100" "fresh_recs rs ?a"
      and eq: "ms_abs ?s = add_prekeys rs (init_step key \<lparr>dev_JID = jid, dev_ID = d\<rparr> spk ?a)"
    by (auto simp: initialised_def)
  note fields = init_fields [OF eq]
  have ids: "card (pkr_ID ` set rs) = 100"
    using rs by (metis distinct_card fresh_recs_def length_map list.set_map)
  then have "unat (ms_nextPreKeyID ?s) = 100" using fields(6) by (metis issued_card)
  then have "ms_nextPreKeyID ?s = 100" by (simp add: word_unat_eq_iff)
  moreover have "{i :: uint32. 0 < i \<and> i \<le> 100} = {1 .. 100}"
    by (auto simp: word_le_nat_alt word_less_nat_alt)
  ultimately have "dom (map_of (ms_preKeys ?s)) = {1 .. 100}" using fields(5,6) by simp
  moreover have len: "length (ms_preKeys ?s) = 100"
    using ids inv fields(5) by (simp add: card_dom_map_of [symmetric] ms_inv_def)
  moreover have "pool_ok (ms_abs ?s)"
    unfolding eq by (rule pool_ok_add_prekeys)
      (simp add: init_step_def rotate_spk_def pool_ok_def fresh_store del: ms_abs_simps)
  ultimately show ?thesis
    using fields(1-4,7-9) inv key spk assms(3)
    by (auto simp: Let_def NeedsMorePreKeys_def MinPreKeyCount_def ms_run_simps)
qed

lemma stub_generateLoop: "\<exists>recs' w'. generateLoop stub MemStore_Store k recs w = (Inr recs', w')"
proof (induction k arbitrary: recs w)
  case (Suc k)
  then show ?case
    by (simp add: ms_run_simps liftE_def GenerateOneTimePreKey_def stub_def stub_keypair_def Let_def
        del: generateLoop.simps(2) add: generateLoop.simps(2))
qed (simp add: act_simps)

definition ex_fresh :: "(MemStore, fakeEnv) world" where
  "ex_fresh = (ex_world ''b'' 2)\<lparr>w_store := ms_New [1, 2]\<rparr>"

lemma ex_init_run: "\<exists>w'. InitIdentity stub MemStore_Store ''b'' 7 ProtocolV2 ex_fresh = (Inr (), w')"
proof -
  have "\<exists>w'. generateOneTimePreKeys stub MemStore_Store DefaultPreKeyCount w = (Inr (), w')" for w
    using stub_generateLoop [of "nat DefaultPreKeyCount" "[]" w]
    by (auto simp: generateOneTimePreKeys_def DefaultPreKeyCount_def ms_run_simps)
  moreover obtain w1 where "InitIdentity stub MemStore_Store ''b'' 7 ProtocolV2 ex_fresh =
      generateOneTimePreKeys stub MemStore_Store DefaultPreKeyCount w1"
    by (simp add: InitIdentity_def ms_run_simps liftE_def GenerateIdentityKey_def GenerateSignedPreKey_def
        stub_def stub_rand_def stub_spk_def stub_keypair_def Let_def)
  ultimately show ?thesis by metis
qed

theorem InitIdentity_fresh_witness:
  "\<exists>w'. InitIdentity stub MemStore_Store ''b'' 7 ProtocolV2 ex_fresh = (Inr (), w') \<and>
     dom (map_of (ms_preKeys (w_store w'))) = {1 .. 100} \<and> spr_ID (ms_currentSPK (w_store w')) = 1"
proof -
  obtain w' where run: "InitIdentity stub MemStore_Store ''b'' 7 ProtocolV2 ex_fresh = (Inr (), w')"
    using ex_init_run by blast
  have "w_store ex_fresh = ms_New [1, 2]" by (simp add: ex_fresh_def)
  from InitIdentity_fresh [OF this run ex_manager_simps(1)] run show ?thesis by (auto simp: Let_def)
qed

end
