(* ===== verification/Properties_Calls.thy ===== *)
theory Properties_Calls
  imports Properties_PreKeys Properties_Decrypt
begin

text \<open>
  Properties of whole sequences of calls on a manager over the in-memory store: one-time prekeys
  are used once, blocked identity keys stay blocked, the identity a manager was created with stays
  that of its store.
\<close>

section \<open>One-time prekeys are used once\<close>

text \<open>
  C16. A one-time prekey identifier that was issued and is no longer in the pool is never in it again,
  whatever calls are made; and the pool keeps its records under their own, issued identifiers.
\<close>

theorem prekey_never_returns:
  assumes "reaches (call_ok ms_abs) B M w w'" and "m_store M = MemStore_Store" and "ms_inv (w_store w)"
    and "pool_ok (ms_abs (w_store w))"
    and "0 < i" and "i \<le> ms_nextPreKeyID (w_store w)" and "map_of (ms_preKeys (w_store w)) i = None"
  shows "map_of (ms_preKeys (w_store w')) i = None \<and> pool_ok (ms_abs (w_store w'))"
  using memstore_pool.reaches_rel [OF assms(1-3)] assms(4-7)
  by (simp add: call_rel_def pool_step_def)

text \<open>\<open>b\<close> receives the message, rotates its signed prekey and generates three one-time prekeys.\<close>

definition ex_later :: "(MemStore, fakeEnv) world" where
  "ex_later = run_call stub (ex_manager ProtocolV2 ''b'' 2) (CallGenerate 3)
     (run_call stub (ex_manager ProtocolV2 ''b'' 2) CallRotate (snd (ex_received ProtocolV2)))"

lemma ex_received_pool:
  "ms_inv (w_store (snd (ex_received ProtocolV2)))" "pool_ok (ms_abs (w_store (snd (ex_received ProtocolV2))))"
  using DecryptMessage_facts [OF _ _ ex_received_run] ex_pool_ok [of "''b''" 2]
  by (auto simp: call_rel_def pool_step_def dest!: call_rel_dec)

lemma ex_later_reached:
  "reaches (call_ok ms_abs) stub (ex_manager ProtocolV2 ''b'' 2) (snd (ex_received ProtocolV2)) ex_later"
proof -
  have "unat (ms_nextPreKeyID (w_store (run_call stub (ex_manager ProtocolV2 ''b'' 2) CallRotate
      (snd (ex_received ProtocolV2))))) = 5" by code_simp
  then show ?thesis
    unfolding ex_later_def
    by (intro reaches.step reaches.here) (simp_all add: issued_card del: run_call.simps)
qed

theorem prekey_never_returns_witness:
  "map_of (ms_preKeys (w_store ex_later)) 5 = None \<and> length (ms_preKeys (w_store ex_later)) = 3"
proof -
  have "map_of (ms_preKeys (w_store (snd (ex_received ProtocolV2)))) 5 = None"
    "ms_nextPreKeyID (w_store (snd (ex_received ProtocolV2))) = 5"
    "length (ms_preKeys (w_store ex_later)) = 3" by code_simp+
  with prekey_never_returns [OF ex_later_reached _ ex_received_pool, of 5] show ?thesis by simp
qed

text \<open>
  C12. A one-time prekey opens one session only (protocol v2): once a message with a key exchange that
  names it has been decrypted, every later message whose key exchange names it again, the same
  message replayed or another, fails without any change to the store, whatever calls were made in
  between.
\<close>

theorem prekey_used_once:
  assumes "m_store M = MemStore_Store" and "ms_inv (w_store w)" and "pool_ok (ms_abs (w_store w))"
    and "m_protocol M \<noteq> ProtocolV1"
    and "own_key M msg = Some key" and "rk_KeyExchange key = Some kx"
    and "DecryptMessage B M msg w = (Inr pt, w1)" and "reaches (call_ok ms_abs) B M w1 w2"
    and "own_key M msg' = Some key'" and "rk_KeyExchange key' = Some kx'"
    and "kx_PreKeyID kx' = kx_PreKeyID kx"
  shows "\<exists>e w3. DecryptMessage B M msg' w2 = (Inl e, w3) \<and> w_store w3 = w_store w2"
proof -
  let ?i = "kx_PreKeyID kx"
  note first = DecryptMessage_facts [OF assms(1,2,7)]
  from call_rel_dec [OF first(2)] have rel: "call_rel (ms_abs (w_store w)) (ms_abs (w_store w1))" .
  note used = DecryptMessage_consumes [OF assms(1,2,4-7)]
  have was: "a_preKeys (ms_abs (w_store w)) ?i \<noteq> None"
    and gone: "a_preKeys (ms_abs (w_store w1)) ?i = None" using used(2,3) by simp_all
  from was assms(3) rel have "?i \<in> a_issued (ms_abs (w_store w1))" "pool_ok (ms_abs (w_store w1))"
    by (auto simp: pool_ok_def call_rel_def pool_step_def)
  moreover have "call_rel (ms_abs (w_store w1)) (ms_abs (w_store w2))"
    using memstore_pool.reaches_rel [OF assms(8,1) first(1)] by simp
  ultimately have "a_preKeys (ms_abs (w_store w2)) ?i = None"
    using gone by (simp add: call_rel_def pool_step_def)
  then have "map_of (ms_preKeys (w_store w2)) (kx_PreKeyID kx') = None"
    using assms(11) by simp
  with assms(1,4,9,10) show ?thesis
    unfolding DecryptMessage_def own_key_def getOrCreateSessionForIncoming_def signedPreKeyByID_def
    by (simp add: act_simps liftS_def ms_defs wrapped_def split: option.split)
qed

theorem prekey_used_once_witness:
  "\<exists>e w3. DecryptMessage stub (ex_manager ProtocolV2 ''b'' 2) (ex_msg ProtocolV2) ex_later = (Inl e, w3) \<and>
     w_store w3 = w_store ex_later"
proof -
  obtain key kx where "own_key (ex_manager ProtocolV2 ''b'' 2) (ex_msg ProtocolV2) = Some key"
    "rk_KeyExchange key = Some kx" using ex_own_key by blast
  then show ?thesis
    using prekey_used_once [OF _ _ ex_pool_ok _ _ _ ex_received_run ex_later_reached] by simp
qed

section \<open>Trust and identity\<close>

text \<open>
  C17. As long as the application decides no trust itself, an identity key marked untrusted stays so,
  whatever calls are made and whatever the trust callback answers.
\<close>

theorem blocked_stays_blocked:
  assumes "reaches (\<lambda>c w. call_ok ms_abs c w \<and> decides_no_trust c) B M w w'"
    and "m_store M = MemStore_Store" and "ms_inv (w_store w)"
    and "ms_trust (w_store w) k = Some TrustUntrusted"
  shows "ms_trust (w_store w') k = Some TrustUntrusted"
proof -
  have "trust_rel (ms_abs (w_store w)) (ms_abs (w_store w'))"
    using memstore_trust.reaches_rel [OF assms(1-3)] by simp
  moreover have "a_trust (ms_abs (w_store w)) k = TrustUntrusted" using assms(4) by (simp add: ms_abs_trust)
  ultimately have "a_trust (ms_abs (w_store w')) k = TrustUntrusted" unfolding trust_rel_def by metis
  then show ?thesis by (simp add: ms_abs_trust)
qed

theorem blocked_stays_blocked_witness:
  "ms_trust (w_store (run_call stub (ex_manager ProtocolV2 ''a'' 3) (CallEncrypt ''b'' (Some [1]))
     ((ex_world ''a'' 3)\<lparr>w_store := (ex_store ''a'' 3)\<lparr>ms_trust := [[2] \<mapsto> TrustUntrusted]\<rparr>\<rparr>))) [2] =
   Some TrustUntrusted"
proof -
  let ?w = "(ex_world ''a'' 3)\<lparr>w_store := (ex_store ''a'' 3)\<lparr>ms_trust := [[2] \<mapsto> TrustUntrusted]\<rparr>\<rparr>"
  have "reaches (\<lambda>c w. call_ok ms_abs c w \<and> decides_no_trust c) stub (ex_manager ProtocolV2 ''a'' 3) ?w
      (run_call stub (ex_manager ProtocolV2 ''a'' 3) (CallEncrypt ''b'' (Some [1])) ?w)"
    by (intro reaches.step reaches.here) simp
  from blocked_stays_blocked [OF this] show ?thesis
    by (simp add: ms_inv_def ex_store_def ms_New_def del: run_call.simps)
qed

text \<open>
  The identity key and the device a manager loaded when it was created stay those of its store:
  no call changes them, so the copies the manager keeps never go stale.
\<close>

definition identity_loaded :: "(MemStore, 'e) Manager \<Rightarrow> (MemStore, 'e) world \<Rightarrow> bool" where
  "identity_loaded M w \<longleftrightarrow> m_store M = MemStore_Store \<and>
     m_identityKey M = ms_identityKey (w_store w) \<and> m_localDevice M = ms_localDevice (w_store w)"

theorem identity_stays_loaded:
  assumes "NewManager MemStore_Store T p (map WithTrustResolver rs) w = (Inr M, w0)"
    and "ms_inv (w_store w)" and "reaches (call_ok ms_abs) B M w0 w'"
  shows "identity_loaded M w0 \<and> identity_loaded M w'"
proof -
  from NewManager_loads [OF assms(1)] assms(2) have M: "m_store M = MemStore_Store" and w0: "ms_inv (w_store w0)"
    and loaded: "identity_loaded M w0" by (auto simp: identity_loaded_def)
  from memstore_pool.reaches_rel [OF assms(3) M w0] loaded show ?thesis by (simp add: identity_loaded_def call_rel_def)
qed

theorem identity_stays_loaded_witness:
  "\<exists>M w0. NewManager MemStore_Store fakeTransport ProtocolV2 (map WithTrustResolver [Some trust_all])
     (ex_world ''b'' 2) = (Inr M, w0) \<and> identity_loaded M (run_call stub M CallRotate w0)"
proof -
  obtain M w0 where run: "NewManager MemStore_Store fakeTransport ProtocolV2 (map WithTrustResolver [Some trust_all])
     (ex_world ''b'' 2) = (Inr M, w0)"
    by (simp add: NewManager_def act_simps liftS_def ms_defs)
  have "reaches (call_ok ms_abs) stub M w0 (run_call stub M CallRotate w0)"
    by (intro reaches.step reaches.here) simp
  from identity_stays_loaded [OF run _ this] run show ?thesis by auto
qed

end
