(* ===== verification/Backend_Laws.thy ===== *)
theory Backend_Laws
  imports Omemo_Manager
begin

text \<open>
  What the manager relies on in the cryptographic backend, as predicates on the parameter
  \<open>backend\<close>: the documented behaviour of a double ratchet whose messages arrive in order, of an
  X3DH key agreement and of the payload cipher. They are hypotheses of the properties about
  conversations and of no others. From the laws of each protocol's ratchet follow the laws of
  \<open>internal/signal\<close>'s sessions (\<open>session_laws\<close>), in which both protocols look the same.
\<close>

section \<open>Calls that always or possibly return a value\<close>

definition always :: "('e, 'a) act \<Rightarrow> 'a \<Rightarrow> bool" where
  "always m x \<longleftrightarrow> (\<forall>e. \<exists>e'. m e = (Inr x, e'))"

definition returns :: "('e, 'a) act \<Rightarrow> bool" where
  "returns m \<longleftrightarrow> (\<forall>e. \<exists>x e'. m e = (Inr x, e'))"

definition may :: "('e, 'a) act \<Rightarrow> 'a \<Rightarrow> bool" where
  "may m x \<longleftrightarrow> (\<exists>e e'. m e = (Inr x, e'))"

lemma mayI: "m e = (Inr x, e') \<Longrightarrow> may m x"
  by (auto simp: may_def)

lemma always_may: "always m x \<Longrightarrow> may m y \<Longrightarrow> y = x"
  unfolding always_def may_def by (metis Inr_inject Pair_inject)

lemma always_ret [simp, intro]: "always (ret x) x"
  by (simp add: always_def ret_def)

lemma always_andThen: "always m x \<Longrightarrow> always (f x) y \<Longrightarrow> always (andThen m f) y"
  unfolding always_def andThen_def by (metis (mono_tags, lifting) case_prod_conv sum.case(2))

lemma always_wrapErr: "always m x \<Longrightarrow> always (wrapErr s m) x"
  unfolding always_def wrapErr_run by (metis (mono_tags, lifting) case_prod_conv sum.case(2))

lemma may_ret [simp]: "may (ret x) y \<longleftrightarrow> y = x"
  by (auto simp: may_def ret_def)

lemma may_andThenD: "may (andThen m f) y \<Longrightarrow> \<exists>x. may m x \<and> may (f x) y"
proof -
  assume "may (andThen m f) y"
  then obtain e e' where run: "andThen m f e = (Inr y, e')" by (auto simp: may_def)
  obtain r e1 where "m e = (r, e1)" by fastforce
  with run show ?thesis by (cases r) (auto simp: may_def andThen_def)
qed

lemma wrapErr_Inr: "wrapErr s m e = (Inr x, e') \<longleftrightarrow> m e = (Inr x, e')"
  by (cases "m e"; cases "fst (m e)") (auto simp: wrapErr_run)

lemma may_wrapErr [simp]: "may (wrapErr s m) x \<longleftrightarrow> may m x"
  by (simp add: may_def wrapErr_Inr)

section \<open>Ratchets\<close>

text \<open>
  \<open>P a b\<close> says that the next message of the ratchet \<open>a\<close> can be read by \<open>b\<close>. Reading it puts both
  sides in a position to go on; a ratchet survives being stored.
\<close>

definition v2_ratchet :: "('e, 'dr, 'ls, 'x) backend \<Rightarrow> ('dr \<Rightarrow> 'dr \<Rightarrow> bool) \<Rightarrow> bool" where
  "v2_ratchet B P \<longleftrightarrow>
     (\<forall>a b km e c a' e1. P a b \<and> slice_string km \<noteq> [] \<and> dr_Encrypt B km (a, e) = (Inr c, (a', e1)) \<longrightarrow>
        (\<forall>e2. \<exists>b' e3. dr_Decrypt B c (b, e2) = (Inr km, (b', e3)) \<and> P a' b' \<and> P b' a')) \<and>
     (\<forall>a. returns (dr_MarshalBinary B a)) \<and>
     (\<forall>a x. may (dr_MarshalBinary B a) x \<longrightarrow> always (dr_UnmarshalBinary B x) a)"

definition v1_ratchet :: "('e, 'dr, 'ls, 'x) backend \<Rightarrow> ('ls \<Rightarrow> 'ls \<Rightarrow> bool) \<Rightarrow> bool" where
  "v1_ratchet B P \<longleftrightarrow>
     (\<forall>a b km e c a' e1. P a b \<and> slice_string km \<noteq> [] \<and> ls_EncryptWhisperMessage B km (a, e) = (Inr c, (a', e1)) \<longrightarrow>
        (\<forall>e2. \<exists>b' e3. ls_DecryptWhisperMessage B c (b, e2) = (Inr km, (b', e3)) \<and> P a' b' \<and> P b' a')) \<and>
     (\<forall>a. returns (ls_MarshalBinary B a)) \<and>
     (\<forall>a x. may (ls_MarshalBinary B a) x \<longrightarrow> always (ls_UnmarshalBinary B x) a)"

section \<open>Sessions\<close>

definition v2_session :: "'dr \<Rightarrow> ('dr, 'ls) signal_Session" where
  "v2_session dr = \<lparr>s_protocol = ProtocolV2, s_dr = Some dr, s_ls = None, s_pending = None\<rparr>"

definition v1_session :: "'ls \<Rightarrow> ('dr, 'ls) signal_Session" where
  "v1_session ls = \<lparr>s_protocol = ProtocolV1, s_dr = None, s_ls = Some ls, s_pending = None\<rparr>"

text \<open>The ratchet of each protocol, in one relation between sessions.\<close>

definition paired ::
  "('dr \<Rightarrow> 'dr \<Rightarrow> bool) \<Rightarrow> ('ls \<Rightarrow> 'ls \<Rightarrow> bool) \<Rightarrow> Protocol \<Rightarrow>
     ('dr, 'ls) signal_Session \<Rightarrow> ('dr, 'ls) signal_Session \<Rightarrow> bool" where
  "paired P Q p s t \<longleftrightarrow>
     (if p = ProtocolV1 then \<exists>a b. s = v1_session a \<and> t = v1_session b \<and> Q a b
      else \<exists>a b. s = v2_session a \<and> t = v2_session b \<and> P a b)"

definition session_laws ::
  "('e, 'dr, 'ls, 'x) backend \<Rightarrow> Protocol \<Rightarrow>
     (('dr, 'ls) signal_Session \<Rightarrow> ('dr, 'ls) signal_Session \<Rightarrow> bool) \<Rightarrow> bool" where
  "session_laws B p C \<longleftrightarrow>
     (\<forall>s t km e c s' e1. C s t \<and> slice_string km \<noteq> [] \<and> Encrypt B km (s, e) = (Inr c, (s', e1)) \<longrightarrow>
        (\<forall>e2. \<exists>t' e3. Decrypt B c (t, e2) = (Inr km, (t', e3)) \<and> C s' t' \<and> C t' s')) \<and>
     (\<forall>s t. C s t \<longrightarrow> returns (Marshal B s) \<and> (\<forall>x. may (Marshal B s) x \<longrightarrow> always (LoadSession B p x) s))"

text \<open>The laws of the two ratchets, and of the payload ciphers of the two protocols.\<close>

definition ratchet_laws ::
  "('e, 'dr, 'ls, 'x) backend \<Rightarrow> ('dr \<Rightarrow> 'dr \<Rightarrow> bool) \<Rightarrow> ('ls \<Rightarrow> 'ls \<Rightarrow> bool) \<Rightarrow> Protocol \<Rightarrow> bool" where
  "ratchet_laws B P Q p \<longleftrightarrow> (if p = ProtocolV1 then v1_ratchet B Q else v2_ratchet B P)"

lemma session_laws_v1:
  assumes Q: "v1_ratchet B Q"
  shows "session_laws B ProtocolV1 (paired P Q ProtocolV1)"
proof -
  have msg: "\<exists>b' e3. ls_DecryptWhisperMessage B c (b, e2) = (Inr km, (b', e3)) \<and> Q a' b' \<and> Q b' a'"
    if "Q a b" "slice_string km \<noteq> []" "ls_EncryptWhisperMessage B km (a, e) = (Inr c, (a', e1))" for a b km e c a' e1 e2
    using Q that unfolding v1_ratchet_def by blast
  have "Marshal B (v1_session a) = ls_MarshalBinary B a" for a :: 'c
    by (simp add: Marshal_def v1_session_def)
  moreover have "always (LoadSession B ProtocolV1 x) (v1_session a)" if "always (ls_UnmarshalBinary B x) a" for x a
    using that unfolding LoadSession_def v1_session_def
    by (auto intro!: always_andThen always_wrapErr)
  moreover have "\<exists>t' e3. Decrypt B c (v1_session b, e2) = (Inr km, (t', e3)) \<and> paired P Q ProtocolV1 s' t' \<and> paired P Q ProtocolV1 t' s'"
    if "Q a b" "slice_string km \<noteq> []" "Encrypt B km (v1_session a, e) = (Inr c, (s', e1))" for a b km e c s' e1 e2
  proof -
    from that(3) obtain a' where a': "ls_EncryptWhisperMessage B km (a, e) = (Inr c, (a', e1))" "s' = v1_session a'"
      by (auto simp: Encrypt_def v1_session_def on_ls_def split: prod.splits)
    from msg [OF that(1,2) a'(1), of e2] obtain b' e3 where
      "ls_DecryptWhisperMessage B c (b, e2) = (Inr km, (b', e3))" "Q a' b'" "Q b' a'" by blast
    then show ?thesis
      by (intro exI [of _ "v1_session b'"] exI [of _ e3])
        (auto simp: Decrypt_def v1_session_def on_ls_def paired_def a'(2))
  qed
  ultimately show ?thesis
    using Q unfolding session_laws_def v1_ratchet_def paired_def by auto
qed

lemma session_laws_v2:
  assumes P: "v2_ratchet B P" and p: "p \<noteq> ProtocolV1"
  shows "session_laws B p (paired P Q p)"
proof -
  have msg: "\<exists>b' e3. dr_Decrypt B c (b, e2) = (Inr km, (b', e3)) \<and> P a' b' \<and> P b' a'"
    if "P a b" "slice_string km \<noteq> []" "dr_Encrypt B km (a, e) = (Inr c, (a', e1))" for a b km e c a' e1 e2
    using P that unfolding v2_ratchet_def by blast
  have "Marshal B (v2_session a) = dr_MarshalBinary B a" for a :: 'b
    by (simp add: Marshal_def v2_session_def)
  moreover have "always (LoadSession B p x) (v2_session a)" if "always (dr_UnmarshalBinary B x) a" for x a
    using that p unfolding LoadSession_def v2_session_def
    by (auto intro!: always_andThen always_wrapErr)
  moreover have "\<exists>t' e3. Decrypt B c (v2_session b, e2) = (Inr km, (t', e3)) \<and> paired P Q p s' t' \<and> paired P Q p t' s'"
    if "P a b" "slice_string km \<noteq> []" "Encrypt B km (v2_session a, e) = (Inr c, (s', e1))" for a b km e c s' e1 e2
  proof -
    from that(3) obtain a' where a': "dr_Encrypt B km (a, e) = (Inr c, (a', e1))" "s' = v2_session a'"
      by (auto simp: Encrypt_def v2_session_def on_dr_def split: prod.splits)
    from msg [OF that(1,2) a'(1), of e2] obtain b' e3 where
      "dr_Decrypt B c (b, e2) = (Inr km, (b', e3))" "P a' b'" "P b' a'" by blast
    then show ?thesis
      using p by (intro exI [of _ "v2_session b'"] exI [of _ e3])
        (auto simp: Decrypt_def v2_session_def on_dr_def paired_def a'(2))
  qed
  ultimately show ?thesis
    using P p unfolding session_laws_def v2_ratchet_def paired_def by auto
qed

lemma session_laws: "ratchet_laws B P Q p \<Longrightarrow> session_laws B p (paired P Q p)"
  using session_laws_v1 [of B Q P] session_laws_v2 [of B P p Q] by (auto simp: ratchet_laws_def split: if_splits)

text \<open>A payload that was encrypted is not nil and decrypts to the bytes it was made from.\<close>

definition payload_laws :: "('e, 'dr, 'ls, 'x) backend \<Rightarrow> bool" where
  "payload_laws B \<longleftrightarrow>
     (\<forall>pt km ct. may (xo_EncryptPayload B pt) (km, ct) \<longrightarrow> slice_string km \<noteq> [] \<and> ct \<noteq> None \<and>
        (\<exists>r. always (xo_DecryptPayload B km ct) r \<and> slice_string r = slice_string pt)) \<and>
     (\<forall>pt km iv ct. may (xo_EncryptPayloadV1 B pt) (km, iv, ct) \<longrightarrow> slice_string km \<noteq> [] \<and> ct \<noteq> None \<and>
        (\<exists>r. always (xo_DecryptPayloadV1 B km iv ct) r \<and> slice_string r = slice_string pt))"

lemma payload_law:
  assumes "payload_laws B" and "may (EncryptPayload B p pt) (km, iv, ct)"
  shows "slice_string km \<noteq> []" and "ct \<noteq> None" and "\<exists>r. always (DecryptPayload B p km iv ct) r \<and> slice_string r = slice_string pt"
proof -
  from assms(2) have "if p = ProtocolV1 then may (xo_EncryptPayloadV1 B pt) (km, iv, ct)
      else may (xo_EncryptPayload B pt) (km, ct)"
    by (auto simp: EncryptPayload_def dest!: may_andThenD split: if_splits)
  with assms(1) show "slice_string km \<noteq> []" "ct \<noteq> None" "\<exists>r. always (DecryptPayload B p km iv ct) r \<and> slice_string r = slice_string pt"
    unfolding payload_laws_def DecryptPayload_def by (auto split: if_splits)
qed

end
