(* ===== verification/Manager_Conversation.thy ===== *)
theory Manager_Conversation
  imports Manager_Delivery Manager_Environment Backend_Laws
begin

text \<open>
  One message from its sender to one recipient device. The first part follows a device through the
  loop of \<open>encrypt\<close>: what holds when its turn begins is kept by the turns before, what its turn
  establishes is kept by the turns after, and its key is the one the device finds in the message.
  The second part says what a turn establishes (\<open>turn_done\<close>), the third what decryption needs.
\<close>

section \<open>The loop, before and after one turn\<close>

lemma wp_bind_any: "(\<And>x w. wp (f x) Q (\<lambda>_ _. True) w) \<Longrightarrow> wp (andThen m f) Q (\<lambda>_ _. True) w"
proof (unfold wp_andThen, rule wp_runI)
  fix x w' assume f: "\<And>x w. wp (f x) Q (\<lambda>_ _. True) w"
  show "wp (f x) Q (\<lambda>_ _. True) w'" by (rule f)
qed simp

lemma find_last:
  "\<forall>x \<in> set xs. \<not> P x \<Longrightarrow> P y \<Longrightarrow> find P (xs @ y # ys) = Some y"
  by (induction xs) auto

lemma encryptForDevice_device: "wp (encryptForDevice B M dev km) (\<lambda>key _. rk_Device key = dev_ID dev) (\<lambda>_ _. True) w"
proof -
  have "wp (andThen (checkTrust M dev idKey) (\<lambda>_.
         andThen (wrapErr ''ratchet encrypt'' (onSession (Encrypt B km) sess)) (\<lambda>(data, sess').
         andThen (putSession B M dev sess') (\<lambda>_.
         ret \<lparr>rk_Device = dev_ID dev, rk_Data = data, rk_KeyExchange = kx\<rparr>))))
       (\<lambda>key _. rk_Device key = dev_ID dev) (\<lambda>_ _. True) w1" for idKey sess kx w1
    by (intro wp_bind_any) (auto simp: wp_ret split: prod.split intro: wp_bind_any)
  then have "wp (andThen (wrapErr ''establish session'' (getOrCreateActiveSession B M dev)) (\<lambda>(sess, kx).
     andThen (wrapErr ''load identity key'' (liftS (RemoteIdentityKey (m_store M) dev))) (\<lambda>found.
     case found of None \<Rightarrow> throw (Errorf ''no known identity key for device'')
     | Some idKey \<Rightarrow> andThen (checkTrust M dev idKey) (\<lambda>_.
         andThen (wrapErr ''ratchet encrypt'' (onSession (Encrypt B km) sess)) (\<lambda>(data, sess').
         andThen (putSession B M dev sess') (\<lambda>_.
         ret \<lparr>rk_Device = dev_ID dev, rk_Data = data, rk_KeyExchange = kx\<rparr>))))))
       (\<lambda>key _. rk_Device key = dev_ID dev) (\<lambda>_ _. True) w1" for w1
    by (intro wp_bind_any) (auto simp: wp_throw split: prod.split option.split intro!: wp_bind_any)
  then show ?thesis unfolding encryptForDevice_def wp_withDeviceLock by simp
qed

lemma encryptLoop_mono:
  "wp (encryptLoop B M km devs keys errs)
     (\<lambda>(keys', errs') _. \<exists>ks es. keys' = keys @ ks \<and> errs' = errs @ es \<and>
        (\<forall>k \<in> set ks. \<exists>d \<in> set devs. d \<noteq> m_localDevice M \<and> rk_Device k = dev_ID d)) (\<lambda>_ _. True) w"
proof (induction devs arbitrary: keys errs w)
  case (Cons d devs)
  have again: "wp (encryptLoop B M km devs keys errs) (\<lambda>(keys', errs') _. \<exists>ks es. keys' = keys @ ks \<and> errs' = errs @ es \<and>
        (\<forall>k \<in> set ks. \<exists>d' \<in> set (d # devs). d' \<noteq> m_localDevice M \<and> rk_Device k = dev_ID d')) (\<lambda>_ _. True) w1"
    for keys errs w1
    by (rule wp_mono [OF Cons.IH]) auto
  have key: "wp (encryptLoop B M km devs (keys @ [k]) errs) (\<lambda>(keys', errs') _. \<exists>ks es. keys' = keys @ ks \<and> errs' = errs @ es \<and>
        (\<forall>k \<in> set ks. \<exists>d' \<in> set (d # devs). d' \<noteq> m_localDevice M \<and> rk_Device k = dev_ID d')) (\<lambda>_ _. True) w1"
    if "d \<noteq> m_localDevice M" "rk_Device k = dev_ID d" for k w1
    by (rule wp_mono [OF Cons.IH]) (use that in auto)
  have err: "wp (encryptLoop B M km devs keys (errs @ [e])) (\<lambda>(keys', errs') _. \<exists>ks es. keys' = keys @ ks \<and> errs' = errs @ es \<and>
        (\<forall>k \<in> set ks. \<exists>d' \<in> set (d # devs). d' \<noteq> m_localDevice M \<and> rk_Device k = dev_ID d')) (\<lambda>_ _. True) w1"
    for e w1
    by (rule wp_mono [OF Cons.IH]) auto
  show ?case
    unfolding encryptLoop.simps wp_if wp_tryCatch
    using again key err by (auto intro!: wp_mono [OF encryptForDevice_device])
qed (simp add: wp_ret)

text \<open>What no turn of the other devices changes is as before after their turns.\<close>

lemma encryptLoop_keep:
  assumes post: "\<And>d w. d \<noteq> dev \<Longrightarrow> Q w \<Longrightarrow> wp (encryptForDevice B M d km) (\<lambda>_. Q) (\<lambda>_. Q) w"
  shows "Q w \<Longrightarrow> \<forall>d \<in> set ds. d = m_localDevice M \<or> d \<noteq> dev \<Longrightarrow> wp (encryptLoop B M km ds ks es) (\<lambda>_. Q) (\<lambda>_. Q) w"
proof (induction ds arbitrary: ks es w)
  case (Cons x xs)
  then show ?case
    unfolding encryptLoop.simps wp_if wp_tryCatch
    by (auto intro!: wp_mono [OF post])
qed (simp add: wp_ret)

text \<open>\<open>dev\<close> is the only device with its identifier, and stands once in the list.\<close>

lemma encryptLoop_one:
  assumes dev: "dev \<noteq> m_localDevice M"
    and pre: "\<And>d w. d \<noteq> dev \<Longrightarrow> P w \<Longrightarrow> wp (encryptForDevice B M d km) (\<lambda>_. P) (\<lambda>_. P) w"
    and turn: "\<And>w. P w \<Longrightarrow> wp (encryptForDevice B M dev km) Q (\<lambda>_ _. True) w"
    and post: "\<And>d w key. d \<noteq> dev \<Longrightarrow> Q key w \<Longrightarrow> wp (encryptForDevice B M d km) (\<lambda>_. Q key) (\<lambda>_. Q key) w"
  shows "filter (\<lambda>d. dev_ID d = dev_ID dev) (filter (\<lambda>d. d \<noteq> m_localDevice M) devs) = [dev] \<Longrightarrow>
     \<forall>k \<in> set keys. rk_Device k \<noteq> dev_ID dev \<Longrightarrow> P w \<Longrightarrow>
     wp (encryptLoop B M km devs keys errs)
       (\<lambda>(keys', errs') w'. (\<exists>key. find (\<lambda>k. rk_Device k = dev_ID dev) keys' = Some key \<and> Q key w') \<or>
          (\<exists>err \<in> set errs'. de_Device err = dev)) (\<lambda>_ _. True) w"
    (is "_ \<Longrightarrow> _ \<Longrightarrow> _ \<Longrightarrow> wp _ ?R _ w")
proof (induction devs arbitrary: keys errs w)
  case (Cons d devs)
  have after: "wp (encryptLoop B M km ds ks es) (\<lambda>_. Q key) (\<lambda>_. Q key) w1"
    if "Q key w1" "\<forall>d \<in> set ds. d = m_localDevice M \<or> d \<noteq> dev" for key ds ks es w1
    by (rule encryptLoop_keep [OF post that])
  show ?case
  proof (cases "d = dev")
    case True
    with Cons.prems(1) dev have none: "filter (\<lambda>d. dev_ID d = dev_ID dev) (filter (\<lambda>d. d \<noteq> m_localDevice M) devs) = []"
      by simp
    then have others: "\<forall>d \<in> set devs. d = m_localDevice M \<or> d \<noteq> dev" by (auto simp: filter_empty_conv)
    have found: "wp (encryptLoop B M km devs (keys @ [key]) errs) ?R (\<lambda>_ _. True) w1"
      if "rk_Device key = dev_ID dev" "Q key w1" for key w1
      using Cons.prems(2) that(1)
      by (intro wp_mono [OF wp_conj [OF after [OF that(2) others] encryptLoop_mono]])
        (auto simp: find_last intro!: disjI1)
    have failed: "wp (encryptLoop B M km devs keys (errs @ [e])) ?R (\<lambda>_ _. True) w1"
      if "de_Device e = dev" for e w1
      by (rule wp_mono [OF encryptLoop_mono]) (use that in auto)
    have "wp (encryptForDevice B M dev km) (\<lambda>key w'. Q key w' \<and> rk_Device key = dev_ID dev) (\<lambda>_ _. True) w"
      by (rule wp_mono [OF wp_conj [OF turn [OF Cons.prems(3)] encryptForDevice_device]]) auto
    with True dev show ?thesis
      by (auto simp: wp_simps elim!: wp_mono intro!: found failed)
  next
    case False
    show ?thesis
    proof (cases "d = m_localDevice M")
      case True
      with Cons show ?thesis by simp
    next
      case nl: False
      with Cons.prems(1) False have ne: "dev_ID d \<noteq> dev_ID dev"
        by (auto split: if_splits)
      with nl Cons.prems(1) have rest: "filter (\<lambda>d. dev_ID d = dev_ID dev) (filter (\<lambda>d. d \<noteq> m_localDevice M) devs) = [dev]"
        by simp
      have "wp (encryptForDevice B M d km) (\<lambda>key w'. P w' \<and> rk_Device key = dev_ID d) (\<lambda>_. P) w"
        by (rule wp_mono [OF wp_conj [OF pre [OF False Cons.prems(3)] encryptForDevice_device]]) auto
      with nl ne rest Cons.prems(2) show ?thesis
        by (auto simp: wp_simps elim!: wp_mono intro!: Cons.IH)
    qed
  qed
qed simp

section \<open>What a turn establishes\<close>

text \<open>The session a turn starts from and the key exchange it announces, given the stored session.\<close>

definition opened ::
  "('e, 'dr, 'ls, 'x) backend \<Rightarrow> ('s, 'e) Manager \<Rightarrow> ('e \<Rightarrow> bool) \<Rightarrow> Device \<Rightarrow> slice option \<Rightarrow>
     ('dr, 'ls) signal_Session \<Rightarrow> KeyExchange option \<Rightarrow> bool" where
  "opened B M I dev stored sess kx \<longleftrightarrow>
     (case stored of
        Some data \<Rightarrow> may (LoadSession B (m_protocol M) data) sess \<and> kx = None
      | None \<Rightarrow> \<exists>b pk pks ek own. (\<exists>e e'. I e \<and> FetchBundle (m_transport M) dev e = (Inr b, e')) \<and>
          b_PreKeys b = pk # pks \<and>
          may (NewActiveSession B (m_protocol M) (m_identityKey M) (b_IdentityKey b)
            (spk_Public (b_SignedPreKey b)) (spk_Signature (b_SignedPreKey b)) (pk_Public pk)
            (spk_ID (b_SignedPreKey b)) (pk_ID pk) (dev_ID (m_localDevice M))) (sess, ek) \<and>
          may (IdentityPublicKey B (m_protocol M) (m_identityKey M)) own \<and>
          kx = Some \<lparr>kx_IdentityKey = own, kx_EphemeralKey = ek,
            kx_SignedPreKeyID = spk_ID (b_SignedPreKey b), kx_PreKeyID = pk_ID pk\<rparr>)"

definition sealed ::
  "('e, 'dr, 'ls, 'x) backend \<Rightarrow> slice \<Rightarrow> ('dr, 'ls) signal_Session \<Rightarrow> slice \<Rightarrow> ('dr, 'ls) signal_Session \<Rightarrow> bool" where
  "sealed B km sess c sess' \<longleftrightarrow> (\<exists>e e'. Encrypt B km (sess, e) = (Inr c, (sess', e')))"

lemma sealedI: "Encrypt B km (sess, e) = (Inr c, (sess', e')) \<Longrightarrow> sealed B km sess c sess'"
  by (auto simp: sealed_def)

text \<open>A turn's key, and the session that is stored with it.\<close>

definition turn_done ::
  "('e, 'dr, 'ls, 'x) backend \<Rightarrow> ('s, 'e) Manager \<Rightarrow> ('e \<Rightarrow> bool) \<Rightarrow> Device \<Rightarrow> slice option \<Rightarrow> slice \<Rightarrow>
     RecipientKey \<Rightarrow> slice option \<Rightarrow> bool" where
  "turn_done B M I dev stored km key stored' \<longleftrightarrow> (\<exists>sess sess' x.
     opened B M I dev stored sess (rk_KeyExchange key) \<and> sealed B km sess (rk_Data key) sess' \<and>
     may (Marshal B sess') x \<and> stored' = Some x)"

lemma turn_doneI:
  "opened B M I dev stored sess kx \<Longrightarrow> sealed B km sess c sess' \<Longrightarrow> may (Marshal B sess') x \<Longrightarrow>
     turn_done B M I dev stored km \<lparr>rk_Device = i, rk_Data = c, rk_KeyExchange = kx\<rparr> (Some x)"
  by (auto simp: turn_done_def)

lemma opened_oldI: "LoadSession B (m_protocol M) data e = (Inr sess, e') \<Longrightarrow> opened B M I dev (Some data) sess None"
  by (auto simp: opened_def may_def)

lemma opened_newI:
  assumes "I e" and "FetchBundle (m_transport M) dev e = (Inr b, e1)" and "b_PreKeys b = pk # pks"
    and "NewActiveSession B (m_protocol M) (m_identityKey M) (b_IdentityKey b)
       (spk_Public (b_SignedPreKey b)) (spk_Signature (b_SignedPreKey b)) (pk_Public pk)
       (spk_ID (b_SignedPreKey b)) (pk_ID pk) (dev_ID (m_localDevice M)) e2 = (Inr (sess, ek), e3)"
    and "IdentityPublicKey B (m_protocol M) (m_identityKey M) e4 = (Inr own, e5)"
  shows "opened B M I dev None sess (Some \<lparr>kx_IdentityKey = own, kx_EphemeralKey = ek,
     kx_SignedPreKeyID = spk_ID (b_SignedPreKey b), kx_PreKeyID = pk_ID pk\<rparr>)"
  using assms unfolding opened_def may_def option.case by blast

lemma wp_onSession_run:
  assumes "\<And>x sess' e. m (sess, w_env w) = (Inr x, (sess', e)) \<Longrightarrow> Q (x, sess') (w\<lparr>w_env := e\<rparr>)"
    and "\<And>err e. E err (w\<lparr>w_env := e\<rparr>)"
  shows "wp (onSession m sess) Q E w"
  using assms by (auto simp: onSession_def wp_def split: prod.split sum.split)

context omemo_store
begin

lemma getOrCreateActiveSession_opened:
  assumes M: "m_store M = S" and i: "invar (w_store w)" and I: "I (w_env w)"
    and ok: "\<And>sess kx w'. invar (w_store w') \<Longrightarrow>
       opened B M I dev (a_sessions (alpha (w_store w)) dev) sess kx \<Longrightarrow> Q (sess, kx) w'"
  shows "wp (getOrCreateActiveSession B M dev) Q (\<lambda>_ _. True) w"
  unfolding getOrCreateActiveSession_def
proof (auto simp: wp_simps M i split: option.split list.split intro!: wp_store [OF Session_spec], goal_cases)
  case (1 s)
  show ?case
  proof (rule wp_liftE_run, goal_cases)
    case (1 b e1)
    note fetched = this
    show ?case
    proof (auto simp: wp_simps split: list.split, goal_cases)
      case (1 pk pks)
      note pks = this
      show ?case
      proof (rule wp_liftE_run, goal_cases)
        case (1 x e3)
        note new = this
        obtain sess ek where x: "x = (sess, ek)" by (cases x)
        show ?case
          unfolding x prod.case wp_andThen wp_wrapErr M
        proof (rule wp_store [OF PutRemoteIdentityKey_spec], goal_cases)
          case (2 u s2)
          show ?case
            by (rule wp_liftE_run)
              (use 2 \<open>a_sessions _ dev = None\<close> opened_newI [OF _ fetched pks new [unfolded x]] I in
                \<open>auto simp: wp_ret wp_ret_fun intro!: ok\<close>)
        qed (use \<open>invar s\<close> in simp_all)
      qed simp
    qed
  qed simp
next
  case (2 s data)
  then show ?case
    by (intro wp_liftE_run) (auto simp: wp_simps intro!: ok opened_oldI)
qed

lemma encryptForDevice_turn:
  assumes M: "m_store M = S" and i: "invar (w_store w)" and I: "I (w_env w)"
  shows "wp (encryptForDevice B M dev km)
     (\<lambda>key w'. turn_done B M I dev (a_sessions (alpha (w_store w)) dev) km key (a_sessions (alpha (w_store w')) dev))
     (\<lambda>_ _. True) w"
proof -
  have put: "wp (putSession B M dev sess') (\<lambda>_ w'. turn_done B M I dev stored km
       \<lparr>rk_Device = dev_ID dev, rk_Data = c, rk_KeyExchange = kx\<rparr> (a_sessions (alpha (w_store w')) dev)) (\<lambda>_ _. True) w1"
    if "invar (w_store w1)" "opened B M I dev stored sess kx" "sealed B km sess c sess'"
    for w1 stored sess kx c sess'
    unfolding putSession_def wp_andThen wp_wrapErr
    by (rule wp_liftE_run)
      (use that in \<open>auto simp: wp_simps M intro!: wp_store [OF PutSession_spec] turn_doneI mayI\<close>)
  have seal: "wp (onSession (Encrypt B km) sess)
     (\<lambda>p. wp (case p of (data, sess') \<Rightarrow> andThen (putSession B M dev sess') (\<lambda>_.
            ret \<lparr>rk_Device = dev_ID dev, rk_Data = data, rk_KeyExchange = kx\<rparr>))
        (\<lambda>key w'. turn_done B M I dev stored km key (a_sessions (alpha (w_store w')) dev)) (\<lambda>_ _. True))
     (\<lambda>_ _. True) w1"
    if "invar (w_store w1)" "opened B M I dev stored sess kx" for w1 stored sess kx
    by (rule wp_onSession_run) (use that in \<open>auto simp: wp_simps wp_ret_fun intro!: put sealedI\<close>)
  show ?thesis
    unfolding encryptForDevice_def
    by (auto simp: wp_simps M i I split: option.split
        intro!: getOrCreateActiveSession_opened [where I = I] wp_store [OF RemoteIdentityKey_spec] checkTrust_wp
          seal)
qed

end

section \<open>The whole message, for one device\<close>

text \<open>
  The message carries the payload made with the key material that the turn of \<open>dev\<close> sealed, and the
  first key with the identifier of \<open>dev\<close> is the turn's.
\<close>

definition delivers ::
  "('e, 'dr, 'ls, 'x) backend \<Rightarrow> ('s, 'e) Manager \<Rightarrow> ('e \<Rightarrow> bool) \<Rightarrow> Device \<Rightarrow> slice \<Rightarrow> slice option \<Rightarrow>
     EncryptedMessage \<Rightarrow> slice option \<Rightarrow> bool" where
  "delivers B M I dev pt stored msg stored' \<longleftrightarrow> em_Sender msg = m_localDevice M \<and>
     (\<exists>km iv ct key. may (EncryptPayload B (m_protocol M) pt) (km, iv, ct) \<and>
        em_Payload msg = (if pt = None then None else ct) \<and> em_IV msg = (if pt = None then None else iv) \<and>
        find (\<lambda>k. rk_Device k = dev_ID dev) (em_Keys msg) = Some key \<and>
        turn_done B M I dev stored km key stored')"

lemma deliversI:
  "may (EncryptPayload B (m_protocol M) pt) (km, iv, ct) \<Longrightarrow>
   find (\<lambda>k. rk_Device k = dev_ID dev) keys = Some key \<Longrightarrow> turn_done B M I dev s km key s' \<Longrightarrow>
   pl = (if pt = None then None else ct) \<Longrightarrow> v = (if pt = None then None else iv) \<Longrightarrow>
   delivers B M I dev pt s \<lparr>em_Sender = m_localDevice M, em_Keys = keys, em_Payload = pl, em_IV = v\<rparr> s'"
  unfolding delivers_def by auto

context reliable_store
begin

text \<open>The loop, when \<open>dev\<close> is listed once: without a device error for it, its turn is in the result.\<close>

lemma encryptLoop_delivers:
  assumes M: "m_store M = S" and env: "env_kept I B M" and dev: "dev \<noteq> m_localDevice M"
    and w: "invar (w_store w)" "I (w_env w)" "a_sessions (alpha (w_store w)) dev = s"
  shows "wp (encryptLoop B M km (all_devices M jid (alpha (w_store w))) [] [])
     (\<lambda>(keys, errs) w'. filter (\<lambda>d. dev_ID d = dev_ID dev) (recipients M jid (alpha (w_store w'))) = [dev] \<longrightarrow>
        dev \<notin> de_Device ` set errs \<longrightarrow> (\<exists>key. find (\<lambda>k. rk_Device k = dev_ID dev) keys = Some key \<and>
          invar (w_store w') \<and> turn_done B M I dev s km key (a_sessions (alpha (w_store w')) dev)))
     (\<lambda>_ _. True) w"
proof -
  let ?P = "\<lambda>w'. invar (w_store w') \<and> I (w_env w') \<and> a_sessions (alpha (w_store w')) dev = s"
  let ?Q = "\<lambda>key w'. invar (w_store w') \<and> turn_done B M I dev s km key (a_sessions (alpha (w_store w')) dev)"
  note envs = env_wp [OF encryptForDevice_env [OF env]]
  have other: "a_sessions b dev = a_sessions a dev" if "enc_ok d a b" "d \<noteq> dev" for d a b
    using that enc_frame_others [of "\<lambda>x. x = d" a b dev] by (auto simp: enc_ok_def)
  have pre: "wp (encryptForDevice B M d km) (\<lambda>_. ?P) (\<lambda>_. ?P) w1" if "d \<noteq> dev" "?P w1" for d w1
    using that by (intro wp_mono [OF wp_conj [OF encryptForDevice_wp [OF M] envs]]) (auto dest: other)
  have turn: "wp (encryptForDevice B M dev km) ?Q (\<lambda>_ _. True) w1" if "?P w1" for w1
    using that by (intro wp_mono [OF wp_conj [OF encryptForDevice_wp [OF M] encryptForDevice_turn [where I = I, OF M]]]) auto
  have post: "wp (encryptForDevice B M d km) (\<lambda>_. ?Q key) (\<lambda>_. ?Q key) w1"
    if "d \<noteq> dev" "?Q key w1" for d key w1
    using that by (intro wp_mono [OF encryptForDevice_wp [OF M]]) (auto dest: other)
  show ?thesis
  proof (cases "filter (\<lambda>d. dev_ID d = dev_ID dev) (recipients M jid (alpha (w_store w))) = [dev]")
    case True
    show ?thesis
      by (rule wp_mono [OF encryptLoop_one [where P = ?P and Q = ?Q, OF dev pre turn post]])
        (use True w in \<open>auto simp: recipients_def\<close>)
  next
    case False
    have "recipients M jid b = recipients M jid a" if "enc_many D a b" for D a b
      using enc_many_devices [OF that] by (simp add: recipients_def all_devices_def)
    with False w(1) show ?thesis
      by (intro wp_mono [OF encryptLoop_wp [OF M]]) auto
  qed
qed

lemma encrypt_delivers:
  assumes M: "m_store M = S" and i: "invar (w_store w)" and env: "env_kept I B M" and I: "I (w_env w)"
    and dev: "dev \<noteq> m_localDevice M"
  shows "wp (encrypt B M jid pt)
     (\<lambda>(m, errs, err) w'. \<forall>msg. m = Some msg \<longrightarrow>
        filter (\<lambda>d. dev_ID d = dev_ID dev) (recipients M jid (alpha (w_store w'))) = [dev] \<longrightarrow>
        dev \<notin> de_Device ` set errs \<longrightarrow>
        delivers B M I dev pt (a_sessions (alpha (w_store w)) dev) msg (a_sessions (alpha (w_store w')) dev))
     (\<lambda>_ _. True) w"
proof -
  let ?s = "a_sessions (alpha (w_store w)) dev"
  let ?P = "\<lambda>w'. invar (w_store w') \<and> I (w_env w') \<and> a_sessions (alpha (w_store w')) dev = ?s"
  note loop = encryptLoop_delivers [OF M env dev, where s = ?s and jid = jid]
  note rcpt = env_wp [OF recipientDevices_env [OF env, of jid] I]
  show ?thesis
    unfolding encrypt_def wp_tryCatch Let_def
  proof (rule wp_mono [OF wp_conj [OF recipientDevices_total_wp [OF M i] rcpt]], goal_cases)
    case (1 devs w1)
    then have P: "?P w1" and devs: "devs = all_devices M jid (alpha (w_store w1))"
      by (auto dest: lists_frame_rest)
    show ?case
    proof (rule wp_liftE_run, goal_cases)
      case (1 x e)
      obtain km iv ct where x: "x = (km, iv, ct)" by (cases x)
      from 1 x have may: "may (EncryptPayload B (m_protocol M) pt) (km, iv, ct)" by (auto intro: mayI)
      have "?P (w1\<lparr>w_env := e\<rparr>)"
        using P stable_runD [OF env_keptD(8) [OF env] 1] by (simp add: inv_rel_def)
      then have "invar (w_store (w1\<lparr>w_env := e\<rparr>))" "I (w_env (w1\<lparr>w_env := e\<rparr>))"
        "a_sessions (alpha (w_store (w1\<lparr>w_env := e\<rparr>))) dev = ?s" by simp_all
      note step = loop [OF this, of km]
      have "w_store (w1\<lparr>w_env := e\<rparr>) = w_store w1" by simp
      note step = step [unfolded this]
      show ?case
        unfolding x prod.case wp_andThen devs
      proof (rule wp_mono [OF step], goal_cases)
        case (1 r w2)
        with may show ?case
          by (cases r) (auto simp: wp_ret intro: deliversI)
      qed simp
    qed (auto simp: wp_ret)
  qed (auto simp: wp_ret)
qed

end

end
