(* ===== verification/Manager_Receive.thy ===== *)
theory Manager_Receive
  imports Manager_Conversation Manager_Decrypt
begin

text \<open>
  When decryption succeeds: with a store that does not fail and calls into the backend that return
  what is needed, \<open>DecryptMessage\<close> returns the payload and stores the session it ends with.
\<close>

section \<open>Calls that return\<close>

definition sure :: "('e, 'a) act \<Rightarrow> ('a \<Rightarrow> bool) \<Rightarrow> bool" where
  "sure m G \<longleftrightarrow> (\<forall>e. \<exists>x e'. m e = (Inr x, e') \<and> G x)"

definition opens ::
  "('e, 'dr, 'ls, 'x) backend \<Rightarrow> ('dr, 'ls) signal_Session \<Rightarrow> slice \<Rightarrow> slice \<Rightarrow>
     (('dr, 'ls) signal_Session \<Rightarrow> bool) \<Rightarrow> bool" where
  "opens B sess data km G \<longleftrightarrow> (\<forall>e. \<exists>t e'. Decrypt B data (sess, e) = (Inr km, (t, e')) \<and> G t)"

lemma wp_liftE_sure: "sure m G \<Longrightarrow> (\<And>x e. G x \<Longrightarrow> Q x (w\<lparr>w_env := e\<rparr>)) \<Longrightarrow> wp (liftE m) Q E w"
  unfolding wp_liftE by (rule wp_total) (auto simp: sure_def, metis)

lemma sure_always: "always m x \<longleftrightarrow> sure m (\<lambda>y. y = x)"
  by (auto simp: sure_def always_def)

lemma sure_returns: "returns m \<longleftrightarrow> sure m (may m)"
  by (auto simp: sure_def returns_def may_def) metis+

lemma sure_ret [simp]: "sure (ret x) G \<longleftrightarrow> G x"
  by (auto simp: sure_def ret_def)

lemma sure_andThen:
  assumes "sure m F" and "\<And>x. F x \<Longrightarrow> sure (f x) G"
  shows "sure (andThen m f) G"
  unfolding sure_def
proof
  fix e
  from assms(1) obtain x e1 where x: "m e = (Inr x, e1)" "F x" unfolding sure_def by blast
  from assms(2) [OF x(2)] obtain y e2 where "f x e1 = (Inr y, e2)" "G y" unfolding sure_def by blast
  with x show "\<exists>y e'. andThen m f e = (Inr y, e') \<and> G y" by (simp add: andThen_def)
qed

lemma sure_wrapErr: "sure m G \<Longrightarrow> sure (wrapErr s m) G"
  unfolding sure_def wrapErr_Inr .

lemma sure_mono: "sure m F \<Longrightarrow> (\<And>x. F x \<Longrightarrow> G x) \<Longrightarrow> sure m G"
  unfolding sure_def by blast

lemma wp_onSession_opens:
  "opens B sess data km G \<Longrightarrow> (\<And>t e. G t \<Longrightarrow> Q (km, t) (w\<lparr>w_env := e\<rparr>)) \<Longrightarrow>
     wp (onSession (Decrypt B data) sess) Q E w"
proof -
  assume o: "opens B sess data km G" and Q: "\<And>t e. G t \<Longrightarrow> Q (km, t) (w\<lparr>w_env := e\<rparr>)"
  from o obtain t e' where "Decrypt B data (sess, w_env w) = (Inr km, (t, e'))" "G t"
    unfolding opens_def by blast
  with Q show ?thesis by (simp add: wp_def onSession_def)
qed

lemma wp_store_at:
  assumes "op_spec invar alpha m T" and "invar (w_store w)" and "\<exists>x s'. m (w_store w) = (Inr x, s')"
    and "\<And>x s. invar s \<Longrightarrow> T (alpha (w_store w)) x (alpha s) \<Longrightarrow> Q x (w\<lparr>w_store := s\<rparr>)"
  shows "wp (liftS m) Q E w"
proof -
  from assms(3) obtain x s' where run: "m (w_store w) = (Inr x, s')" by blast
  from op_specD [OF assms(1,2)] have "invar s' \<and> T (alpha (w_store w)) x (alpha s')"
    by (simp add: wp_def run)
  with assms(4) run show ?thesis unfolding wp_liftS by (simp add: wp_def)
qed

section \<open>Decryption with a reliable store\<close>

context reliable_store
begin

lemma DecryptMessage_opens:
  assumes M: "m_store M = S" and free: "lock_free (em_Sender msg) w"
    and key: "find (\<lambda>k. rk_Device k = dev_ID (m_localDevice M)) (em_Keys msg) = Some key"
    and incoming: "wp (getOrCreateSessionForIncoming B M (em_Sender msg) key)
       (\<lambda>(sess, data) w'. invar (w_store w') \<and> opens B sess data km G) (\<lambda>_ _. False) (locked (em_Sender msg) w)"
    and stores: "\<And>t. G t \<Longrightarrow> returns (Marshal B t)"
    and payload: "em_Payload msg \<noteq> None \<Longrightarrow>
       always (DecryptPayload B (m_protocol M) km (em_IV msg) (em_Payload msg)) r"
  shows "wp (DecryptMessage B M msg)
     (\<lambda>pt w'. invar (w_store w') \<and> pt = (if em_Payload msg = None then None else r) \<and>
        (\<exists>t x. G t \<and> may (Marshal B t) x \<and> a_sessions (alpha (w_store w')) (em_Sender msg) = Some x))
     (\<lambda>_ _. False) w"
proof -
  let ?fin = "\<lambda>w'. invar (w_store w') \<and>
     (\<exists>t x. G t \<and> may (Marshal B t) x \<and> a_sessions (alpha (w_store w')) (em_Sender msg) = Some x)"
  have put: "wp (putSession B M (em_Sender msg) t) (\<lambda>_. ?fin) (\<lambda>_ _. False) w1"
    if "invar (w_store w1)" "G t" for w1 t
    unfolding putSession_def wp_andThen wp_wrapErr
    using stores [OF that(2), unfolded sure_returns] that
    by (auto simp: M intro!: wp_liftE_sure wp_store_total [OF PutSession_spec PutSession_total])
  have last: "wp (if em_Payload msg = None then ret None else wrapErr ''decrypt payload''
       (liftE (DecryptPayload B (m_protocol M) km (em_IV msg) (em_Payload msg))))
     (\<lambda>pt w'. ?fin (mutex_Unlock l w') \<and> pt = (if em_Payload msg = None then None else r)) (\<lambda>_ _. False) w1"
    if "?fin w1" for w1 l
    using that payload [unfolded sure_always]
    by (auto simp: wp_simps intro!: wp_liftE_sure)
  have tail: "wp (andThen (wrapErr ''ratchet decrypt'' (onSession (Decrypt B data) sess)) (\<lambda>(keyMaterial, sess').
          andThen (putSession B M (em_Sender msg) sess') (\<lambda>_.
          if em_Payload msg = None then ret None
          else wrapErr ''decrypt payload''
                 (liftE (DecryptPayload B (m_protocol M) keyMaterial (em_IV msg) (em_Payload msg))))))
     (\<lambda>pt w'. ?fin (mutex_Unlock l w') \<and> pt = (if em_Payload msg = None then None else r)) (\<lambda>_ _. False) w1"
    if "invar (w_store w1)" "opens B sess data km G" for w1 sess data l
    unfolding wp_andThen wp_wrapErr
  proof (rule wp_onSession_opens [OF that(2)], goal_cases)
    case (1 t e)
    then show ?case
      unfolding prod.case wp_andThen
      by (intro wp_mono [OF put] last) (use that(1) in auto)
  qed
  show ?thesis
    unfolding DecryptMessage_def key option.case wp_withDeviceLock
    using free incoming
    by (auto simp: lock_free_def wp_andThen wp_wrapErr elim!: wp_mono
        intro!: tail [unfolded wp_andThen wp_wrapErr, THEN wp_mono]) blast+
qed

text \<open>The three ways to the session: stored, from a key exchange of v2, from one of v1.\<close>

lemma incoming_stored:
  assumes M: "m_store M = S" and i: "invar (w_store w)" and kx: "rk_KeyExchange key = None"
    and s: "a_sessions (alpha (w_store w)) sender = Some data" and l: "always (LoadSession B (m_protocol M) data) t"
    and o: "opens B t (rk_Data key) km G"
  shows "wp (getOrCreateSessionForIncoming B M sender key)
     (\<lambda>(sess, data) w'. invar (w_store w') \<and> opens B sess data km G) (\<lambda>_ _. False) w"
  unfolding getOrCreateSessionForIncoming_def kx option.case
  using s o l [unfolded sure_always]
  by (auto simp: wp_simps M i intro!: wp_store_total [OF Session_spec Session_total] wp_liftE_sure)

lemma signedPreKeyByID_known:
  assumes M: "m_store M = S" and i: "invar (w_store w)" and r: "spk_for (alpha (w_store w)) n = Some r"
  shows "wp (signedPreKeyByID M n) (\<lambda>r' w'. r' = r \<and> invar (w_store w') \<and> alpha (w_store w') = alpha (w_store w))
     (\<lambda>_ _. False) w"
  using r unfolding signedPreKeyByID_def
  by (auto simp: wp_simps M i spk_for_def split: if_splits option.splits
      intro!: wp_store_total [OF CurrentSignedPreKey_spec CurrentSignedPreKey_total]
        wp_store_total [OF StaleSignedPreKey_spec StaleSignedPreKey_total])

lemma incoming_v2:
  assumes M: "m_store M = S" and i: "invar (w_store w)" and kx: "rk_KeyExchange key = Some kx"
    and p: "m_protocol M \<noteq> ProtocolV1"
    and spk: "spk_for (alpha (w_store w)) (kx_SignedPreKeyID kx) = Some r"
    and opk: "a_preKeys (alpha (w_store w)) (kx_PreKeyID kx) = Some rec"
    and new: "sure (NewPassiveSession B (m_identityKey M) (kx_IdentityKey kx) (spr_Public r) (spr_Private r)
       (pkr_Private rec) (kx_EphemeralKey kx)) (\<lambda>t. opens B t (rk_Data key) km G)"
  shows "wp (getOrCreateSessionForIncoming B M sender key)
     (\<lambda>(sess, data) w'. invar (w_store w') \<and> opens B sess data km G) (\<lambda>_ _. False) w"
  unfolding getOrCreateSessionForIncoming_def kx option.case if_not_P [OF p] wp_andThen wp_wrapErr
proof (rule wp_mono [OF signedPreKeyByID_known [OF M i spk]], goal_cases)
  case (1 r' w1)
  then have "\<exists>r s'. ConsumePreKey S (kx_PreKeyID kx) (w_store w1) = (Inr r, s')"
    using opk by (intro ConsumePreKey_total) auto
  with 1 opk show ?case
    unfolding M
    by (intro wp_store_at [OF ConsumePreKey_spec])
      (auto simp: wp_simps wp_ret_fun intro!: wp_liftE_sure [OF new]
        wp_store_total [OF PutRemoteIdentityKey_spec PutRemoteIdentityKey_total])
qed

lemma incoming_v1:
  assumes M: "m_store M = S" and i: "invar (w_store w)" and kx: "rk_KeyExchange key = Some kx"
    and p: "m_protocol M = ProtocolV1" and peek: "always (PeekLegacyPreKeyIDs B (rk_Data key)) (n, k)"
    and spk: "spk_for (alpha (w_store w)) n = Some r" and opk: "a_preKeys (alpha (w_store w)) k = Some rec"
    and new: "sure (NewPassiveSessionFromPreKeyBlob B (m_identityKey M) (spr_Public r) (spr_Private r)
       (pkr_Private rec) (rk_Data key)) (\<lambda>(t, peer, inner). opens B t inner km G)"
  shows "wp (getOrCreateSessionForIncoming B M sender key)
     (\<lambda>(sess, data) w'. invar (w_store w') \<and> opens B sess data km G) (\<lambda>_ _. False) w"
  unfolding getOrCreateSessionForIncoming_def kx option.case if_P [OF p] wp_andThen wp_wrapErr
proof (rule wp_liftE_sure [OF peek [unfolded sure_always]], goal_cases)
  case (1 x e)
  show ?case
    unfolding 1 prod.case wp_andThen wp_wrapErr
  proof (rule wp_mono [OF signedPreKeyByID_known [OF M, where n = n and r = r]], goal_cases)
    case (3 r' w1)
    then have "\<exists>r s'. ConsumePreKey S k (w_store w1) = (Inr r, s')"
      using opk by (intro ConsumePreKey_total) auto
    with 3 opk show ?case
      unfolding M
      by (intro wp_store_at [OF ConsumePreKey_spec])
        (auto simp: wp_simps wp_ret_fun intro!: wp_liftE_sure [OF new]
          wp_store_total [OF PutRemoteIdentityKey_spec PutRemoteIdentityKey_total])
  qed (use i spk in simp_all)
qed

end

end
