(* ===== verification/Manager_Panics.thy ===== *)
theory Manager_Panics
  imports Manager_Calls Backend_Laws
begin

text \<open>
  No call of the library panics by itself. The first part is about sessions: one built by the
  package \<open>internal/signal\<close> always holds the ratchet its protocol uses, so no method call on it
  meets a nil pointer. The second part passes this through the manager: if no mutex is held when a
  call starts and no call into code outside the repository panics, the call ends with a value or an
  error, and with no mutex held.
\<close>

section \<open>Sessions hold their ratchet\<close>

definition session_ok :: "Protocol \<Rightarrow> ('dr, 'ls) signal_Session \<Rightarrow> bool" where
  "session_ok p s \<longleftrightarrow>
     (if p = ProtocolV1 then s_protocol s = ProtocolV1 \<and> s_ls s \<noteq> None
      else s_protocol s = ProtocolV2 \<and> s_dr s \<noteq> None \<and> s_pending s = None)"

text \<open>\<open>safe I m G\<close>: from a state with \<open>I\<close>, \<open>m\<close> does not panic, keeps \<open>I\<close>, and returns what \<open>G\<close> says.\<close>

named_theorems safe_intros \<open>rules that pass panic freedom through an action\<close>

definition safe :: "('w \<Rightarrow> bool) \<Rightarrow> ('w, 'a) act \<Rightarrow> ('a \<Rightarrow> bool) \<Rightarrow> bool" where
  "safe I m G \<longleftrightarrow> (\<forall>w. I w \<longrightarrow> wp m (\<lambda>x w'. I w' \<and> G x) (\<lambda>e w'. I w' \<and> \<not> is_fatal e) w)"

definition calm :: "('w, 'a) act \<Rightarrow> bool" where
  "calm m \<longleftrightarrow> safe (\<lambda>_. True) m (\<lambda>_. True)"

lemma safeD: "safe I m G \<Longrightarrow> I w \<Longrightarrow> wp m (\<lambda>x w'. I w' \<and> G x) (\<lambda>e w'. I w' \<and> \<not> is_fatal e) w"
  by (simp add: safe_def)

lemma calm_run: "calm m \<longleftrightarrow> (\<forall>w e w'. m w = (Inl e, w') \<longrightarrow> \<not> is_fatal e)"
  by (simp add: calm_def safe_def wp_def split: prod.split sum.split)

lemma safe_mono: "safe I m F \<Longrightarrow> (\<And>x. F x \<Longrightarrow> G x) \<Longrightarrow> safe I m G"
  unfolding safe_def by (auto elim!: wp_mono)

lemma safe_ret [safe_intros]: "G x \<Longrightarrow> safe I (ret x) G"
  by (simp add: safe_def wp_ret)

lemma safe_throw [safe_intros]: "\<not> is_fatal e \<Longrightarrow> safe I (throw e) G"
  by (simp add: safe_def wp_throw)

lemma safe_andThen: "safe I m F \<Longrightarrow> (\<And>x. F x \<Longrightarrow> safe I (f x) G) \<Longrightarrow> safe I (andThen m f) G"
  unfolding safe_def wp_andThen by (auto elim!: wp_mono)

lemma safe_tryCatch:
  "safe I m F \<Longrightarrow> (\<And>x. F x \<Longrightarrow> safe I (f x) G) \<Longrightarrow> (\<And>e. safe I (h e) G) \<Longrightarrow> safe I (tryCatch m h f) G"
  unfolding safe_def wp_tryCatch by (auto elim!: wp_mono)

text \<open>In most places nothing need be known of the value.\<close>

lemmas safe_plain [safe_intros] =
  safe_andThen [where F = "\<lambda>_. True", simplified] safe_tryCatch [where F = "\<lambda>_. True", simplified]

lemma safe_wrapErr [safe_intros]: "safe I m G \<Longrightarrow> safe I (wrapErr s m) G"
  unfolding safe_def wp_wrapErr by simp

lemma safe_if [safe_intros]:
  "(b \<Longrightarrow> safe I m G) \<Longrightarrow> (\<not> b \<Longrightarrow> safe I n G) \<Longrightarrow> safe I (if b then m else n) G"
  by simp

lemma safe_option [safe_intros]:
  "(y = None \<Longrightarrow> safe I m G) \<Longrightarrow> (\<And>x. y = Some x \<Longrightarrow> safe I (f x) G) \<Longrightarrow>
     safe I (case y of None \<Rightarrow> m | Some x \<Rightarrow> f x) G"
  by (simp split: option.split)

lemma safe_list [safe_intros]:
  "safe I m G \<Longrightarrow> (\<And>x xs. safe I (f x xs) G) \<Longrightarrow> safe I (case ys of [] \<Rightarrow> m | x # xs \<Rightarrow> f x xs) G"
  by (simp split: list.split)

lemma safe_prod [safe_intros]:
  "(\<And>a b. p = (a, b) \<Longrightarrow> safe I (f a b) G) \<Longrightarrow> safe I (case p of (a, b) \<Rightarrow> f a b) G"
  by (simp split: prod.split)

lemma safe_Let [safe_intros]: "safe I (f a) G \<Longrightarrow> safe I (let x = a in f x) G"
  by simp

section \<open>Code outside the repository\<close>

text \<open>No function of the backend panics.\<close>

definition calm_backend :: "('e, 'dr, 'ls, 'x) backend \<Rightarrow> bool" where
  "calm_backend B \<longleftrightarrow>
     (\<forall>n. calm (rand_Read B n)) \<and> (\<forall>a. calm (x3dh_CreateNewSpk B a)) \<and> calm (x3dh_CreateNewOpk B) \<and>
     (\<forall>a b c d f. calm (x3dh_CreateInitialMessage B a b c d f)) \<and>
     (\<forall>a b c d f. calm (x3dh_ReceiveInitialMessage B a b c d f)) \<and>
     (\<forall>a b c. calm (dr_CreateActive B a b c)) \<and> (\<forall>a b c d. calm (dr_CreatePassive B a b c d)) \<and>
     (\<forall>a. calm (dr_UnmarshalBinary B a)) \<and> (\<forall>a. calm (dr_MarshalBinary B a)) \<and>
     (\<forall>a. calm (dr_Encrypt B a)) \<and> (\<forall>a. calm (dr_Decrypt B a)) \<and>
     (\<forall>a. calm (ls_CreateNewSpk B a)) \<and>
     (\<forall>a b c d f. calm (ls_CreateInitialMessage B a b c d f)) \<and>
     (\<forall>a b c d f g. calm (ls_ReceiveInitialMessage B a b c d f g)) \<and>
     (\<forall>a b c. calm (ls_NewActiveSession B a b c)) \<and> (\<forall>a b c. calm (ls_NewPassiveSession B a b c)) \<and>
     (\<forall>a. calm (ls_ParsePreKeyMessage B a)) \<and>
     (\<forall>a. calm (ls_UnmarshalBinary B a)) \<and> (\<forall>a. calm (ls_MarshalBinary B a)) \<and>
     (\<forall>a b c d f. calm (ls_EncryptPreKeyWhisperMessage B a b c d f)) \<and>
     (\<forall>a. calm (ls_EncryptWhisperMessage B a)) \<and> (\<forall>a. calm (ls_DecryptWhisperMessage B a)) \<and>
     (\<forall>a. calm (xo_EncryptPayload B a)) \<and> (\<forall>a. calm (xo_EncryptPayloadV1 B a)) \<and>
     (\<forall>a b. calm (xo_DecryptPayload B a b)) \<and> (\<forall>a b c. calm (xo_DecryptPayloadV1 B a b c))"

text \<open>Nor do the application's transport and trust callback.\<close>

definition calm_manager :: "('s, 'e) Manager \<Rightarrow> bool" where
  "calm_manager M \<longleftrightarrow>
     (\<forall>j. calm (FetchDeviceList (m_transport M) j)) \<and> (\<forall>d. calm (FetchBundle (m_transport M) d)) \<and>
     (\<forall>b. calm (PublishBundle (m_transport M) b)) \<and>
     (\<forall>r d k. m_trustResolver M = Some r \<longrightarrow> calm (r d k))"

section \<open>Sessions: what is built is well formed, and stays so\<close>

lemma calm_backendD:
  assumes "calm_backend B"
  shows "calm (rand_Read B n)"
    and "calm (x3dh_CreateNewSpk B a)"
    and "calm (x3dh_CreateNewOpk B)"
    and "calm (x3dh_CreateInitialMessage B a b c d f)"
    and "calm (x3dh_ReceiveInitialMessage B a b c d f)"
    and "calm (dr_CreateActive B a b c)"
    and "calm (dr_CreatePassive B a b c d)"
    and "calm (dr_UnmarshalBinary B a)"
    and "calm (dr_MarshalBinary B x)"
    and "calm (dr_Encrypt B a)"
    and "calm (dr_Decrypt B a)"
    and "calm (ls_CreateNewSpk B a)"
    and "calm (ls_CreateInitialMessage B a b c d f)"
    and "calm (ls_ReceiveInitialMessage B a b c d f g)"
    and "calm (ls_NewActiveSession B a b y)"
    and "calm (ls_NewPassiveSession B a b y)"
    and "calm (ls_ParsePreKeyMessage B a)"
    and "calm (ls_UnmarshalBinary B a)"
    and "calm (ls_MarshalBinary B z)"
    and "calm (ls_EncryptPreKeyWhisperMessage B a b i j k)"
    and "calm (ls_EncryptWhisperMessage B a)"
    and "calm (ls_DecryptWhisperMessage B a)"
    and "calm (xo_EncryptPayload B a)"
    and "calm (xo_EncryptPayloadV1 B a)"
    and "calm (xo_DecryptPayload B a b)"
    and "calm (xo_DecryptPayloadV1 B a b c)"
  using assms unfolding calm_backend_def by simp_all

lemma calm_safe: "calm m \<Longrightarrow> safe (\<lambda>_. True) m (\<lambda>_. True)"
  by (simp add: calm_def)

lemma LoadSession_safe: "calm_backend B \<Longrightarrow> safe (\<lambda>_. True) (LoadSession B p data) (session_ok p)"
  unfolding LoadSession_def
  by (rule safe_intros calm_safe | erule calm_backendD | simp add: session_ok_def)+

lemma NewActiveSession_safe:
  "calm_backend B \<Longrightarrow> safe (\<lambda>_. True) (NewActiveSession B p a b c d f i j k) (\<lambda>(s, _). session_ok p s)"
  unfolding NewActiveSession_def
  by (rule safe_intros calm_safe | erule calm_backendD | simp add: session_ok_def)+

lemma NewPassiveSession_safe:
  "calm_backend B \<Longrightarrow> p \<noteq> ProtocolV1 \<Longrightarrow> safe (\<lambda>_. True) (NewPassiveSession B a b c d f g) (session_ok p)"
  unfolding NewPassiveSession_def
  by (rule safe_intros calm_safe | erule calm_backendD | simp add: session_ok_def)+

lemma NewPassiveSessionFromPreKeyBlob_safe:
  "calm_backend B \<Longrightarrow> safe (\<lambda>_. True) (NewPassiveSessionFromPreKeyBlob B a b c d f) (\<lambda>(s, _). session_ok ProtocolV1 s)"
  unfolding NewPassiveSessionFromPreKeyBlob_def
  by (rule safe_intros calm_safe | erule calm_backendD | simp add: session_ok_def)+

lemma Marshal_calm: "calm_backend B \<Longrightarrow> session_ok p s \<Longrightarrow> calm (Marshal B s)"
  unfolding Marshal_def by (auto simp: session_ok_def calm_backendD split: if_splits)

text \<open>The ratchet of a well-formed session, and what a method on it returns.\<close>

lemma on_dr_Some: "s_dr s = Some dr \<Longrightarrow> on_dr m (s, e) =
   (fst (m (dr, e)), (s\<lparr>s_dr := Some (fst (snd (m (dr, e))))\<rparr>, snd (snd (m (dr, e)))))"
  by (simp add: on_dr_def case_prod_beta)

lemma on_ls_Some: "s_ls s = Some ls \<Longrightarrow> on_ls m (s, e) =
   (fst (m (ls, e)), (s\<lparr>s_ls := Some (fst (snd (m (ls, e))))\<rparr>, snd (snd (m (ls, e)))))"
  by (simp add: on_ls_def case_prod_beta)

lemma calm_fst: "calm m \<Longrightarrow> fst (m w) = Inl err \<Longrightarrow> \<not> is_fatal err"
  unfolding calm_run by (metis prod.collapse)

lemma Encrypt_ok:
  assumes "session_ok p s" and run: "Encrypt B km (s, e) = (r, (s', e'))"
  shows "session_ok p s'" and "s_pending s' = None" and "calm_backend B \<Longrightarrow> r = Inl err \<Longrightarrow> \<not> is_fatal err"
proof -
  note cf = calm_fst [OF calm_backendD(10)] calm_fst [OF calm_backendD(20)] calm_fst [OF calm_backendD(21)]
  have "session_ok p s' \<and> s_pending s' = None \<and> (calm_backend B \<longrightarrow> r = Inl err \<longrightarrow> \<not> is_fatal err)"
  proof (cases "p = ProtocolV1")
    case True
    with assms(1) obtain ls where "s_ls s = Some ls" "s_protocol s = ProtocolV1" by (auto simp: session_ok_def)
    with True run show ?thesis
      by (cases "s_pending s") (auto simp: Encrypt_def session_ok_def on_ls_Some dest: cf(2,3))
  next
    case False
    with assms(1) obtain dr where "s_dr s = Some dr" "s_protocol s = ProtocolV2" "s_pending s = None"
      by (auto simp: session_ok_def)
    with False run show ?thesis
      by (auto simp: Encrypt_def session_ok_def on_dr_Some dest: cf(1))
  qed
  then show "session_ok p s'" "s_pending s' = None" "calm_backend B \<Longrightarrow> r = Inl err \<Longrightarrow> \<not> is_fatal err"
    by simp_all
qed

lemma Decrypt_ok:
  assumes "session_ok p s" and run: "Decrypt B c (s, e) = (r, (s', e'))"
  shows "session_ok p s'" and "s_pending s' = s_pending s" and "calm_backend B \<Longrightarrow> r = Inl err \<Longrightarrow> \<not> is_fatal err"
proof -
  note cf = calm_fst [OF calm_backendD(11)] calm_fst [OF calm_backendD(22)]
  have "session_ok p s' \<and> s_pending s' = s_pending s \<and> (calm_backend B \<longrightarrow> r = Inl err \<longrightarrow> \<not> is_fatal err)"
  proof (cases "p = ProtocolV1")
    case True
    with assms(1) obtain ls where "s_ls s = Some ls" "s_protocol s = ProtocolV1" by (auto simp: session_ok_def)
    with True run show ?thesis by (auto simp: Decrypt_def session_ok_def on_ls_Some dest: cf(2))
  next
    case False
    with assms(1) obtain dr where "s_dr s = Some dr" "s_protocol s = ProtocolV2" by (auto simp: session_ok_def)
    with False assms(1) run show ?thesis by (auto simp: Decrypt_def session_ok_def on_dr_Some dest: cf(1))
  qed
  then show "session_ok p s'" "s_pending s' = s_pending s" "calm_backend B \<Longrightarrow> r = Inl err \<Longrightarrow> \<not> is_fatal err"
    by simp_all
qed

lemma signal_calm:
  assumes "calm_backend B"
  shows "calm (GenerateIdentityKey B p)" and "calm (IdentityPublicKey B p k)"
    and "calm (GenerateSignedPreKey B p k)" and "calm (GenerateOneTimePreKey B)"
    and "calm (PeekLegacyPreKeyIDs B data)" and "calm (EncryptPayload B p pt)"
    and "calm (DecryptPayload B p km iv ct)"
  unfolding GenerateIdentityKey_def IdentityPublicKey_def GenerateSignedPreKey_def GenerateOneTimePreKey_def
    PeekLegacyPreKeyIDs_def EncryptPayload_def DecryptPayload_def calm_def
  by (rule safe_intros calm_safe calm_backendD [OF assms] TrueI | simp)+

section \<open>The manager's functions\<close>

text \<open>The worlds between the steps: the store's invariant, and exactly the mutexes \<open>H\<close> held.\<close>

definition quiet :: "('s \<Rightarrow> bool) \<Rightarrow> nat set \<Rightarrow> ('s, 'e) world \<Rightarrow> bool" where
  "quiet invar H w \<longleftrightarrow> invar (w_store w) \<and> w_held w = H"

lemma quiet_simps [simp]:
  "quiet invar H (w\<lparr>w_env := e\<rparr>) = quiet invar H w"
  "quiet invar H (w\<lparr>w_store := s\<rparr>) \<longleftrightarrow> invar s \<and> w_held w = H"
  by (simp_all add: quiet_def)

lemma safe_liftE: "safe (\<lambda>_. True) m G \<Longrightarrow> safe (quiet invar H) (liftE m) G"
  unfolding safe_def wp_liftE by (auto elim!: wp_mono)

lemma safe_liftE_calm: "calm m \<Longrightarrow> safe (quiet invar H) (liftE m) (\<lambda>_. True)"
  by (auto intro: safe_liftE calm_safe)

lemma safe_liftS: "op_spec invar alpha m T \<Longrightarrow> safe (quiet invar H) (liftS m) (\<lambda>_. True)"
  unfolding safe_def by (auto simp: quiet_def intro!: wp_store)

lemma safe_Encrypt:
  "calm_backend B \<Longrightarrow> session_ok p s \<Longrightarrow> safe (quiet invar H) (onSession (Encrypt B km) s) (\<lambda>(_, s'). session_ok p s')"
  by (auto simp: safe_def wp_def onSession_def split: prod.split sum.split dest: Encrypt_ok)

lemma safe_Decrypt:
  "calm_backend B \<Longrightarrow> session_ok p s \<Longrightarrow> safe (quiet invar H) (onSession (Decrypt B c) s) (\<lambda>(_, s'). session_ok p s')"
  by (auto simp: safe_def wp_def onSession_def split: prod.split sum.split dest: Decrypt_ok)

lemma safe_withDeviceLock [safe_intros]:
  fixes m :: "(('s, 'e) world, 'a) act"
  assumes "\<And>l. safe (quiet invar {l}) m G"
  shows "safe (quiet invar {}) (withDeviceLock dev m) G"
  unfolding safe_def wp_withDeviceLock
proof (intro allI impI)
  fix w :: "('s, 'e) world" assume q: "quiet invar {} w"
  then have "quiet invar {fst (deviceLock dev w)} (locked dev w)" by (simp add: quiet_def)
  from safeD [OF assms this] q show "if fst (deviceLock dev w) \<in> w_held w
     then quiet invar {} (snd (deviceLock dev w)) \<and> \<not> is_fatal deadlock
     else wp m (\<lambda>x w'. quiet invar {} (mutex_Unlock (fst (deviceLock dev w)) w') \<and> G x)
        (\<lambda>e w'. quiet invar {} (mutex_Unlock (fst (deviceLock dev w)) w') \<and> \<not> is_fatal e) (locked dev w)"
    by (auto simp: quiet_def elim!: wp_mono)
qed

context omemo_store
begin

lemmas store_safe =
  IdentityKeyPair_spec [THEN safe_liftS] SetIdentityKeyPair_spec [THEN safe_liftS]
  LocalDevice_spec [THEN safe_liftS] SetLocalDevice_spec [THEN safe_liftS]
  CurrentSignedPreKey_spec [THEN safe_liftS] StaleSignedPreKey_spec [THEN safe_liftS]
  RotateSignedPreKey_spec [THEN safe_liftS] PreKeyCount_spec [THEN safe_liftS]
  PreKeys_spec [THEN safe_liftS] NextPreKeyID_frame [THEN safe_liftS]
  PutPreKeys_spec [THEN safe_liftS] ConsumePreKey_spec [THEN safe_liftS]
  Session_spec [THEN safe_liftS] PutSession_spec [THEN safe_liftS] DeleteSession_spec [THEN safe_liftS]
  Trust_spec [THEN safe_liftS] SetTrust_spec [THEN safe_liftS]
  Devices_spec [THEN safe_liftS] SetDevices_spec [THEN safe_liftS]
  RemoteIdentityKey_spec [THEN safe_liftS] PutRemoteIdentityKey_spec [THEN safe_liftS]

text \<open>The calls that make a session, with what the rest may know of it.\<close>

lemma putSession_safe:
  assumes "m_store M = S" and "calm_backend B" and "session_ok p s"
  shows "safe (quiet invar H) (putSession B M dev s) (\<lambda>_. True)"
  unfolding putSession_def assms(1)
  by (intro safe_intros store_safe safe_liftE_calm Marshal_calm [OF assms(2,3)])

lemma getOrCreateActiveSession_safe:
  assumes "m_store M = S" and B: "calm_backend B" and M: "calm_manager M"
  shows "safe (quiet invar H) (getOrCreateActiveSession B M dev) (\<lambda>(s, _). session_ok (m_protocol M) s)"
proof -
  from M have fetch: "calm (FetchBundle (m_transport M) dev)" by (simp add: calm_manager_def)
  show ?thesis
    unfolding getOrCreateActiveSession_def assms(1)
    by (rule safe_andThen [OF safe_liftE [OF LoadSession_safe [OF B]]]
        safe_andThen [OF safe_wrapErr [OF safe_liftE [OF NewActiveSession_safe [OF B]]]]
        safe_intros store_safe safe_liftE_calm [OF fetch] safe_liftE_calm [OF signal_calm(2) [OF B]] | simp)+
qed

lemma getOrCreateSessionForIncoming_safe:
  assumes "m_store M = S" and B: "calm_backend B"
  shows "safe (quiet invar H) (getOrCreateSessionForIncoming B M dev key) (\<lambda>(s, _). session_ok (m_protocol M) s)"
  unfolding getOrCreateSessionForIncoming_def signedPreKeyByID_def assms(1)
  by (rule safe_andThen [OF safe_liftE [OF LoadSession_safe [OF B]]]
      safe_andThen [OF safe_wrapErr [OF safe_liftE [OF NewPassiveSession_safe [OF B]]]]
      safe_andThen [OF safe_wrapErr [OF safe_liftE [OF NewPassiveSessionFromPreKeyBlob_safe [OF B]]]]
      safe_intros store_safe safe_liftE_calm [OF signal_calm(5) [OF B]] | simp)+

text \<open>The functions of the manager, as the code calls them.\<close>

lemma checkTrust_safe:
  assumes "m_store M = S" and M: "calm_manager M"
  shows "safe (quiet invar H) (checkTrust M dev k) (\<lambda>_. True)"
  using M unfolding checkTrust_def assms(1) calm_manager_def
  by (intro safe_intros store_safe safe_liftE_calm) auto

lemma encryptForDevice_safe:
  assumes "m_store M = S" and B: "calm_backend B" and M: "calm_manager M"
  shows "safe (quiet invar {}) (encryptForDevice B M dev km) (\<lambda>_. True)"
  unfolding encryptForDevice_def
  by (rule safe_withDeviceLock safe_andThen [OF safe_wrapErr [OF getOrCreateActiveSession_safe [OF assms]]]
      safe_andThen [OF safe_wrapErr [OF safe_Encrypt [OF B]]] putSession_safe [OF assms(1) B]
      checkTrust_safe [OF assms(1) M] safe_intros store_safe | (simp add: assms(1) store_safe, assumption?))+

lemma encryptLoop_safe:
  assumes "m_store M = S" and "calm_backend B" and "calm_manager M"
  shows "safe (quiet invar {}) (encryptLoop B M km devs keys errs) (\<lambda>_. True)"
proof (induction devs arbitrary: keys errs)
  case (Cons dev devs)
  show ?case
    unfolding encryptLoop.simps
    by (intro safe_intros Cons.IH encryptForDevice_safe assms)
qed (simp add: safe_ret)

lemma devicesFor_safe:
  assumes "m_store M = S" and M: "calm_manager M"
  shows "safe (quiet invar H) (SyncDevices M jid) (\<lambda>_. True)" and "safe (quiet invar H) (devicesFor M jid) (\<lambda>_. True)"
proof -
  from M have fetch: "calm (FetchDeviceList (m_transport M) j)" for j by (simp add: calm_manager_def)
  show "safe (quiet invar H) (SyncDevices M jid) (\<lambda>_. True)" "safe (quiet invar H) (devicesFor M jid) (\<lambda>_. True)"
    unfolding devicesFor_def SyncDevices_def assms(1)
    by (intro safe_intros store_safe safe_liftE_calm fetch TrueI)+
qed

lemma encrypt_safe:
  assumes "m_store M = S" and "calm_backend B" and "calm_manager M"
  shows "safe (quiet invar {}) (encrypt B M jid pt) (\<lambda>_. True)"
  unfolding encrypt_def recipientDevices_def
  by (intro safe_intros devicesFor_safe encryptLoop_safe assms safe_liftE_calm signal_calm TrueI)

lemma DecryptMessage_safe:
  assumes "m_store M = S" and B: "calm_backend B"
  shows "safe (quiet invar {}) (DecryptMessage B M msg) (\<lambda>_. True)"
  unfolding DecryptMessage_def
  by (rule safe_withDeviceLock safe_andThen [OF safe_wrapErr [OF getOrCreateSessionForIncoming_safe [OF assms]]]
      safe_andThen [OF safe_wrapErr [OF safe_Decrypt [OF B]]] putSession_safe [OF assms]
      safe_liftE_calm [OF signal_calm(7) [OF B]] safe_intros TrueI | (simp, assumption?))+

lemma generateLoop_safe:
  assumes B: "calm_backend B"
  shows "safe (quiet invar H) (generateLoop B S k recs) (\<lambda>_. True)"
proof (induction k arbitrary: recs)
  case (Suc k)
  show ?case
    unfolding generateLoop.simps
    by (intro safe_intros Suc.IH store_safe safe_liftE_calm signal_calm B)
qed (simp add: safe_ret)

lemma generate_safe:
  assumes B: "calm_backend B" and n: "0 \<le> n" "n \<le> max_prekeys"
  shows "safe (quiet invar H) (generateOneTimePreKeys B S n) (\<lambda>_. True)"
proof -
  have "\<not> (n < 0 \<or> max_prekeys < n)" using n by simp
  then show ?thesis
    unfolding generateOneTimePreKeys_def if_not_P [OF \<open>\<not> (n < 0 \<or> max_prekeys < n)\<close>]
    by (intro safe_intros store_safe generateLoop_safe B)
qed

lemma account_safe:
  assumes "m_store M = S" and B: "calm_backend B" and M: "calm_manager M"
  shows "safe (quiet invar {}) (ResetSession M dev) (\<lambda>_. True)"
    and "safe (quiet invar H) (Manager_RotateSignedPreKey B M) (\<lambda>_. True)"
    and "safe (quiet invar H) (Manager_Bundle B M) (\<lambda>_. True)"
    and "safe (quiet invar H) (Manager_PublishBundle B M) (\<lambda>_. True)"
    and "safe (quiet invar H) (NeedsMorePreKeys M) (\<lambda>_. True)"
proof -
  from M have publish: "calm (PublishBundle (m_transport M) b)" for b by (simp add: calm_manager_def)
  show "safe (quiet invar {}) (ResetSession M dev) (\<lambda>_. True)"
    "safe (quiet invar H) (Manager_RotateSignedPreKey B M) (\<lambda>_. True)"
    "safe (quiet invar H) (Manager_Bundle B M) (\<lambda>_. True)"
    "safe (quiet invar H) (Manager_PublishBundle B M) (\<lambda>_. True)"
    "safe (quiet invar H) (NeedsMorePreKeys M) (\<lambda>_. True)"
    unfolding ResetSession_def Manager_RotateSignedPreKey_def nextSignedPreKeyID_def Manager_PublishBundle_def
      Manager_Bundle_def NeedsMorePreKeys_def assms(1)
    by (intro safe_intros store_safe safe_liftE_calm signal_calm [OF B] publish TrueI)+
qed

end

section \<open>Sequences of calls\<close>

definition panicked :: "(goerror + 'a) \<times> 'w \<Rightarrow> bool" where
  "panicked r = (case fst r of Inl e \<Rightarrow> is_fatal e | Inr _ \<Rightarrow> False)"

fun call_panics ::
  "('e, 'dr, 'ls, 'x) backend \<Rightarrow> ('s, 'e) Manager \<Rightarrow> call \<Rightarrow> ('s, 'e) world \<Rightarrow> bool" where
  "call_panics B M (CallEncrypt jid pt) w = panicked (EncryptMessage B M jid pt w)"
| "call_panics B M (CallKeyTransport jid) w = panicked (EncryptKeyTransport B M jid w)"
| "call_panics B M (CallDecrypt msg) w = panicked (DecryptMessage B M msg w)"
| "call_panics B M (CallReset dev) w = panicked (ResetSession M dev w)"
| "call_panics B M (CallSync jid) w = panicked (SyncDevices M jid w)"
| "call_panics B M (CallGenerate n) w = panicked (GenerateOneTimePreKeys B M n w)"
| "call_panics B M CallRotate w = panicked (Manager_RotateSignedPreKey B M w)"
| "call_panics B M CallBundle w = panicked (Manager_Bundle B M w)"
| "call_panics B M CallPublish w = panicked (Manager_PublishBundle B M w)"
| "call_panics B M CallNeedsMore w = panicked (NeedsMorePreKeys M w)"
| "call_panics B M (CallSetTrust k t) w = panicked (liftS (SetTrust (m_store M) k t) w)"
| "call_panics B M (CallSetDevices jid ds) w = panicked (liftS (SetDevices (m_store M) jid ds) w)"

text \<open>A count for which \<open>make\<close> allocates.\<close>

fun sized :: "call \<Rightarrow> bool" where
  "sized (CallGenerate n) = (0 \<le> n \<and> n \<le> max_prekeys)"
| "sized c = True"

lemma safe_run: "safe I m G \<Longrightarrow> I w \<Longrightarrow> \<not> panicked (m w) \<and> I (snd (m w))"
  by (drule (1) safeD) (simp add: wp_def panicked_def case_prod_beta split: sum.splits)

context omemo_store
begin

lemma run_call_quiet:
  assumes M: "m_store M = S" and B: "calm_backend B" and c: "calm_manager M"
    and w: "quiet invar {} w" and n: "sized c"
  shows "\<not> call_panics B M c w \<and> quiet invar {} (run_call B M c w)"
proof -
  note run = safe_run [where I = "quiet invar {}" and w = w, OF _ w]
  have "\<not> panicked (encrypt B M jid pt w) \<and> quiet invar {} (snd (encrypt B M jid pt w))" for jid pt
    by (rule run [OF encrypt_safe [OF M B c]])
  moreover have "\<not> panicked (DecryptMessage B M msg w) \<and> quiet invar {} (snd (DecryptMessage B M msg w))" for msg
    by (rule run [OF DecryptMessage_safe [OF M B]])
  moreover note account = run [OF account_safe(1) [OF M B c]] run [OF account_safe(2) [OF M B c]]
      run [OF account_safe(3) [OF M B c]] run [OF account_safe(4) [OF M B c]]
      run [OF account_safe(5) [OF M B c]] run [OF devicesFor_safe(1) [OF M c]]
  moreover have "\<not> panicked (generateOneTimePreKeys B S k w) \<and> quiet invar {} (snd (generateOneTimePreKeys B S k w))"
    if "0 \<le> k \<and> k \<le> max_prekeys" for k
    by (rule run [OF generate_safe [OF B that [THEN conjunct1] that [THEN conjunct2]]])
  moreover note run [OF SetTrust_spec [THEN safe_liftS]] run [OF SetDevices_spec [THEN safe_liftS]]
  ultimately show ?thesis
    using n unfolding M [symmetric]
    by (cases c) (simp_all only: EncryptMessage_def EncryptKeyTransport_def GenerateOneTimePreKeys_def
        call_panics.simps run_call.simps sized.simps simp_thms)
qed

lemma reaches_quiet:
  assumes "reaches (\<lambda>c _. sized c) B M w w'" and M: "m_store M = S" and B: "calm_backend B" and c: "calm_manager M"
    and w: "quiet invar {} w"
  shows "quiet invar {} w'"
  using assms(1)
proof (induction rule: reaches.induct)
  case (step w' c)
  with run_call_quiet [OF M B c] show ?case by blast
qed (rule w)

end

section \<open>The sessions the package builds\<close>

inductive session_of ::
  "('e, 'dr, 'ls, 'x) backend \<Rightarrow> Protocol \<Rightarrow> ('dr, 'ls) signal_Session \<Rightarrow> bool" for B p where
  own: "may (NewActiveSession B p a b c d f i j k) (s, ek) \<Longrightarrow> session_of B p s"
| peer: "p \<noteq> ProtocolV1 \<Longrightarrow> may (NewPassiveSession B a b c d f g) s \<Longrightarrow> session_of B p s"
| blob: "p = ProtocolV1 \<Longrightarrow> may (NewPassiveSessionFromPreKeyBlob B a b c d f) (s, y, x) \<Longrightarrow> session_of B p s"
| load: "may (LoadSession B p data) s \<Longrightarrow> session_of B p s"
| encrypted: "session_of B p s \<Longrightarrow> Encrypt B km (s, e) = (r, (s', e')) \<Longrightarrow> session_of B p s'"
| decrypted: "session_of B p s \<Longrightarrow> Decrypt B data (s, e) = (r, (s', e')) \<Longrightarrow> session_of B p s'"

lemma built_ok:
  "may (NewActiveSession B p a b c d f i j k) (s, ek) \<Longrightarrow> session_ok p s"
  "p \<noteq> ProtocolV1 \<Longrightarrow> may (NewPassiveSession B a b c d f g) s \<Longrightarrow> session_ok p s"
  "may (NewPassiveSessionFromPreKeyBlob B a b c d f) (s, y, x) \<Longrightarrow> session_ok ProtocolV1 s"
  "may (LoadSession B p data) s \<Longrightarrow> session_ok p s"
  unfolding NewActiveSession_def NewPassiveSession_def NewPassiveSessionFromPreKeyBlob_def LoadSession_def
  by (auto simp: session_ok_def split: if_splits prod.splits dest!: may_andThenD)

lemma session_of_ok: "session_of B p s \<Longrightarrow> session_ok p s"
  by (induction rule: session_of.induct) (auto intro: built_ok Encrypt_ok(1) Decrypt_ok(1))

end
