(* ===== verification/Manager_Dialogue.thy ===== *)
theory Manager_Dialogue
  imports Manager_Receive Manager_Panics
begin

text \<open>
  Two devices that talk to each other. A message from one is encrypted by \<open>EncryptMessage\<close> and read
  by the other's \<open>DecryptMessage\<close>; with sessions in step on both sides every message is delivered
  and leaves the sessions in step again, so a dialogue of any length is delivered message by message.
\<close>

section \<open>Sessions in step\<close>

text \<open>\<open>C s t\<close> is the relation of \<open>session_laws\<close>: what \<open>s\<close> encrypts next, \<open>t\<close> decrypts.\<close>

definition linked ::
  "('e, 'dr, 'ls, 'x) backend \<Rightarrow> Protocol \<Rightarrow>
     (('dr, 'ls) signal_Session \<Rightarrow> ('dr, 'ls) signal_Session \<Rightarrow> bool) \<Rightarrow> slice \<Rightarrow> slice \<Rightarrow> bool" where
  "linked B p C x y \<longleftrightarrow> (\<exists>s t. C s t \<and> always (LoadSession B p x) s \<and> always (LoadSession B p y) t)"

definition in_step ::
  "('e, 'dr, 'ls, 'x) backend \<Rightarrow> Protocol \<Rightarrow>
     (('dr, 'ls) signal_Session \<Rightarrow> ('dr, 'ls) signal_Session \<Rightarrow> bool) \<Rightarrow> slice \<Rightarrow> slice \<Rightarrow> bool" where
  "in_step B p C x y \<longleftrightarrow> linked B p C x y \<and> linked B p C y x"

lemma in_stepI:
  assumes "session_laws B p C" and "C s t" and "C t s" and "may (Marshal B s) x" and "may (Marshal B t) y"
  shows "in_step B p C x y"
proof -
  from assms(1) have "always (LoadSession B p z) u" if "C u v" "may (Marshal B u) z" for u v z
    using that unfolding session_laws_def by blast
  with assms(2-5) have "always (LoadSession B p x) s" "always (LoadSession B p y) t" by blast+
  with assms(2,3) show ?thesis unfolding in_step_def linked_def by blast
qed

lemma in_step_sym: "in_step B p C x y \<Longrightarrow> in_step B p C y x"
  by (simp add: in_step_def)

lemma opens_sealed:
  assumes "session_laws B p C" and "slice_string km \<noteq> []" and "C s t" and "sealed B km s c s'"
  shows "opens B t c km (\<lambda>t'. C s' t' \<and> C t' s')"
  using assms unfolding session_laws_def sealed_def opens_def by blast

section \<open>One message is read\<close>

context reliable_store
begin

text \<open>
  What decryption needs of a delivered message: a way to the session \<open>t\<close> that is paired with the one
  the turn sealed with.
\<close>

lemma message_read:
  assumes R: "m_store R = S" "m_protocol R = p" and A: "m_protocol A = p"
    and laws: "session_laws B p C" "payload_laws B"
    and msg: "delivers B A I (m_localDevice R) pt stored msg stored'"
    and free: "lock_free (m_localDevice A) w"
    and incoming: "\<And>km key sess sess'. slice_string km \<noteq> [] \<Longrightarrow> opened B A I (m_localDevice R) stored sess (rk_KeyExchange key) \<Longrightarrow>
       sealed B km sess (rk_Data key) sess' \<Longrightarrow>
       \<exists>G. wp (getOrCreateSessionForIncoming B R (m_localDevice A) key)
         (\<lambda>(t, data) w'. invar (w_store w') \<and> opens B t data km G) (\<lambda>_ _. False) (locked (m_localDevice A) w) \<and>
         (\<forall>t. G t \<longrightarrow> C sess' t \<and> C t sess')"
  shows "\<exists>r w' x y. DecryptMessage B R msg w = (Inr r, w') \<and> slice_string r = slice_string pt \<and>
     (pt = None \<longrightarrow> r = None) \<and> invar (w_store w') \<and> stored' = Some x \<and>
     a_sessions (alpha (w_store w')) (m_localDevice A) = Some y \<and> in_step B p C x y"
proof -
  from msg obtain km iv ct key where m: "em_Sender msg = m_localDevice A"
      "may (EncryptPayload B p pt) (km, iv, ct)" "em_Payload msg = (if pt = None then None else ct)"
      "em_IV msg = (if pt = None then None else iv)"
      "find (\<lambda>k. rk_Device k = dev_ID (m_localDevice R)) (em_Keys msg) = Some key"
      and turn: "turn_done B A I (m_localDevice R) stored km key stored'"
    unfolding delivers_def A by blast
  from turn obtain sess sess' x where t: "opened B A I (m_localDevice R) stored sess (rk_KeyExchange key)"
      "sealed B km sess (rk_Data key) sess'" "may (Marshal B sess') x" "stored' = Some x"
    unfolding turn_done_def by blast
  from payload_law(1) [OF laws(2) m(2)] have km: "slice_string km \<noteq> []" .
  from incoming [OF km t(1,2)] obtain G where G: "\<forall>t. G t \<longrightarrow> C sess' t \<and> C t sess'"
    and wp: "wp (getOrCreateSessionForIncoming B R (m_localDevice A) key)
         (\<lambda>(t, data) w'. invar (w_store w') \<and> opens B t data km G) (\<lambda>_ _. False) (locked (m_localDevice A) w)"
    by blast
  have marshal: "returns (Marshal B t)" if "G t" for t
    using G that laws(1) unfolding session_laws_def by blast
  from payload_law [OF laws(2) m(2)] obtain r where ct: "ct \<noteq> None"
    and r: "always (DecryptPayload B p km iv ct) r" "slice_string r = slice_string pt" by blast
  have payload: "always (DecryptPayload B (m_protocol R) km (em_IV msg) (em_Payload msg)) r" if "em_Payload msg \<noteq> None"
    using that r(1) m(3,4) R(2) by (auto split: if_splits)
  have "wp (DecryptMessage B R msg)
     (\<lambda>pt' w'. invar (w_store w') \<and> pt' = (if em_Payload msg = None then None else r) \<and>
        (\<exists>t y. G t \<and> may (Marshal B t) y \<and> a_sessions (alpha (w_store w')) (em_Sender msg) = Some y))
     (\<lambda>_ _. False) w"
    by (rule DecryptMessage_opens [OF R(1) _ m(5) _ marshal payload]) (use free wp m(1) in simp_all)
  then obtain r' w' t' y where run: "DecryptMessage B R msg w = (Inr r', w')" "invar (w_store w')"
      "r' = (if em_Payload msg = None then None else r)" "G t'" "may (Marshal B t') y"
      "a_sessions (alpha (w_store w')) (m_localDevice A) = Some y"
    unfolding wp_def m(1) by (auto split: prod.splits sum.splits)
  from G run(4) have "C sess' t'" "C t' sess'" by simp_all
  from in_stepI [OF laws(1) this t(3) run(5)] run r(2) t(4) m(3) ct show ?thesis
    by (auto split: if_splits)
qed

lemma message_in_session:
  assumes R: "m_store R = S" "m_protocol R = p" and A: "m_protocol A = p"
    and laws: "session_laws B p C" "payload_laws B"
    and msg: "delivers B A I (m_localDevice R) pt (Some x) msg stored'"
    and i: "invar (w_store w)" and free: "lock_free (m_localDevice A) w"
    and y: "a_sessions (alpha (w_store w)) (m_localDevice A) = Some y" and link: "linked B p C x y"
  shows "\<exists>r w' x y. DecryptMessage B R msg w = (Inr r, w') \<and> slice_string r = slice_string pt \<and>
     (pt = None \<longrightarrow> r = None) \<and> invar (w_store w') \<and> stored' = Some x \<and>
     a_sessions (alpha (w_store w')) (m_localDevice A) = Some y \<and> in_step B p C x y"
proof (rule message_read [OF R A laws msg free], goal_cases)
  case (1 km key sess sess')
  from link obtain s t where st: "C s t" "always (LoadSession B p x) s" "always (LoadSession B p y) t"
    by (auto simp: linked_def)
  from 1(2) st(2) A have "sess = s" and kx: "rk_KeyExchange key = None"
    by (auto simp: opened_def dest: always_may)
  with opens_sealed [OF laws(1) 1(1) st(1)] 1(3) have o: "opens B t (rk_Data key) km (\<lambda>t'. C sess' t' \<and> C t' sess')"
    by simp
  from incoming_stored [OF R(1) _ kx _ _ o, of "locked (m_localDevice A) w" "m_localDevice A" y] i y st(3) R(2)
  show ?case by (intro exI [of _ "\<lambda>t'. C sess' t' \<and> C t' sess'"]) simp
qed

end

end
