(* ===== verification/Manager_Handshake.thy ===== *)
theory Manager_Handshake
  imports Manager_Dialogue
begin

text \<open>
  The first message to a device: the sender fetches the device's bundle and starts a session with it,
  the receiver builds the other side from the key exchange. What the two key agreements of the backend
  promise is stated on key pairs the backend generated, the identity keys of both sides (results of
  \<open>GenerateIdentityKey\<close>) included; the bundle must be one the receiver offers, with private halves it
  still holds.
\<close>

section \<open>Key agreement\<close>

definition v2_handshake :: "('e, 'dr, 'ls, 'x) backend \<Rightarrow> ('dr \<Rightarrow> 'dr \<Rightarrow> bool) \<Rightarrow> bool" where
  "v2_handshake B P \<longleftrightarrow> (\<forall>ka kb pa pb spub spriv sig opub opriv key ad ek a.
     may (GenerateIdentityKey B ProtocolV2) ka \<and> may (GenerateIdentityKey B ProtocolV2) kb \<and>
     may (IdentityPublicKey B ProtocolV2 ka) pa \<and> may (IdentityPublicKey B ProtocolV2 kb) pb \<and>
     may (x3dh_CreateNewSpk B kb) (spub, spriv, sig) \<and> may (x3dh_CreateNewOpk B) (opub, opriv) \<and>
     may (x3dh_CreateInitialMessage B ka pb spub sig opub) (key, ad, ek) \<and>
     may (dr_CreateActive B key ad spub) a \<longrightarrow>
     always (x3dh_ReceiveInitialMessage B kb pa spriv opriv ek) (key, ad) \<and>
     sure (dr_CreatePassive B key ad spub spriv) (P a))"

text \<open>In v1 the key exchange is inside the first message, which the receiver parses.\<close>

definition v1_handshake :: "('e, 'dr, 'ls, 'x) backend \<Rightarrow> ('ls \<Rightarrow> 'ls \<Rightarrow> bool) \<Rightarrow> bool" where
  "v1_handshake B Q \<longleftrightarrow> (\<forall>ka kb pa pb spub spriv sig opub opriv x ek a km pk spk reg e c a' e'.
     may (GenerateIdentityKey B ProtocolV1) ka \<and> may (GenerateIdentityKey B ProtocolV1) kb \<and>
     may (IdentityPublicKey B ProtocolV1 ka) pa \<and> may (IdentityPublicKey B ProtocolV1 kb) pb \<and>
     may (ls_CreateNewSpk B kb) (spub, spriv, sig) \<and> may (x3dh_CreateNewOpk B) (opub, opriv) \<and>
     may (ls_CreateInitialMessage B ka pb spub sig opub) (x, ek) \<and> may (ls_NewActiveSession B ka pb x) a \<and>
     slice_string km \<noteq> [] \<and> ls_EncryptPreKeyWhisperMessage B km ek pk spk reg (a, e) = (Inr c, (a', e')) \<longrightarrow>
     (\<exists>pm. always (ls_ParsePreKeyMessage B c) pm \<and> pm_SignedPreKeyID pm = spk \<and> pm_PreKeyID pm = pk \<and>
        sure (ls_ReceiveInitialMessage B kb (pm_IdentityKey pm) spub spriv opriv (pm_BaseKey pm)) (\<lambda>y.
          sure (ls_NewPassiveSession B kb (pm_IdentityKey pm) y) (\<lambda>b.
            \<forall>e2. \<exists>b' e3. ls_DecryptWhisperMessage B (pm_Message pm) (b, e2) = (Inr km, (b', e3)) \<and>
              Q a' b' \<and> Q b' a'))))"

lemma v1_handshakeD:
  assumes "v1_handshake B Q"
    and "may (GenerateIdentityKey B ProtocolV1) ka" and "may (GenerateIdentityKey B ProtocolV1) kb"
    and "may (IdentityPublicKey B ProtocolV1 ka) pa" and "may (IdentityPublicKey B ProtocolV1 kb) pb"
    and "may (ls_CreateNewSpk B kb) (spub, spriv, sig)" and "may (x3dh_CreateNewOpk B) (opub, opriv)"
    and "may (ls_CreateInitialMessage B ka pb spub sig opub) (x, ek)" and "may (ls_NewActiveSession B ka pb x) a"
    and "slice_string km \<noteq> []" and "ls_EncryptPreKeyWhisperMessage B km ek pk spk reg (a, e) = (Inr c, (a', e'))"
  shows "\<exists>pm. always (ls_ParsePreKeyMessage B c) pm \<and> pm_SignedPreKeyID pm = spk \<and> pm_PreKeyID pm = pk \<and>
        sure (ls_ReceiveInitialMessage B kb (pm_IdentityKey pm) spub spriv opriv (pm_BaseKey pm)) (\<lambda>y.
          sure (ls_NewPassiveSession B kb (pm_IdentityKey pm) y) (\<lambda>b.
            \<forall>e2. \<exists>b' e3. ls_DecryptWhisperMessage B (pm_Message pm) (b, e2) = (Inr km, (b', e3)) \<and>
              Q a' b' \<and> Q b' a'))"
  by (rule assms(1) [unfolded v1_handshake_def, rule_format, OF conjI [OF assms(2) conjI [OF assms(3)
    conjI [OF assms(4) conjI [OF assms(5) conjI [OF assms(6) conjI [OF assms(7) conjI [OF assms(8)
    conjI [OF assms(9) conjI [OF assms(10,11)]]]]]]]]]])

definition handshake_laws ::
  "('e, 'dr, 'ls, 'x) backend \<Rightarrow> ('dr \<Rightarrow> 'dr \<Rightarrow> bool) \<Rightarrow> ('ls \<Rightarrow> 'ls \<Rightarrow> bool) \<Rightarrow> Protocol \<Rightarrow> bool" where
  "handshake_laws B P Q p \<longleftrightarrow> (if p = ProtocolV1 then v1_handshake B Q else p = ProtocolV2 \<and> v2_handshake B P)"

text \<open>
  \<open>b\<close> is a bundle that a sender can use with the manager \<open>R\<close> and the store \<open>a\<close>: the identity key is
  the public half of \<open>R\<close>'s own, which was generated, the signed prekey and the first one-time prekey (the
  one \<open>getOrCreateActiveSession\<close> takes) are of pairs that were generated and are in the store.
\<close>

definition offered ::
  "('e, 'dr, 'ls, 'x) backend \<Rightarrow> ('s, 'e) Manager \<Rightarrow> Bundle \<Rightarrow> astore \<Rightarrow> bool" where
  "offered B R b a \<longleftrightarrow>
     may (GenerateIdentityKey B (m_protocol R)) (m_identityKey R) \<and>
     may (IdentityPublicKey B (m_protocol R) (m_identityKey R)) (b_IdentityKey b) \<and>
     (\<exists>r. spk_for a (spk_ID (b_SignedPreKey b)) = Some r \<and> spr_Public r = spk_Public (b_SignedPreKey b) \<and>
        may (GenerateSignedPreKey B (m_protocol R) (m_identityKey R))
          (spr_Public r, spr_Private r, spk_Signature (b_SignedPreKey b))) \<and>
     (\<forall>pk pks. b_PreKeys b = pk # pks \<longrightarrow> (\<exists>rec. a_preKeys a (pk_ID pk) = Some rec \<and>
        may (GenerateOneTimePreKey B) (pk_Public pk, pkr_Private rec)))"

section \<open>Both sides of a new session\<close>

lemma NewActiveSession_v2:
  "may (NewActiveSession B ProtocolV2 ka pb spub sig opub i j k) (s, ek) \<Longrightarrow>
     \<exists>key ad a. may (x3dh_CreateInitialMessage B ka pb spub sig opub) (key, ad, ek) \<and>
       may (dr_CreateActive B key ad spub) a \<and> s = v2_session a"
  unfolding NewActiveSession_def v2_session_def by (fastforce dest!: may_andThenD)

lemma NewActiveSession_v1:
  "may (NewActiveSession B ProtocolV1 ka pb spub sig opub i j k) (s, ek) \<Longrightarrow>
     \<exists>x a. may (ls_CreateInitialMessage B ka pb spub sig opub) (x, ek) \<and>
       may (ls_NewActiveSession B ka pb x) a \<and>
       s = (v1_session a)\<lparr>s_pending := Some \<lparr>lp_ekPub = ek, lp_preKeyID = j, lp_signedPreKeyID = i,
              lp_registrationID = k\<rparr>\<rparr>"
  unfolding NewActiveSession_def v1_session_def by (fastforce dest!: may_andThenD)

lemma NewPassiveSession_sure:
  assumes "always (x3dh_ReceiveInitialMessage B kb pa spriv opriv ek) (key, ad)"
    and "sure (dr_CreatePassive B key ad spub spriv) (\<lambda>b. G (v2_session b))"
  shows "sure (NewPassiveSession B kb pa spub spriv opriv ek) G"
  using assms unfolding NewPassiveSession_def sure_always v2_session_def
  by (auto intro!: sure_andThen sure_wrapErr)

lemma NewPassiveSessionFromPreKeyBlob_sure:
  assumes "always (ls_ParsePreKeyMessage B c) pm"
    and "sure (ls_ReceiveInitialMessage B kb (pm_IdentityKey pm) spub spriv opriv (pm_BaseKey pm)) (\<lambda>y.
       sure (ls_NewPassiveSession B kb (pm_IdentityKey pm) y) (\<lambda>b. G (v1_session b)))"
  shows "sure (NewPassiveSessionFromPreKeyBlob B kb spub spriv opriv c)
     (\<lambda>(t, peer, inner). G t \<and> inner = pm_Message pm)"
  using assms unfolding NewPassiveSessionFromPreKeyBlob_def sure_always v1_session_def
  by (auto intro!: sure_andThen sure_wrapErr)

lemma PeekLegacyPreKeyIDs_always:
  "always (ls_ParsePreKeyMessage B c) pm \<Longrightarrow> always (PeekLegacyPreKeyIDs B c) (pm_SignedPreKeyID pm, pm_PreKeyID pm)"
  unfolding PeekLegacyPreKeyIDs_def by (auto intro: always_andThen)

lemma Decrypt_v1: "Decrypt B c (v1_session b, e) =
   (fst (ls_DecryptWhisperMessage B c (b, e)),
    (v1_session (fst (snd (ls_DecryptWhisperMessage B c (b, e)))), snd (snd (ls_DecryptWhisperMessage B c (b, e)))))"
  by (simp add: Decrypt_def v1_session_def on_ls_def case_prod_beta)

lemma Encrypt_v1_first:
  assumes "Encrypt B km ((v1_session a)\<lparr>s_pending := Some q\<rparr>, e) = (r, (s', e'))"
  shows "\<exists>a'. ls_EncryptPreKeyWhisperMessage B km (lp_ekPub q) (lp_preKeyID q) (lp_signedPreKeyID q)
     (lp_registrationID q) (a, e) = (r, (a', e')) \<and> s' = v1_session a'"
  using assms
  by (cases "ls_EncryptPreKeyWhisperMessage B km (lp_ekPub q) (lp_preKeyID q) (lp_signedPreKeyID q)
       (lp_registrationID q) (a, e)")
    (auto simp: Encrypt_def v1_session_def on_ls_def)

text \<open>What both sides know when a first message was made from an offered bundle.\<close>

lemma opened_offered:
  assumes p: "m_protocol R = p" "m_protocol A = p"
    and offers: "\<forall>e b e'. I e \<and> FetchBundle (m_transport A) (m_localDevice R) e = (Inr b, e') \<longrightarrow> offered B R b a"
    and opn: "opened B A I (m_localDevice R) None sess kx"
  shows "\<exists>(r :: SignedPreKeyRecord) (rec :: PreKeyRecord) i j ident pub sig ek own.
     may (GenerateIdentityKey B p) (m_identityKey R) \<and>
     may (IdentityPublicKey B p (m_identityKey R)) ident \<and> may (IdentityPublicKey B p (m_identityKey A)) own \<and>
     spk_for a i = Some r \<and> may (GenerateSignedPreKey B p (m_identityKey R)) (spr_Public r, spr_Private r, sig) \<and>
     a_preKeys a j = Some rec \<and> may (x3dh_CreateNewOpk B) (pub, pkr_Private rec) \<and>
     may (NewActiveSession B p (m_identityKey A) ident (spr_Public r) sig pub i j (dev_ID (m_localDevice A))) (sess, ek) \<and>
     kx = Some \<lparr>kx_IdentityKey = own, kx_EphemeralKey = ek, kx_SignedPreKeyID = i, kx_PreKeyID = j\<rparr>"
proof -
  from opn obtain b pk pks ek own e e' where b: "I e" "FetchBundle (m_transport A) (m_localDevice R) e = (Inr b, e')"
    "b_PreKeys b = pk # pks"
    and new: "may (NewActiveSession B p (m_identityKey A) (b_IdentityKey b)
        (spk_Public (b_SignedPreKey b)) (spk_Signature (b_SignedPreKey b)) (pk_Public pk)
        (spk_ID (b_SignedPreKey b)) (pk_ID pk) (dev_ID (m_localDevice A))) (sess, ek)"
    and own: "may (IdentityPublicKey B p (m_identityKey A)) own"
    and kx: "kx = Some \<lparr>kx_IdentityKey = own, kx_EphemeralKey = ek,
        kx_SignedPreKeyID = spk_ID (b_SignedPreKey b), kx_PreKeyID = pk_ID pk\<rparr>"
    unfolding opened_def p by auto
  from offers b(1,2) have "offered B R b a" by blast
  with b(3) obtain r :: SignedPreKeyRecord and rec :: PreKeyRecord where
    "may (GenerateIdentityKey B p) (m_identityKey R)" "may (IdentityPublicKey B p (m_identityKey R)) (b_IdentityKey b)"
    "spk_for a (spk_ID (b_SignedPreKey b)) = Some r" "spr_Public r = spk_Public (b_SignedPreKey b)"
    "may (GenerateSignedPreKey B p (m_identityKey R)) (spr_Public r, spr_Private r, spk_Signature (b_SignedPreKey b))"
    "a_preKeys a (pk_ID pk) = Some rec" "may (x3dh_CreateNewOpk B) (pk_Public pk, pkr_Private rec)"
    unfolding offered_def p by (auto simp: GenerateOneTimePreKey_def)
  with new own kx show ?thesis by metis
qed

lemma opens_v1:
  assumes "\<forall>e. \<exists>b' e'. ls_DecryptWhisperMessage B c (b, e) = (Inr km, (b', e')) \<and> Q a b' \<and> Q b' a"
  shows "opens B (v1_session b) c km (\<lambda>t. paired P Q ProtocolV1 (v1_session a) t \<and> paired P Q ProtocolV1 t (v1_session a))"
  unfolding opens_def Decrypt_v1
proof
  fix e
  from assms obtain b' e' where "ls_DecryptWhisperMessage B c (b, e) = (Inr km, (b', e'))" "Q a b'" "Q b' a" by blast
  then show "\<exists>t e'. (fst (ls_DecryptWhisperMessage B c (b, e)), v1_session (fst (snd (ls_DecryptWhisperMessage B c (b, e)))),
       snd (snd (ls_DecryptWhisperMessage B c (b, e)))) = (Inr km, t, e') \<and>
     paired P Q ProtocolV1 (v1_session a) t \<and> paired P Q ProtocolV1 t (v1_session a)"
    by (auto simp: paired_def)
qed

section \<open>The first message is read\<close>

context reliable_store
begin

lemma incoming_first_v2:
  assumes R: "m_store R = S" "m_protocol R = ProtocolV2" and A: "m_protocol A = ProtocolV2"
    and gen: "may (GenerateIdentityKey B ProtocolV2) (m_identityKey A)"
    and laws: "session_laws B ProtocolV2 (paired P Q ProtocolV2)" and hs: "v2_handshake B P"
    and offers: "\<And>e b e'. I e \<Longrightarrow> FetchBundle (m_transport A) (m_localDevice R) e = (Inr b, e') \<Longrightarrow>
       offered B R b (alpha (w_store w))"
    and i: "invar (w_store w)" and km: "slice_string km \<noteq> []"
    and opn: "opened B A I (m_localDevice R) None sess (rk_KeyExchange key)"
    and sealed: "sealed B km sess (rk_Data key) sess'"
  shows "\<exists>G. wp (getOrCreateSessionForIncoming B R dA key)
     (\<lambda>(t, data) w'. invar (w_store w') \<and> opens B t data km G) (\<lambda>_ _. False) w \<and>
     (\<forall>t. G t \<longrightarrow> paired P Q ProtocolV2 sess' t \<and> paired P Q ProtocolV2 t sess')"
proof -
  have off: "\<forall>e b e'. I e \<and> FetchBundle (m_transport A) (m_localDevice R) e = (Inr b, e') \<longrightarrow> offered B R b (alpha (w_store w))"
    using offers by blast
  from opened_offered [OF R(2) A off opn] obtain r :: SignedPreKeyRecord and rec :: PreKeyRecord and i j ident pub sig ek own where
    id: "may (IdentityPublicKey B ProtocolV2 (m_identityKey R)) ident" "may (IdentityPublicKey B ProtocolV2 (m_identityKey A)) own"
      "may (GenerateIdentityKey B ProtocolV2) (m_identityKey R)"
    and r: "spk_for (alpha (w_store w)) i = Some r" "may (x3dh_CreateNewSpk B (m_identityKey R)) (spr_Public r, spr_Private r, sig)"
    and rec: "a_preKeys (alpha (w_store w)) j = Some rec" "may (x3dh_CreateNewOpk B) (pub, pkr_Private rec)"
    and new: "may (NewActiveSession B ProtocolV2 (m_identityKey A) ident (spr_Public r) sig pub i j (dev_ID (m_localDevice A))) (sess, ek)"
    and kx: "rk_KeyExchange key = Some \<lparr>kx_IdentityKey = own, kx_EphemeralKey = ek, kx_SignedPreKeyID = i, kx_PreKeyID = j\<rparr>"
    by (auto simp: GenerateSignedPreKey_def)
  from NewActiveSession_v2 [OF new] obtain kk ad a where
    a: "may (x3dh_CreateInitialMessage B (m_identityKey A) ident (spr_Public r) sig pub) (kk, ad, ek)"
      "may (dr_CreateActive B kk ad (spr_Public r)) a" "sess = v2_session a" by blast
  let ?G = "\<lambda>t. paired P Q ProtocolV2 sess' t \<and> paired P Q ProtocolV2 t sess'"
  from hs gen id r(2) rec(2) a(1,2) have agree:
    "always (x3dh_ReceiveInitialMessage B (m_identityKey R) own (spr_Private r) (pkr_Private rec) ek) (kk, ad)"
    "sure (dr_CreatePassive B kk ad (spr_Public r) (spr_Private r)) (P a)"
    unfolding v2_handshake_def by metis+
  have "opens B (v2_session b') (rk_Data key) km ?G" if "P a b'" for b'
    by (rule opens_sealed [OF laws km _ sealed]) (use that in \<open>auto simp: a(3) paired_def\<close>)
  with agree have "sure (NewPassiveSession B (m_identityKey R) own (spr_Public r) (spr_Private r)
       (pkr_Private rec) ek) (\<lambda>t. opens B t (rk_Data key) km ?G)"
    by (intro NewPassiveSession_sure) (auto elim: sure_mono)
  with incoming_v2 [OF R(1) i kx, of r rec B km ?G dA] R(2) r(1) rec(1) show ?thesis
    by (intro exI [of _ ?G]) simp
qed

lemma incoming_first_v1:
  assumes R: "m_store R = S" "m_protocol R = ProtocolV1" and A: "m_protocol A = ProtocolV1"
    and gen: "may (GenerateIdentityKey B ProtocolV1) (m_identityKey A)" and hs: "v1_handshake B Q"
    and offers: "\<And>e b e'. I e \<Longrightarrow> FetchBundle (m_transport A) (m_localDevice R) e = (Inr b, e') \<Longrightarrow>
       offered B R b (alpha (w_store w))"
    and i: "invar (w_store w)" and km: "slice_string km \<noteq> []"
    and opn: "opened B A I (m_localDevice R) None sess (rk_KeyExchange key)"
    and sealed: "sealed B km sess (rk_Data key) sess'"
  shows "\<exists>G. wp (getOrCreateSessionForIncoming B R dA key)
     (\<lambda>(t, data) w'. invar (w_store w') \<and> opens B t data km G) (\<lambda>_ _. False) w \<and>
     (\<forall>t. G t \<longrightarrow> paired P Q ProtocolV1 sess' t \<and> paired P Q ProtocolV1 t sess')"
proof -
  have off: "\<forall>e b e'. I e \<and> FetchBundle (m_transport A) (m_localDevice R) e = (Inr b, e') \<longrightarrow> offered B R b (alpha (w_store w))"
    using offers by blast
  from opened_offered [OF R(2) A off opn] obtain r :: SignedPreKeyRecord and rec :: PreKeyRecord and i j ident pub sig ek own kx where
    id: "may (IdentityPublicKey B ProtocolV1 (m_identityKey R)) ident" "may (IdentityPublicKey B ProtocolV1 (m_identityKey A)) own"
      "may (GenerateIdentityKey B ProtocolV1) (m_identityKey R)"
    and r: "spk_for (alpha (w_store w)) i = Some r" "may (ls_CreateNewSpk B (m_identityKey R)) (spr_Public r, spr_Private r, sig)"
    and rec: "a_preKeys (alpha (w_store w)) j = Some rec" "may (x3dh_CreateNewOpk B) (pub, pkr_Private rec)"
    and new: "may (NewActiveSession B ProtocolV1 (m_identityKey A) ident (spr_Public r) sig pub i j (dev_ID (m_localDevice A))) (sess, ek)"
    and kx: "rk_KeyExchange key = Some kx"
    by (auto simp: GenerateSignedPreKey_def)
  from NewActiveSession_v1 [OF new] obtain x a where
    a: "may (ls_CreateInitialMessage B (m_identityKey A) ident (spr_Public r) sig pub) (x, ek)"
      "may (ls_NewActiveSession B (m_identityKey A) ident x) a"
    and sess: "sess = (v1_session a)\<lparr>s_pending := Some \<lparr>lp_ekPub = ek, lp_preKeyID = j,
        lp_signedPreKeyID = i, lp_registrationID = dev_ID (m_localDevice A)\<rparr>\<rparr>" by blast
  from sealed sess obtain a' e1 e2 where
    enc: "ls_EncryptPreKeyWhisperMessage B km ek j i (dev_ID (m_localDevice A)) (a, e1) = (Inr (rk_Data key), (a', e2))"
      "sess' = v1_session a'"
    by (auto simp: sealed_def dest: Encrypt_v1_first)
  from v1_handshakeD [OF hs gen id(3,2,1) r(2) rec(2) a km enc(1)] obtain pm where pm: "always (ls_ParsePreKeyMessage B (rk_Data key)) pm"
      "pm_SignedPreKeyID pm = i" "pm_PreKeyID pm = j"
    and agree: "sure (ls_ReceiveInitialMessage B (m_identityKey R) (pm_IdentityKey pm) (spr_Public r) (spr_Private r)
         (pkr_Private rec) (pm_BaseKey pm)) (\<lambda>y. sure (ls_NewPassiveSession B (m_identityKey R) (pm_IdentityKey pm) y)
           (\<lambda>b. \<forall>e2. \<exists>b' e3. ls_DecryptWhisperMessage B (pm_Message pm) (b, e2) = (Inr km, (b', e3)) \<and> Q a' b' \<and> Q b' a'))"
    by blast
  let ?G = "\<lambda>t. paired P Q ProtocolV1 sess' t \<and> paired P Q ProtocolV1 t sess'"
  note opens = opens_v1 [of B "pm_Message pm" _ km Q a' P, folded enc(2)]
  from agree have "sure (NewPassiveSessionFromPreKeyBlob B (m_identityKey R) (spr_Public r) (spr_Private r)
       (pkr_Private rec) (rk_Data key)) (\<lambda>(t, peer, inner). opens B t (pm_Message pm) km ?G \<and> inner = pm_Message pm)"
    by (intro NewPassiveSessionFromPreKeyBlob_sure [OF pm(1)]) (auto elim!: sure_mono intro: opens)
  then have new: "sure (NewPassiveSessionFromPreKeyBlob B (m_identityKey R) (spr_Public r) (spr_Private r)
       (pkr_Private rec) (rk_Data key)) (\<lambda>(t, peer, inner). opens B t inner km ?G)"
    by (rule sure_mono) auto
  from incoming_v1 [OF R(1) i kx R(2) PeekLegacyPreKeyIDs_always [OF pm(1), unfolded pm(2,3)] r(1) rec(1) new]
  show ?thesis by (intro exI [of _ ?G]) simp
qed

text \<open>The first message, in either protocol.\<close>

lemma message_first:
  assumes R: "m_store R = S" "m_protocol R = p" and A: "m_protocol A = p"
    and gen: "may (GenerateIdentityKey B p) (m_identityKey A)"
    and laws: "ratchet_laws B P Q p" "payload_laws B" and hs: "handshake_laws B P Q p"
    and msg: "delivers B A I (m_localDevice R) pt None msg stored'"
    and i: "invar (w_store w)" and free: "lock_free (m_localDevice A) w"
    and offers: "\<And>e b e'. I e \<Longrightarrow> FetchBundle (m_transport A) (m_localDevice R) e = (Inr b, e') \<Longrightarrow>
       offered B R b (alpha (w_store w))"
  shows "\<exists>r w' x y. DecryptMessage B R msg w = (Inr r, w') \<and> slice_string r = slice_string pt \<and>
     (pt = None \<longrightarrow> r = None) \<and> invar (w_store w') \<and> stored' = Some x \<and>
     a_sessions (alpha (w_store w')) (m_localDevice A) = Some y \<and> in_step B p (paired P Q p) x y"
proof (rule message_read [OF R A session_laws [OF laws(1)] laws(2) msg free], goal_cases)
  case (1 km key sess sess')
  let ?w = "locked (m_localDevice A) w"
  have st: "invar (w_store ?w)" "\<And>e b e'. I e \<Longrightarrow> FetchBundle (m_transport A) (m_localDevice R) e = (Inr b, e') \<Longrightarrow>
       offered B R b (alpha (w_store ?w))" using i offers by simp_all
  show ?case
  proof (cases "p = ProtocolV1")
    case True
    with R(2) A gen hs have "m_protocol R = ProtocolV1" "m_protocol A = ProtocolV1"
      "may (GenerateIdentityKey B ProtocolV1) (m_identityKey A)" "v1_handshake B Q"
      by (auto simp: handshake_laws_def)
    from incoming_first_v1 [OF R(1) this st(2,1) 1] show ?thesis unfolding True .
  next
    case False
    with hs have p: "p = ProtocolV2" and "v2_handshake B P" by (auto simp: handshake_laws_def)
    with R(2) A gen laws(1) have "m_protocol R = ProtocolV2" "m_protocol A = ProtocolV2"
      "may (GenerateIdentityKey B ProtocolV2) (m_identityKey A)"
      "session_laws B ProtocolV2 (paired P Q ProtocolV2)" "v2_handshake B P" by (auto intro: session_laws)
    from incoming_first_v2 [OF R(1) this st(2,1) 1] show ?thesis unfolding p .
  qed
qed

end

end
