(* ===== verification/Manager_Acquaintance.thy ===== *)
theory Manager_Acquaintance
  imports Manager_Handshake
begin

text \<open>
  When \<open>EncryptMessage\<close> is sure to serve a device: the device lists of both accounts are known or the
  network has them, the device's identity key is trusted or the trust callback takes it, and its turn
  comes to a key. The message then carries the key, and afterwards the device is a contact.
\<close>

section \<open>Device lists, known or fetched\<close>

definition listing :: "('e \<Rightarrow> bool) \<Rightarrow> ('s, 'e) Manager \<Rightarrow> string \<Rightarrow> DeviceID list \<Rightarrow> astore \<Rightarrow> bool" where
  "listing I M j ids a \<longleftrightarrow> ids \<noteq> [] \<and> (a_devices a j = ids \<or> a_devices a j = [] \<and>
     (\<forall>e. I e \<longrightarrow> (\<exists>l e'. FetchDeviceList (m_transport M) j e = (Inr l, e') \<and> dl_Devices l = ids)))"

lemma listing_known: "a_devices a j \<noteq> [] \<Longrightarrow> listing I M j (a_devices a j) a"
  by (simp add: listing_def)

lemma listing_put: "listing I M j ids a \<Longrightarrow> j' \<noteq> j \<Longrightarrow> listing I M j ids (a\<lparr>a_devices := (a_devices a)(j' := x)\<rparr>)"
  by (simp add: listing_def)

context reliable_store
begin

lemma devicesFor_listing:
  assumes M: "m_store M = S" and i: "invar (w_store w)" and env: "env_kept I B M" and I: "I (w_env w)"
    and l: "listing I M jid ids (alpha (w_store w))"
    and ok: "\<And>w'. invar (w_store w') \<Longrightarrow> I (w_env w') \<Longrightarrow>
       alpha (w_store w') = (alpha (w_store w))\<lparr>a_devices := (a_devices (alpha (w_store w)))(jid := ids)\<rparr> \<Longrightarrow> Q ids w'"
  shows "wp (devicesFor M jid) Q E w"
proof -
  have keeps: "I e'" if "FetchDeviceList (m_transport M) jid e = (r, e')" "I e" for e r e'
    using stable_runD [OF env_keptD(1) [OF env] that(1)] that(2) by (simp add: inv_rel_def)
  have fetch: "wp (liftE (FetchDeviceList (m_transport M) jid)) Q' E' v"
    if "a_devices (alpha (w_store w)) jid = []" "I (w_env v)" and "\<And>l e. dl_Devices l = ids \<Longrightarrow> I e \<Longrightarrow> Q' l (v\<lparr>w_env := e\<rparr>)"
    for Q' E' and v :: "('a, 'b) world"
  proof -
    from l that(1,2) obtain lst e' where "FetchDeviceList (m_transport M) jid (w_env v) = (Inr lst, e')" "dl_Devices lst = ids"
      by (auto simp: listing_def)
    with that(3) keeps [OF this(1) that(2)] show ?thesis by (simp add: wp_def liftE_def zoom_def)
  qed
  have known: "a_devices (alpha (w_store w)) jid \<noteq> [] \<Longrightarrow> ids = a_devices (alpha (w_store w)) jid"
    and ne: "ids \<noteq> []" using l by (auto simp: listing_def)
  have "a\<lparr>a_devices := (a_devices a)(jid := a_devices a jid)\<rparr> = a" for a by (cases a) simp
  with known have old: "Q x v" if "x = ids" "a_devices (alpha (w_store w)) jid \<noteq> []" "invar (w_store v)" "I (w_env v)"
      "alpha (w_store v) = alpha (w_store w)" for x v
    using that ok by metis
  have put: "Q x v" if "x = ids" "invar (w_store v)" "I (w_env v)"
      "alpha (w_store v) = (alpha (w_store w))\<lparr>a_devices := (a_devices (alpha (w_store w)))(jid := ids)\<rparr>" for x v
    using that ok by blast
  show ?thesis
  proof (cases "a_devices (alpha (w_store w)) jid = []")
    case True
    with ne show ?thesis
      unfolding devicesFor_def SyncDevices_def
      by (auto simp: wp_simps M i I intro!: wp_store_total [OF Devices_spec Devices_total]
          wp_store_total [OF SetDevices_spec SetDevices_total] fetch put)
  next
    case False
    with known show ?thesis
      unfolding devicesFor_def
      by (auto simp: wp_simps M i I intro!: wp_store_total [OF Devices_spec Devices_total] old)
  qed
qed

lemma recipientDevices_listing:
  assumes M: "m_store M = S" and i: "invar (w_store w)" and env: "env_kept I B M" and I: "I (w_env w)"
    and l: "\<And>j. j \<in> {jid, dev_JID (m_localDevice M)} \<Longrightarrow> listing I M j (f j) (alpha (w_store w))"
  shows "wp (recipientDevices M jid)
     (\<lambda>devs w'. devs = all_devices M jid ((alpha (w_store w))\<lparr>a_devices := f\<rparr>) \<and>
        (\<forall>j \<in> {jid, dev_JID (m_localDevice M)}. a_devices (alpha (w_store w')) j = f j)) (\<lambda>_ _. False) w"
  unfolding recipientDevices_def Let_def wp_andThen devs_of_def [symmetric]
proof (rule devicesFor_listing [OF M i env I l], simp, goal_cases)
  case (1 w1)
  let ?own = "dev_JID (m_localDevice M)"
  show ?case
  proof (cases "jid = ?own")
    case True
    with 1 show ?thesis by (simp add: wp_simps all_devices_def)
  next
    case False
    have "listing I M ?own (f ?own) (alpha (w_store w1))" using l [of ?own] False by (simp add: 1 listing_put)
    then have "wp (devicesFor M ?own) (\<lambda>ids w'. ids = f ?own \<and> alpha (w_store w') =
       (alpha (w_store w1))\<lparr>a_devices := (a_devices (alpha (w_store w1)))(?own := f ?own)\<rparr>) (\<lambda>_ _. False) w1"
      by (intro devicesFor_listing [OF M 1(1) env 1(2)]) auto
    with False 1(3) show ?thesis
      by (auto simp: wp_simps all_devices_def elim!: wp_mono)
  qed
qed

lemma encrypt_listing:
  assumes M: "m_store M = S" and i: "invar (w_store w)" and env: "env_kept I B M" and I: "I (w_env w)"
    and l: "\<And>j. j \<in> {jid, dev_JID (m_localDevice M)} \<Longrightarrow> listing I M j (f j) (alpha (w_store w))"
  shows "wp (encrypt B M jid pt)
     (\<lambda>_ w'. \<forall>j \<in> {jid, dev_JID (m_localDevice M)}. a_devices (alpha (w_store w')) j = f j) (\<lambda>_ _. True) w"
proof -
  let ?ok = "\<lambda>w'. invar (w_store w') \<and> (\<forall>j \<in> {jid, dev_JID (m_localDevice M)}. a_devices (alpha (w_store w')) j = f j)"
  have loop: "wp (encryptLoop B M km devs ks es) (\<lambda>_. ?ok) (\<lambda>_ _. True) w1" if "?ok w1" for km devs ks es w1
    by (rule wp_mono [OF encryptLoop_wp [OF M]]) (use that in \<open>auto dest: enc_many_devices\<close>)
  have "wp (encrypt B M jid pt) (\<lambda>_. ?ok) (\<lambda>_ _. True) w"
    unfolding encrypt_def wp_tryCatch Let_def
  proof (rule wp_mono [OF wp_conj [OF recipientDevices_total_wp [OF M i] recipientDevices_listing [OF M i env I l]]],
      assumption, goal_cases)
    case (1 devs w1)
    then have ok: "?ok w1" by simp
    show ?case
      by (rule wp_liftE_run) (use ok in \<open>auto simp: wp_simps wp_ret_fun split: prod.split intro!: loop [THEN wp_mono]\<close>)
  qed simp
  then show ?thesis by (rule wp_mono) auto
qed

end

section \<open>Contacts\<close>

text \<open>\<open>M\<close> can send to \<open>peer\<close>: a session \<open>x\<close>, a trusted identity key, the lists of both accounts known.\<close>

definition contact :: "('s, 'e) Manager \<Rightarrow> Device \<Rightarrow> slice \<Rightarrow> astore \<Rightarrow> bool" where
  "contact M peer x a \<longleftrightarrow> (\<exists>k. ready_with peer x k a) \<and>
     a_devices a (dev_JID peer) \<noteq> [] \<and> a_devices a (dev_JID (m_localDevice M)) \<noteq> [] \<and>
     filter (\<lambda>d. dev_ID d = dev_ID peer) (recipients M (dev_JID peer) a) = [peer]"

text \<open>
  Less than a contact: the identity key may be undecided if the callback takes it, and device lists may
  have to be fetched from the network. \<open>one_peer\<close> says that the lists \<open>f\<close> have the device once.
\<close>

definition one_peer :: "('s, 'e) Manager \<Rightarrow> Device \<Rightarrow> (string \<Rightarrow> DeviceID list) \<Rightarrow> astore \<Rightarrow> bool" where
  "one_peer M peer f a \<longleftrightarrow>
     filter (\<lambda>d. dev_ID d = dev_ID peer) (recipients M (dev_JID peer) (a\<lparr>a_devices := f\<rparr>)) = [peer]"

definition findable :: "('e \<Rightarrow> bool) \<Rightarrow> ('s, 'e) Manager \<Rightarrow> Device \<Rightarrow> astore \<Rightarrow> bool" where
  "findable I M peer a \<longleftrightarrow> (\<exists>f. (\<forall>j \<in> {dev_JID peer, dev_JID (m_localDevice M)}. listing I M j (f j) a) \<and> one_peer M peer f a)"

definition acquainted :: "('e \<Rightarrow> bool) \<Rightarrow> ('s, 'e) Manager \<Rightarrow> Device \<Rightarrow> slice \<Rightarrow> astore \<Rightarrow> bool" where
  "acquainted I M peer x a \<longleftrightarrow> (\<exists>k. takes_with M peer x k a) \<and> findable I M peer a"

lemma contact_acquainted: "contact M peer x a \<Longrightarrow> acquainted I M peer x a"
  unfolding contact_def acquainted_def findable_def one_peer_def
  by (auto intro: ready_takes listing_known intro!: exI [of _ "a_devices a"])

lemma one_peer_cong:
  "(\<And>j. j \<in> {dev_JID peer, dev_JID (m_localDevice M)} \<Longrightarrow> f j = g j) \<Longrightarrow> one_peer M peer f a \<longleftrightarrow> one_peer M peer g b"
  by (simp add: one_peer_def recipients_def all_devices_def)

lemma findable_other: "a_devices a' = a_devices a \<Longrightarrow> findable I M peer a \<Longrightarrow> findable I M peer a'"
  unfolding findable_def listing_def using one_peer_cong by metis

lemma acquainted_put:
  assumes "acquainted I M peer y a" and "session_put peer a a'" and "a_sessions a' peer = Some y'"
  shows "acquainted I M peer y' a'"
proof -
  from assms(2) have lists: "a_devices a' = a_devices a" by (auto simp: session_put_def)
  have "findable I M peer a'" using assms(1) by (auto simp: acquainted_def intro: findable_other [OF lists])
  with assms show ?thesis
    by (auto simp: acquainted_def session_put_def takes_with_def takes_def)
qed

lemma one_peer_ne: "one_peer M peer f a \<Longrightarrow> peer \<noteq> m_localDevice M"
  and one_peer_listed: "one_peer M peer f a \<Longrightarrow> peer \<in> set (all_devices M (dev_JID peer) (a\<lparr>a_devices := f\<rparr>))"
proof -
  assume "one_peer M peer f a"
  then have "peer \<in> set (filter (\<lambda>d. dev_ID d = dev_ID peer) (recipients M (dev_JID peer) (a\<lparr>a_devices := f\<rparr>)))"
    by (simp add: one_peer_def)
  then have "peer \<in> set (recipients M (dev_JID peer) (a\<lparr>a_devices := f\<rparr>))" by (simp only: set_filter mem_Collect_eq)
  then show "peer \<noteq> m_localDevice M" "peer \<in> set (all_devices M (dev_JID peer) (a\<lparr>a_devices := f\<rparr>))"
    by (simp_all add: recipients_def)
qed

text \<open>A device that is listed once and has a key has no device error.\<close>

lemma served_skipped_filter:
  "length bs = length ds \<Longrightarrow>
     length (filter P (served bs ds)) + length (filter P (skipped bs ds)) = length (filter P ds)"
  by (induction bs ds rule: list_induct2) auto

lemma loop_post_unique:
  assumes post: "loop_post ds keys errs a" and one: "filter (\<lambda>d. dev_ID d = dev_ID dev) ds = [dev]"
    and key: "key \<in> set keys" "rk_Device key = dev_ID dev"
  shows "dev \<notin> de_Device ` set errs"
proof
  assume err: "dev \<in> de_Device ` set errs"
  from post obtain bs where bs: "length bs = length ds" "map rk_Device keys = map dev_ID (served bs ds)"
    "map de_Device errs = skipped bs ds" by (auto simp: loop_post_def)
  from key have "dev_ID dev \<in> set (map rk_Device keys)" by force
  then have "dev_ID dev \<in> dev_ID ` set (served bs ds)" unfolding bs(2) by simp
  then have "filter (\<lambda>d. dev_ID d = dev_ID dev) (served bs ds) \<noteq> []" by (auto simp: filter_empty_conv)
  moreover from err have "dev \<in> set (map de_Device errs)" by simp
  then have "filter (\<lambda>d. dev_ID d = dev_ID dev) (skipped bs ds) \<noteq> []" by (auto simp: bs(3) filter_empty_conv)
  ultimately show False
    using served_skipped_filter [OF bs(1), of "\<lambda>d. dev_ID d = dev_ID dev"] one
    by (cases "filter (\<lambda>d. dev_ID d = dev_ID dev) (served bs ds)";
        cases "filter (\<lambda>d. dev_ID d = dev_ID dev) (skipped bs ds)") simp_all
qed

lemma served_or_skipped:
  "length bs = length ds \<Longrightarrow> d \<in> set ds \<Longrightarrow> d \<in> set (served bs ds) \<or> d \<in> set (skipped bs ds)"
  by (induction bs ds rule: list_induct2) auto

lemma loop_post_ready:
  assumes "loop_post ds keys errs a" and "d \<in> set ds" and "d \<notin> de_Device ` set errs"
  shows "\<exists>k. ready d k a"
proof -
  from assms(1) obtain bs where bs: "length bs = length ds" "map de_Device errs = skipped bs ds"
    "\<forall>d \<in> set (served bs ds). \<exists>k. ready d k a" by (auto simp: loop_post_def)
  from assms(3) have "d \<notin> set (map de_Device errs)" by simp
  with bs served_or_skipped [OF bs(1) assms(2)] show ?thesis by simp
qed

text \<open>A listed peer that has a key in the message has no device error and is a contact.\<close>

lemma served_contact:
  assumes post: "loop_post (recipients M (dev_JID peer) a) keys errs a" and one: "one_peer M peer f a0"
    and f: "\<forall>j \<in> {dev_JID peer, dev_JID (m_localDevice M)}. f j \<noteq> [] \<and> a_devices a j = f j"
    and key: "key \<in> set keys" "rk_Device key = dev_ID peer"
  shows "filter (\<lambda>d. dev_ID d = dev_ID peer) (recipients M (dev_JID peer) a) = [peer]" and "peer \<notin> de_Device ` set errs"
    and "a_sessions a peer = Some x \<Longrightarrow> contact M peer x a"
proof -
  have "one_peer M peer (a_devices a) a"
    using one f one_peer_cong [of peer M "a_devices a" f] by blast
  then show one': "filter (\<lambda>d. dev_ID d = dev_ID peer) (recipients M (dev_JID peer) a) = [peer]"
    by (simp add: one_peer_def)
  then have "peer \<in> set (filter (\<lambda>d. dev_ID d = dev_ID peer) (recipients M (dev_JID peer) a))" by simp
  then have mem: "peer \<in> set (recipients M (dev_JID peer) a)" by (simp only: set_filter mem_Collect_eq)
  show none: "peer \<notin> de_Device ` set errs" by (rule loop_post_unique [OF post one' key])
  from loop_post_ready [OF post mem none] obtain k where "ready peer k a" ..
  with f one' show "contact M peer x a" if "a_sessions a peer = Some x"
    using that by (auto simp: contact_def ready_with_def)
qed

section \<open>A message that is served\<close>

context reliable_store
begin

text \<open>
  \<open>P\<close> is what the turn of the peer needs of the store; it is kept by the fetching of lists and by the
  turns of other devices.
\<close>

lemma EncryptMessage_served:
  assumes M: "m_store M = S" and B: "calm_backend B" and c: "calm_manager M" and env: "env_kept I B M"
    and q: "quiet invar {} w" and I: "I (w_env w)" and fnd: "findable I M peer (alpha (w_store w))"
    and P: "P (alpha (w_store w))"
    and lists: "\<And>J a b. lists_frame J a b \<Longrightarrow> P a \<Longrightarrow> P b"
    and keep: "\<And>d a b. d \<noteq> peer \<Longrightarrow> P a \<Longrightarrow> enc_ok d a b \<Longrightarrow> P b"
    and turn: "\<And>km w. invar (w_store w) \<Longrightarrow> I (w_env w) \<Longrightarrow> P (alpha (w_store w)) \<Longrightarrow>
       wp (encryptForDevice B M peer km) (\<lambda>key _. rk_Device key = dev_ID peer) (\<lambda>e _. is_fatal e) w"
    and payload: "returns (EncryptPayload B (m_protocol M) pt)"
  shows "\<exists>msg errs err w'. EncryptMessage B M (dev_JID peer) pt w = (Inr (Some msg, errs, err), w') \<and>
     quiet invar {} w' \<and> I (w_env w') \<and> peer \<notin> de_Device ` set errs \<and>
     send_frame {dev_JID peer, dev_JID (m_localDevice M)} (alpha (w_store w)) (alpha (w_store w')) \<and>
     delivers B M I peer pt (a_sessions (alpha (w_store w)) peer) msg (a_sessions (alpha (w_store w')) peer) \<and>
     (\<forall>x. a_sessions (alpha (w_store w')) peer = Some x \<longrightarrow> contact M peer x (alpha (w_store w')))"
proof -
  let ?jid = "dev_JID peer" and ?own = "dev_JID (m_localDevice M)"
  from q have i: "invar (w_store w)" by (simp add: quiet_def)
  from fnd obtain f where l: "\<And>j. j \<in> {?jid, ?own} \<Longrightarrow> listing I M j (f j) (alpha (w_store w))"
    and one: "one_peer M peer f (alpha (w_store w))" unfolding findable_def by blast
  note nl = one_peer_ne [OF one]
  have rcpt: "wp (recipientDevices M ?jid) (\<lambda>devs _. peer \<in> set devs) (\<lambda>e _. is_fatal e) w"
    by (rule wp_mono [OF recipientDevices_listing [OF M i env I l]]) (auto simp: one_peer_listed [OF one])
  have turn': "wp (encryptForDevice B M peer km) (\<lambda>key _. rk_Device key = dev_ID peer) (\<lambda>e _. is_fatal e \<or> False) w1"
    if "invar (w_store w1)" "I (w_env w1)" "P (alpha (w_store w1))" for km w1
    by (rule wp_mono [OF turn [OF that]]) auto
  have served: "wp (encrypt B M ?jid pt)
     (\<lambda>(m, errs, err) _. (\<exists>msg. m = Some msg \<and> (\<exists>key \<in> set (em_Keys msg). rk_Device key = dev_ID peer)) \<or>
        (\<exists>err \<in> set errs. de_Device err = peer \<and> False)) (\<lambda>_ _. True) w"
    by (rule encrypt_outcome_gen [where I = I and P = P, OF M i nl env I rcpt P M])
      (use lists keep turn' payload in \<open>auto simp: returns_def\<close>)
  note calm = safeD [OF encrypt_safe [OF M B c] q, of ?jid pt]
  note total = encrypt_total_wp [OF M i M i, of B ?jid pt]
  note del = encrypt_delivers [OF M i env I nl, of ?jid pt]
  note envs = env_wp [OF encrypt_env [OF env], of w ?jid pt, OF I]
  note devs = encrypt_listing [where B = B and pt = pt, OF M i env I l]
  obtain r w' where run: "encrypt B M ?jid pt w = (r, w')" by fastforce
  show ?thesis
  proof (cases r)
    case (Inl e)
    with calm total run show ?thesis by (simp add: wp_def)
  next
    case (Inr t)
    with run have ok: "encrypt B M ?jid pt w = (Inr t, w')" by simp
    obtain m errs err where t: "t = (m, errs, err)" by (cases t)
    from wp_run_Inr [OF served ok] t obtain msg key where m: "m = Some msg" "key \<in> set (em_Keys msg)"
      "rk_Device key = dev_ID peer" by auto
    from wp_run_Inr [OF total ok] t m(1) have
      frame: "send_frame {?jid, ?own} (alpha (w_store w)) (alpha (w_store w'))"
      and post: "loop_post (recipients M ?jid (alpha (w_store w'))) (em_Keys msg) errs (alpha (w_store w'))"
      by (auto simp: encrypt_post_def recipients_def split: option.splits)
    from wp_run_Inr [OF devs ok] l have f: "\<forall>j \<in> {?jid, ?own}. f j \<noteq> [] \<and> a_devices (alpha (w_store w')) j = f j"
      by (auto simp: listing_def)
    note contact = served_contact [OF post one f m(2,3)]
    from wp_run_Inr [OF del ok] contact(1,2) t m(1)
    have "delivers B M I peer pt (a_sessions (alpha (w_store w)) peer) msg (a_sessions (alpha (w_store w')) peer)" by simp
    moreover from wp_run_Inr [OF calm ok] have "quiet invar {} w'" by simp
    moreover from wp_run_Inr [OF envs ok] have "I (w_env w')" by simp
    ultimately show ?thesis using ok frame contact(2,3) t m(1) unfolding EncryptMessage_def by blast
  qed
qed

lemma EncryptMessage_acquainted:
  assumes M: "m_store M = S" and B: "calm_backend B" and c: "calm_manager M" and env: "env_kept I B M"
    and q: "quiet invar {} w" and I: "I (w_env w)" and acq: "acquainted I M peer x (alpha (w_store w))"
    and u: "usable B (m_protocol M) x" and payload: "returns (EncryptPayload B (m_protocol M) pt)"
  shows "\<exists>msg errs err w'. EncryptMessage B M (dev_JID peer) pt w = (Inr (Some msg, errs, err), w') \<and>
     quiet invar {} w' \<and> I (w_env w') \<and> delivers B M I peer pt (Some x) msg (a_sessions (alpha (w_store w')) peer) \<and>
     (\<forall>x. a_sessions (alpha (w_store w')) peer = Some x \<longrightarrow> contact M peer x (alpha (w_store w')))"
proof -
  from acq obtain k where P: "takes_with M peer x k (alpha (w_store w))" and fnd: "findable I M peer (alpha (w_store w))"
    by (auto simp: acquainted_def)
  have turn: "wp (encryptForDevice B M peer km) (\<lambda>key _. rk_Device key = dev_ID peer) (\<lambda>e _. is_fatal e) w1"
    if "invar (w_store w1)" "takes_with M peer x k (alpha (w_store w1))" for km w1
    by (rule wp_mono [OF encryptForDevice_takes [OF M that u]]) auto
  have "\<exists>msg errs err w'. EncryptMessage B M (dev_JID peer) pt w = (Inr (Some msg, errs, err), w') \<and>
     quiet invar {} w' \<and> I (w_env w') \<and> peer \<notin> de_Device ` set errs \<and>
     send_frame {dev_JID peer, dev_JID (m_localDevice M)} (alpha (w_store w)) (alpha (w_store w')) \<and>
     delivers B M I peer pt (a_sessions (alpha (w_store w)) peer) msg (a_sessions (alpha (w_store w')) peer) \<and>
     (\<forall>x. a_sessions (alpha (w_store w')) peer = Some x \<longrightarrow> contact M peer x (alpha (w_store w')))"
    by (rule EncryptMessage_served [where P = "takes_with M peer x k", OF M B c env q I fnd P _ _ turn payload])
      (auto intro: conditions_lists takes_with_kept)
  with P show ?thesis by (auto simp: takes_with_def)
qed

end

end
