(* ===== verification/Manager_Exchange.thy ===== *)
theory Manager_Exchange
  imports Manager_Acquaintance
begin

text \<open>
  Whole dialogues. \<open>transmit\<close> sends one message with \<open>EncryptMessage\<close> and reads it with the other
  device's \<open>DecryptMessage\<close>; both act on the same environment. \<open>dialogue\<close> runs a script of messages
  in either direction. Two devices are \<open>conversing\<close> when each holds a session in step with the
  other's, trusts its identity key and knows its device list; every transmission keeps this.
\<close>

section \<open>Transmissions\<close>

definition transmit ::
  "('e, 'dr, 'ls, 'x) backend \<Rightarrow> ('s, 'e) Manager \<Rightarrow> ('s, 'e) Manager \<Rightarrow> slice \<Rightarrow>
     ('s, 'e) world \<times> ('s, 'e) world \<Rightarrow> (goerror + slice) \<times> ('s, 'e) world \<times> ('s, 'e) world" where
  "transmit B A R pt = (\<lambda>(wA, wR).
     (case EncryptMessage B A (dev_JID (m_localDevice R)) pt wA of
        (Inl e, wA') \<Rightarrow> (Inl e, wA', wR)
      | (Inr (None, errs, err), wA') \<Rightarrow> (Inl (case err of None \<Rightarrow> ErrNoRecipients | Some e \<Rightarrow> e), wA', wR)
      | (Inr (Some msg, errs, err), wA') \<Rightarrow>
          (case DecryptMessage B R msg (wR\<lparr>w_env := w_env wA'\<rparr>) of
             (r, wR') \<Rightarrow> (r, wA'\<lparr>w_env := w_env wR'\<rparr>, wR'))))"

text \<open>Who speaks (\<open>True\<close> for \<open>A\<close>), and what.\<close>

fun dialogue ::
  "('e, 'dr, 'ls, 'x) backend \<Rightarrow> ('s, 'e) Manager \<Rightarrow> ('s, 'e) Manager \<Rightarrow> (bool \<times> slice) list \<Rightarrow>
     ('s, 'e) world \<times> ('s, 'e) world \<Rightarrow> (goerror + slice) list" where
  "dialogue B A R [] ws = []"
| "dialogue B A R ((True, pt) # script) (wA, wR) =
     (case transmit B A R pt (wA, wR) of (r, wA', wR') \<Rightarrow> r # dialogue B A R script (wA', wR'))"
| "dialogue B A R ((False, pt) # script) (wA, wR) =
     (case transmit B R A pt (wR, wA) of (r, wR', wA') \<Rightarrow> r # dialogue B A R script (wA', wR'))"

section \<open>Devices that are conversing\<close>

definition conversing ::
  "('s \<Rightarrow> bool) \<Rightarrow> ('s \<Rightarrow> astore) \<Rightarrow> ('e, 'dr, 'ls, 'x) backend \<Rightarrow> Protocol \<Rightarrow>
     (('dr, 'ls) signal_Session \<Rightarrow> ('dr, 'ls) signal_Session \<Rightarrow> bool) \<Rightarrow>
     ('s, 'e) Manager \<Rightarrow> ('s, 'e) Manager \<Rightarrow> ('s, 'e) world \<Rightarrow> ('s, 'e) world \<Rightarrow> bool" where
  "conversing invar alpha B p C A R wA wR \<longleftrightarrow> quiet invar {} wA \<and> quiet invar {} wR \<and>
     (\<exists>x y. contact A (m_localDevice R) x (alpha (w_store wA)) \<and>
        contact R (m_localDevice A) y (alpha (w_store wR)) \<and> in_step B p C x y)"

text \<open>
  The same with less: each only acquainted with the other, in an environment that meets the condition
  \<open>I\<close> (which may say what the network holds).
\<close>

definition talking ::
  "('s \<Rightarrow> bool) \<Rightarrow> ('s \<Rightarrow> astore) \<Rightarrow> ('e \<Rightarrow> bool) \<Rightarrow> ('e, 'dr, 'ls, 'x) backend \<Rightarrow> Protocol \<Rightarrow>
     (('dr, 'ls) signal_Session \<Rightarrow> ('dr, 'ls) signal_Session \<Rightarrow> bool) \<Rightarrow>
     ('s, 'e) Manager \<Rightarrow> ('s, 'e) Manager \<Rightarrow> ('s, 'e) world \<Rightarrow> ('s, 'e) world \<Rightarrow> bool" where
  "talking invar alpha I B p C A R wA wR \<longleftrightarrow> quiet invar {} wA \<and> quiet invar {} wR \<and> I (w_env wA) \<and> I (w_env wR) \<and>
     (\<exists>x y. acquainted I A (m_localDevice R) x (alpha (w_store wA)) \<and>
        acquainted I R (m_localDevice A) y (alpha (w_store wR)) \<and> in_step B p C x y)"

lemma talking_sym: "talking invar alpha I B p C A R wA wR \<Longrightarrow> talking invar alpha I B p C R A wR wA"
  unfolding talking_def by (blast intro: in_step_sym)

lemma conversing_talking: "conversing invar alpha B p C A R wA wR \<Longrightarrow> talking invar alpha (\<lambda>_. True) B p C A R wA wR"
  unfolding conversing_def talking_def by (blast intro: contact_acquainted)

text \<open>What the backend must be able to do besides the laws: encrypt, with a ratchet and as a payload.\<close>

definition ratchet_sends ::
  "('e, 'dr, 'ls, 'x) backend \<Rightarrow> ('dr \<Rightarrow> 'dr \<Rightarrow> bool) \<Rightarrow> ('ls \<Rightarrow> 'ls \<Rightarrow> bool) \<Rightarrow> Protocol \<Rightarrow> bool" where
  "ratchet_sends B P Q p \<longleftrightarrow>
     (if p = ProtocolV1
      then \<forall>a b km e. Q a b \<longrightarrow> (\<exists>c r. ls_EncryptWhisperMessage B km (a, e) = (Inr c, r))
      else \<forall>a b km e. P a b \<longrightarrow> (\<exists>c r. dr_Encrypt B km (a, e) = (Inr c, r))) \<and>
     (\<forall>pt. returns (EncryptPayload B p pt))"

lemma paired_encrypts:
  assumes laws: "ratchet_laws B P Q p" and sends: "ratchet_sends B P Q p" and C: "paired P Q p s t"
  shows "encrypts B s"
  unfolding encrypts_def
proof (intro allI)
  fix km e
  show "\<exists>c s' e'. Encrypt B km (s, e) = (Inr c, (s', e')) \<and> marshals B s'"
  proof (cases "p = ProtocolV1")
    case True
    with C obtain a b where s: "s = v1_session a" and ab: "Q a b" by (auto simp: paired_def)
    with sends True obtain c r where "ls_EncryptWhisperMessage B km (a, e) = (Inr c, r)"
      by (auto simp: ratchet_sends_def) (metis surj_pair)
    moreover have "returns (ls_MarshalBinary B a')" for a'
      using laws True by (simp add: ratchet_laws_def v1_ratchet_def)
    ultimately show ?thesis
      by (cases r) (auto simp: s Encrypt_def v1_session_def on_ls_def marshals_def Marshal_def returns_def)
  next
    case False
    with C obtain a b where s: "s = v2_session a" and ab: "P a b" by (auto simp: paired_def)
    with sends False obtain c r where "dr_Encrypt B km (a, e) = (Inr c, r)"
      by (auto simp: ratchet_sends_def) (metis surj_pair)
    moreover have "returns (dr_MarshalBinary B a')" for a'
      using laws False by (simp add: ratchet_laws_def v2_ratchet_def)
    ultimately show ?thesis
      by (cases r) (auto simp: s Encrypt_def v2_session_def on_dr_def marshals_def Marshal_def returns_def)
  qed
qed

lemma linked_usable:
  assumes "ratchet_laws B P Q p" and "ratchet_sends B P Q p" and "linked B p (paired P Q p) x y"
  shows "usable B p x"
  using assms(3) paired_encrypts [OF assms(1,2)] unfolding linked_def usable_def always_def by meson

lemma delivers_no_kx:
  "delivers B A I dev pt (Some x) msg stored' \<Longrightarrow>
     \<exists>key. find (\<lambda>k. rk_Device k = dev_ID dev) (em_Keys msg) = Some key \<and> rk_KeyExchange key = None"
  by (auto simp: delivers_def turn_done_def opened_def)

context reliable_store
begin

lemma transmit_step:
  assumes A: "m_store A = S" "m_protocol A = p" and R: "m_store R = S" "m_protocol R = p"
    and laws: "ratchet_laws B P Q p" "payload_laws B" "ratchet_sends B P Q p"
    and B: "calm_backend B" and cA: "calm_manager A" and env: "env_kept I B A" "backend_keeps I B"
    and conv: "talking invar alpha I B p (paired P Q p) A R wA wR"
  shows "\<exists>r wA' wR'. transmit B A R pt (wA, wR) = (Inr r, wA', wR') \<and> slice_string r = slice_string pt \<and>
     talking invar alpha I B p (paired P Q p) A R wA' wR' \<and>
     session_put (m_localDevice A) (alpha (w_store wR)) (alpha (w_store wR'))"
proof -
  let ?dA = "m_localDevice A" and ?dR = "m_localDevice R" and ?C = "paired P Q p"
  from conv obtain x y where q: "quiet invar {} wA" "quiet invar {} wR" and I: "I (w_env wA)"
    and cons: "acquainted I A ?dR x (alpha (w_store wA))" "acquainted I R ?dA y (alpha (w_store wR))"
    and st: "in_step B p ?C x y" unfolding talking_def by blast
  from st have link: "linked B p ?C x y" by (simp add: in_step_def)
  from linked_usable [OF laws(1,3) this] A(2) have u: "usable B (m_protocol A) x" by simp
  have payload: "returns (EncryptPayload B (m_protocol A) pt)" using laws(3) A(2) by (simp add: ratchet_sends_def)
  from EncryptMessage_acquainted [OF A(1) B cA env(1) q(1) I cons(1) u payload] obtain msg errs err wA' where
    sent: "EncryptMessage B A (dev_JID ?dR) pt wA = (Inr (Some msg, errs, err), wA')" "quiet invar {} wA'" "I (w_env wA')"
      "delivers B A I ?dR pt (Some x) msg (a_sessions (alpha (w_store wA')) ?dR)"
      "\<forall>x. a_sessions (alpha (w_store wA')) ?dR = Some x \<longrightarrow> contact A ?dR x (alpha (w_store wA'))" by blast
  let ?wR = "wR\<lparr>w_env := w_env wA'\<rparr>"
  from q(2) have qR: "quiet invar {} ?wR" and iR: "invar (w_store ?wR)" and free: "lock_free ?dA ?wR"
    by (simp_all add: quiet_def lock_free_def)
  from cons(2) have y: "a_sessions (alpha (w_store ?wR)) ?dA = Some y" by (auto simp: acquainted_def takes_with_def)
  from message_in_session [OF R A(2) session_laws [OF laws(1)] laws(2) sent(4) iR free y link]
  obtain r wR' x' y' where read: "DecryptMessage B R msg ?wR = (Inr r, wR')" "slice_string r = slice_string pt"
    "a_sessions (alpha (w_store wA')) ?dR = Some x'" "a_sessions (alpha (w_store wR')) ?dA = Some y'"
    "in_step B p ?C x' y'" by blast
  from delivers_no_kx [OF sent(4)] obtain key where
    key: "find (\<lambda>k. rk_Device k = dev_ID ?dR) (em_Keys msg) = Some key" "rk_KeyExchange key = None" by blast
  have sender: "em_Sender msg = ?dA" using sent(4) by (simp add: delivers_def)
  from wp_run_Inr [OF DecryptMessage_wp [OF R(1) iR key(1)] read(1)] key(2) sender
  have put: "session_put ?dA (alpha (w_store wR)) (alpha (w_store wR'))" by simp
  from wp_run_Inr [OF safeD [OF DecryptMessage_safe [OF R(1) B] qR] read(1)] have qR': "quiet invar {} wR'" by simp
  have "I (w_env ?wR)" using sent(3) by simp
  from wp_run_Inr [OF env_wp [where I = I, OF DecryptMessage_env [OF env(2)] this] read(1)] have IR': "I (w_env wR')" .
  from sent(5) read(3) have "acquainted I A ?dR x' (alpha (w_store wA'))" by (blast intro: contact_acquainted)
  then have "talking invar alpha I B p ?C A R (wA'\<lparr>w_env := w_env wR'\<rparr>) wR'"
    unfolding talking_def using sent(2) qR' IR' acquainted_put [OF cons(2) put read(4)] read(5) by auto
  with sent(1) read(1,2) put show ?thesis unfolding transmit_def by simp
qed

text \<open>The two calls behind a transmission that succeeds, and what they change.\<close>

lemma transmit_calls:
  assumes "transmit B A R pt (wA, wR) = (Inr r, wA', wR')"
  shows "\<exists>msg errs err w1. EncryptMessage B A (dev_JID (m_localDevice R)) pt wA = (Inr (Some msg, errs, err), w1) \<and>
     DecryptMessage B R msg (wR\<lparr>w_env := w_env w1\<rparr>) = (Inr r, wR') \<and> wA' = w1\<lparr>w_env := w_env wR'\<rparr>"
  using assms by (auto simp: transmit_def split: prod.splits sum.splits option.splits)

lemma transmit_frames:
  assumes A: "m_store A = S" and R: "m_store R = S" and i: "invar (w_store wA)" "invar (w_store wR)"
    and run: "transmit B A R pt (wA, wR) = (Inr r, wA', wR')"
  shows "send_frame {dev_JID (m_localDevice R), dev_JID (m_localDevice A)} (alpha (w_store wA)) (alpha (w_store wA')) \<and>
     dec_frame (m_localDevice A) (alpha (w_store wR)) (alpha (w_store wR')) \<and> w_env wA' = w_env wR'"
proof -
  from transmit_calls [OF run] obtain msg errs err w1 where
    sent: "EncryptMessage B A (dev_JID (m_localDevice R)) pt wA = (Inr (Some msg, errs, err), w1)"
    and read: "DecryptMessage B R msg (wR\<lparr>w_env := w_env w1\<rparr>) = (Inr r, wR')" and w1: "wA' = w1\<lparr>w_env := w_env wR'\<rparr>" by blast
  from wp_run_Inr [OF encrypt_total_wp [OF A i(1) A i(1)] sent [unfolded EncryptMessage_def]] have
    "send_frame {dev_JID (m_localDevice R), dev_JID (m_localDevice A)} (alpha (w_store wA)) (alpha (w_store w1))"
    and sender: "em_Sender msg = m_localDevice A" by (auto simp: encrypt_post_def split: option.splits)
  moreover from read obtain key where key: "find (\<lambda>k. rk_Device k = dev_ID (m_localDevice R)) (em_Keys msg) = Some key"
    by (auto simp: DecryptMessage_def throw_run split: option.splits)
  have "invar (w_store (wR\<lparr>w_env := w_env w1\<rparr>))" using i(2) by simp
  from wp_run_Inr [OF DecryptMessage_wp [OF R this key] read] sender
  have "dec_frame (m_localDevice A) (alpha (w_store wR)) (alpha (w_store wR'))" by simp
  ultimately show ?thesis using w1 by simp
qed

lemma transmit_lists:
  assumes A: "m_store A = S" and i: "invar (w_store wA)" and env: "env_kept I B A" and I: "I (w_env wA)"
    and l: "\<And>j. j \<in> {dev_JID (m_localDevice R), dev_JID (m_localDevice A)} \<Longrightarrow> listing I A j (f j) (alpha (w_store wA))"
    and run: "transmit B A R pt (wA, wR) = (Inr r, wA', wR')"
  shows "\<forall>j \<in> {dev_JID (m_localDevice R), dev_JID (m_localDevice A)}. a_devices (alpha (w_store wA')) j = f j"
proof -
  from transmit_calls [OF run] obtain msg errs err w1 where
    sent: "EncryptMessage B A (dev_JID (m_localDevice R)) pt wA = (Inr (Some msg, errs, err), w1)"
    and w1: "wA' = w1\<lparr>w_env := w_env wR'\<rparr>" by blast
  from wp_run_Inr [OF encrypt_listing [OF A i env I l] sent [unfolded EncryptMessage_def]] w1 show ?thesis by simp
qed

text \<open>A dialogue of any length is delivered, message by message.\<close>

lemma dialogue_talking:
  assumes A: "m_store A = S" "m_protocol A = p" and R: "m_store R = S" "m_protocol R = p"
    and laws: "ratchet_laws B P Q p" "payload_laws B" "ratchet_sends B P Q p"
    and calm: "calm_backend B" "calm_manager A" "calm_manager R"
    and env: "env_kept I B A" "env_kept I B R" "backend_keeps I B"
  shows "talking invar alpha I B p (paired P Q p) A R wA wR \<Longrightarrow>
     map (map_sum id slice_string) (dialogue B A R script (wA, wR)) = map (Inr \<circ> slice_string \<circ> snd) script"
proof (induction script arbitrary: wA wR)
  case (Cons m script)
  obtain fromA pt where m: "m = (fromA, pt)" by (cases m)
  show ?case
  proof (cases fromA)
    case True
    from transmit_step [OF A R laws calm(1,2) env(1,3) Cons.prems, of pt] obtain r wA' wR' where
      "transmit B A R pt (wA, wR) = (Inr r, wA', wR')" "slice_string r = slice_string pt"
      "talking invar alpha I B p (paired P Q p) A R wA' wR'" by blast
    with Cons.IH m True show ?thesis by simp
  next
    case False
    from transmit_step [OF R A laws calm(1,3) env(2,3) talking_sym [OF Cons.prems], of pt] obtain r wR' wA' where
      "transmit B R A pt (wR, wA) = (Inr r, wR', wA')" "slice_string r = slice_string pt"
      "talking invar alpha I B p (paired P Q p) R A wR' wA'" by blast
    with Cons.IH [OF talking_sym] m False show ?thesis by simp
  qed
qed simp

lemmas dialogue_read = dialogue_talking [OF _ _ _ _ _ _ _ _ _ _ env_kept_True env_kept_True backend_keeps_True conversing_talking]

end

end
