(* ===== verification/Fake_Laws.thy ===== *)
theory Fake_Laws
  imports Manager_Exchange Omemo_Fake
begin

text \<open>
  The backend without cryptography satisfies the laws assumed of a backend: its ratchets stay equal on
  both sides, its two key agreements compute the same secret, nothing in it panics. The assumptions
  of the theorems about dialogues can therefore hold together.
\<close>

section \<open>Ratchets and payloads\<close>

lemmas stub_ratchet_defs = stub_encrypt_def stub_decrypt_def stub_unmarshal_def

lemma stub_fields [simp]:
  "dr_Encrypt stub = stub_encrypt" "dr_Decrypt stub = stub_decrypt"
  "ls_EncryptWhisperMessage stub = stub_encrypt" "ls_DecryptWhisperMessage stub = stub_decrypt"
  "dr_MarshalBinary stub k = ret (Some k)" "ls_MarshalBinary stub k = ret (Some k)"
  "dr_UnmarshalBinary stub = stub_unmarshal" "ls_UnmarshalBinary stub = stub_unmarshal"
  "xo_EncryptPayload stub = stub_payload" "xo_DecryptPayload stub = stub_open"
  "xo_EncryptPayloadV1 stub pt = andThen (stub_payload pt) (\<lambda>(k, ct). ret (k, Some [], ct))"
  "xo_DecryptPayloadV1 stub km iv ct = stub_open km ct"
  "x3dh_CreateNewSpk stub = stub_spk" "x3dh_CreateNewOpk stub = stub_keypair"
  "x3dh_CreateInitialMessage stub = stub_initial" "x3dh_ReceiveInitialMessage stub = stub_receive"
  "dr_CreateActive stub key ad spk = ret (slice_string key)"
  "dr_CreatePassive stub key ad pub priv = ret (slice_string key)"
  "ls_CreateNewSpk stub = stub_spk" "ls_CreateInitialMessage stub = stub_initial1"
  "ls_ReceiveInitialMessage stub idk peer spub spriv opk ek = ret (stub_secret peer idk spriv opk ek)"
  "ls_NewActiveSession stub idk peer x = ret x" "ls_NewPassiveSession stub idk peer x = ret x"
  "ls_EncryptPreKeyWhisperMessage stub = stub_prekey_message" "ls_ParsePreKeyMessage stub = stub_parse"
  "rand_Read stub = stub_rand" "ed25519_public stub seed = seed" "x25519_public stub k = k"
  by (simp_all add: stub_def)

lemma slice_string_Some [simp]: "slice_string (Some bs) = bs"
  by (simp add: slice_string_def)

lemma slice_nonempty: "slice_string s \<noteq> [] \<Longrightarrow> Some (slice_string s) = s"
  by (cases s) (simp_all add: slice_string_def)

lemma stub_unmarshal_always: "always (stub_unmarshal (Some k)) k"
  by (simp add: stub_unmarshal_def)

lemma stub_ratchets: "ratchet_laws stub (=) (=) p"
  by (auto simp: ratchet_laws_def v1_ratchet_def v2_ratchet_def stub_encrypt_def stub_decrypt_def
      slice_nonempty stub_unmarshal_always returns_def ret_run)

lemma stub_payload_may: "may (stub_payload pt) (km, ct) \<Longrightarrow>
   \<exists>k. length k = 4 \<and> km = Some k \<and> ct = Some (k @ slice_string pt)"
  by (auto simp: stub_payload_def may_def act_simps stub_rand_def)

lemma stub_open_payload: "always (stub_open (Some k) (Some (k @ s))) (Some s)"
  by (simp add: stub_open_def slice_string_def slice_len_def)

lemma stub_payloads: "payload_laws stub"
proof -
  have "km \<noteq> None \<and> slice_string km \<noteq> [] \<and> ct \<noteq> None \<and>
      (\<exists>r. always (stub_open km ct) r \<and> slice_string r = slice_string pt)"
    if "may (stub_payload pt) (km, ct)" for pt km ct
    using stub_payload_may [OF that] stub_open_payload
    by (auto simp: slice_string_def intro!: exI [of _ "Some (slice_string pt)"])
  then show ?thesis
    unfolding payload_laws_def by (auto dest!: may_andThenD)
qed

lemma stub_sends: "ratchet_sends stub (=) (=) p"
  by (simp add: ratchet_sends_def stub_encrypt_def returns_def EncryptPayload_def stub_payload_def
      stub_rand_def act_simps)

section \<open>Nothing panics\<close>

lemma stub_calm: "calm_backend stub"
  by (auto simp: calm_backend_def calm_run stub_spk_def stub_initial_def stub_initial1_def stub_receive_def
      stub_keypair_def stub_payload_def stub_open_def stub_rand_def stub_ratchet_defs stub_prekey_message_def
      stub_parse_def Let_def act_simps split: if_splits option.splits)

lemma ex_manager_calm: "calm_manager (ex_manager p jid b)"
  by (auto simp: calm_manager_def calm_run fakeTransport_def fake_defs trust_all_def ret_run split: option.splits)

section \<open>Key agreement\<close>

lemma stub_pairs:
  "may stub_keypair (pub, priv) \<Longrightarrow> pub = priv"
  "may (stub_spk k) (pub, priv, sig) \<Longrightarrow> pub = priv"
  by (auto simp: may_def stub_keypair_def stub_spk_def act_simps)

lemma stub_public2: "may (IdentityPublicKey stub ProtocolV2 k) pub \<Longrightarrow> pub = stub_pub2 k"
  by (auto simp: IdentityPublicKey_def stub_pub2_def may_def act_simps split: if_splits)

lemma stub_handshake2: "v2_handshake stub (=)"
  unfolding v2_handshake_def
  by (auto simp: stub_initial_def stub_receive_def dest!: may_andThenD stub_pairs stub_public2)

lemma put32_length [simp]: "length (put32 w) = 4"
  by (simp add: put32_def)

lemma bytes_of_nat:
  assumes "n < 2 ^ 32"
  shows "n mod 256 + 256 * (n div 256 mod 256 + 256 * (n div 65536 mod 256 + 256 * (n div 16777216 mod 256))) = (n :: nat)"
proof -
  have d: "n div 65536 = n div 256 div 256" "n div 16777216 = n div 256 div 256 div 256"
    by (simp_all add: div_mult2_eq [symmetric])
  have "n div 256 div 256 div 256 < 256" using assms by (simp add: d(2) [symmetric] less_mult_imp_div_less)
  then show ?thesis unfolding d by simp
qed

lemma get32_put32 [simp]: "get32 (put32 w) = w"
proof -
  have b: "ucast (ucast (drop_bit k w) :: byte) = (of_nat (unat w div 2 ^ k mod 256) :: uint32)" for k
    using unsigned_less [of w, where 'a = nat]
    by (simp add: word_unat_eq_iff unsigned_ucast_eq unsigned_take_bit_eq unsigned_drop_bit_eq unsigned_of_nat take_bit_eq_mod [where 'a = nat]
        drop_bit_eq_div [where 'a = nat])
  have p: "push_bit 8 x = 256 * x" for x :: uint32 by (simp add: push_bit_eq_mult)
  have "get32 (put32 w) = of_nat (unat w mod 256 + 256 * (unat w div 256 mod 256 +
      256 * (unat w div 65536 mod 256 + 256 * (unat w div 16777216 mod 256))))"
    unfolding get32_def put32_def by (simp add: b b [of 0, simplified] p)
  also have "\<dots> = of_nat (unat w)"
    using unsigned_less [of w, where 'a = nat] by (subst bytes_of_nat) simp_all
  finally show ?thesis by simp
qed

lemma stub_parse_message:
  assumes "32 \<le> length k" and "length bs < 2 ^ 32"
  shows "stub_parse (Some (put32 spk @ put32 pk @ put32 (of_nat (length bs)) @ bs @ take 32 k @ m)) =
     ret \<lparr>pm_SignedPreKeyID = spk, pm_PreKeyID = pk, pm_IdentityKey = Some (take 32 k),
          pm_BaseKey = Some bs, pm_Message = Some m\<rparr>"
proof -
  have "unat (of_nat (length bs) :: uint32) = length bs"
    using assms(2) by (simp add: unsigned_of_nat take_bit_eq_mod)
  with assms(1) show ?thesis by (simp add: stub_parse_def Let_def min_def)
qed

lemma stub_handshake1: "v1_handshake stub (=)"
  unfolding v1_handshake_def
proof (intro allI impI, elim conjE)
  fix ka kb pa pb spub spriv sig opub opriv x ek a km pk spk reg e c a' e'
  assume "may (GenerateIdentityKey stub ProtocolV1) ka" "may (GenerateIdentityKey stub ProtocolV1) kb"
    and ka: "may (IdentityPublicKey stub ProtocolV1 ka) pa" and kb: "may (IdentityPublicKey stub ProtocolV1 kb) pb"
    and spkp: "may (ls_CreateNewSpk stub kb) (spub, spriv, sig)" and opk: "may (x3dh_CreateNewOpk stub) (opub, opriv)"
    and init: "may (ls_CreateInitialMessage stub ka pb spub sig opub) (x, ek)"
    and act: "may (ls_NewActiveSession stub ka pb x) a" and km: "slice_string km \<noteq> []"
    and enc: "ls_EncryptPreKeyWhisperMessage stub km ek pk spk reg (a, e) = (Inr c, (a', e'))"
  from ka kb have pub: "length (slice_string ka) = 32" "pa = Some (slice_string ka)" "pb = Some (slice_string kb)"
    by (auto simp: IdentityPublicKey_def slice_len_def slice_string_def may_def act_simps split: if_splits option.splits)
  from spkp opk have pairs: "spriv = spub" "opriv = opub" by (auto dest: stub_pairs)
  from init have x: "x = stub_secret ka pb spub opub ek" and ek: "\<exists>b. ek = Some [b]"
    by (auto simp: stub_initial1_def stub_keypair_def may_def act_simps)
  from act x have a: "a = stub_secret ka pb spub opub ek" by simp
  then have id: "32 \<le> length a" "take 32 a = slice_string ka" by (simp_all add: stub_secret_def pub(1))
  from ek obtain b where b: "ek = Some [b]" by blast
  from enc b have c: "c = Some (put32 spk @ put32 pk @ put32 (of_nat (length [b])) @ [b] @ take 32 a @ a @ slice_string km)"
    and a': "a' = a" by (auto simp: stub_prekey_message_def slice_len_def)
  let ?pm = "\<lparr>pm_SignedPreKeyID = spk, pm_PreKeyID = pk, pm_IdentityKey = Some (take 32 a),
          pm_BaseKey = Some [b], pm_Message = Some (a @ slice_string km)\<rparr>"
  have "ls_ParsePreKeyMessage stub c = ret ?pm"
    using stub_parse_message [OF id(1), of "[b]" spk pk "a @ slice_string km"] by (simp add: c)
  moreover have "stub_secret (Some (take 32 a)) kb spriv opriv (Some [b]) = a"
    unfolding id(2) by (simp add: a pairs b stub_secret_def pub(3))
  moreover have "stub_decrypt (Some (a @ slice_string km)) (a, e2) = (Inr km, (a, e2))" for e2
    using km by (simp add: stub_decrypt_def slice_nonempty)
  ultimately show "\<exists>pm. always (ls_ParsePreKeyMessage stub c) pm \<and> pm_SignedPreKeyID pm = spk \<and> pm_PreKeyID pm = pk \<and>
        sure (ls_ReceiveInitialMessage stub kb (pm_IdentityKey pm) spub spriv opriv (pm_BaseKey pm)) (\<lambda>y.
          sure (ls_NewPassiveSession stub kb (pm_IdentityKey pm) y) (\<lambda>b.
            \<forall>e2. \<exists>b' e3. ls_DecryptWhisperMessage stub (pm_Message pm) (b, e2) = (Inr km, (b', e3)) \<and>
              a' = b' \<and> b' = a'))"
    by (intro exI [of _ ?pm]) (simp add: a')
qed

lemma stub_handshake: "p = ProtocolV1 \<or> p = ProtocolV2 \<Longrightarrow> handshake_laws stub (=) (=) p"
  using stub_handshake1 stub_handshake2 by (auto simp: handshake_laws_def)

end
