(* ===== verification/Manager_Published.thy ===== *)
theory Manager_Published
  imports Manager_Exchange Manager_Calls
begin

text \<open>
  Where the keys of a published bundle come from. The key material of a store is \<open>genuine\<close> when its
  identity key and every prekey in it were generated by the backend, the signed ones for the identity key.
  \<open>InitIdentity\<close> makes it so and every call keeps it, so that every bundle a manager builds is \<open>offered\<close>
  in the sense of \<open>Manager_Handshake\<close>, and stays offered as long as its first one-time prekey is in the
  pool and its signed prekey is known.
\<close>

section \<open>Generated keys\<close>

definition made_prekey :: "('e, 'dr, 'ls, 'x) backend \<Rightarrow> PreKeyRecord \<Rightarrow> bool" where
  "made_prekey B r \<longleftrightarrow> may (GenerateOneTimePreKey B) (pkr_Public r, pkr_Private r)"

definition made_signed :: "('e, 'dr, 'ls, 'x) backend \<Rightarrow> Protocol \<Rightarrow> slice \<Rightarrow> SignedPreKeyRecord \<Rightarrow> bool" where
  "made_signed B p key r \<longleftrightarrow> may (GenerateSignedPreKey B p key) (spr_Public r, spr_Private r, spr_Signature r)"

definition genuine :: "('e, 'dr, 'ls, 'x) backend \<Rightarrow> Protocol \<Rightarrow> astore \<Rightarrow> bool" where
  "genuine B p a \<longleftrightarrow> may (GenerateIdentityKey B p) (a_identityKey a) \<and> pool_ok a \<and> (\<forall>i r. a_preKeys a i = Some r \<longrightarrow> made_prekey B r) \<and>
     made_signed B p (a_identityKey a) (a_currentSPK a) \<and>
     (\<forall>r. a_staleSPK a = Some r \<longrightarrow> made_signed B p (a_identityKey a) r)"

lemma genuine_add: "genuine B p a \<Longrightarrow> list_all (made_prekey B) rs \<Longrightarrow> genuine B p (add_prekeys rs a)"
  using pool_ok_add_prekeys [of a rs]
  by (auto simp: genuine_def add_prekeys_def issue_def list_all_iff dest!: put_recs_cases)

lemma genuine_rotate: "genuine B p a \<Longrightarrow> made_signed B p (a_identityKey a) r \<Longrightarrow> genuine B p (rotate_spk r a)"
  by (auto simp: genuine_def rotate_spk_def pool_ok_def)

lemma genuine_issue: "issue_frame a a' \<Longrightarrow> genuine B p a \<Longrightarrow> genuine B p a'"
  using pool_ok_issue_frame [of a a'] by (cases a; cases a') (auto simp: genuine_def issue_frame_def)

text \<open>What the other calls do to the keys: one-time prekeys may go.\<close>

definition keys_kept :: "astore \<Rightarrow> astore \<Rightarrow> bool" where
  "keys_kept a a' \<longleftrightarrow> a_identityKey a' = a_identityKey a \<and> a_issued a' = a_issued a \<and>
     a_currentSPK a' = a_currentSPK a \<and> a_staleSPK a' = a_staleSPK a \<and>
     (\<forall>i. a_preKeys a' i = None \<or> a_preKeys a' i = a_preKeys a i)"

lemma genuine_kept: "keys_kept a a' \<Longrightarrow> genuine B p a \<Longrightarrow> genuine B p a'"
proof -
  assume k: "keys_kept a a'" and g: "genuine B p a"
  have "a_preKeys a i = Some r" if "a_preKeys a' i = Some r" for i r
    using k that unfolding keys_kept_def by (metis option.distinct(1))
  with k g show ?thesis
    unfolding genuine_def pool_ok_def keys_kept_def by (simp add: dom_def) blast
qed

lemma frame_rel_keys_kept [simp, intro]: "frame_rel keys_kept"
  unfolding frame_rel_def
proof
  show "reflp keys_kept" by (auto simp: keys_kept_def intro: reflpI)
  show "transp keys_kept"
  proof (rule transpI)
    fix a b c assume "keys_kept a b" "keys_kept b c"
    then show "keys_kept a c" unfolding keys_kept_def by (simp, metis)
  qed
qed

lemma keys_kept_frames: "send_frame J a a' \<Longrightarrow> keys_kept a a'" "dec_frame d a a' \<Longrightarrow> keys_kept a a'"
  by (cases a; cases a'; auto simp: send_frame_def dec_frame_def keys_kept_def)+

text \<open>
  Every public half in the bundle \<open>b\<close> of \<open>R\<close> is that of a generated key whose private half the store \<open>a\<close>
  holds: the identity key, the signed prekey and all one-time prekeys.
\<close>

definition backed ::
  "('e, 'dr, 'ls, 'x) backend \<Rightarrow> ('s, 'e) Manager \<Rightarrow> Bundle \<Rightarrow> astore \<Rightarrow> bool" where
  "backed B R b a \<longleftrightarrow>
     may (GenerateIdentityKey B (m_protocol R)) (m_identityKey R) \<and> a_identityKey a = m_identityKey R \<and>
     may (IdentityPublicKey B (m_protocol R) (m_identityKey R)) (b_IdentityKey b) \<and>
     (\<exists>r. spk_for a (spk_ID (b_SignedPreKey b)) = Some r \<and> spr_Public r = spk_Public (b_SignedPreKey b) \<and>
        may (GenerateSignedPreKey B (m_protocol R) (m_identityKey R))
          (spr_Public r, spr_Private r, spk_Signature (b_SignedPreKey b))) \<and>
     (\<forall>pk \<in> set (b_PreKeys b). \<exists>rec. a_preKeys a (pk_ID pk) = Some rec \<and>
        may (GenerateOneTimePreKey B) (pk_Public pk, pkr_Private rec))"

lemma backed_offered: "backed B R b a \<Longrightarrow> offered B R b a"
  by (simp add: backed_def offered_def)

section \<open>Every call keeps key material genuine\<close>

context omemo_store
begin

lemma generateLoop_made:
  "list_all (made_prekey B) recs \<Longrightarrow> wp (generateLoop B S k recs) (\<lambda>recs' _. list_all (made_prekey B) recs') (\<lambda>_ _. True) w"
proof (induction k arbitrary: recs w)
  case (Suc k)
  show ?case
    unfolding generateLoop.simps wp_andThen wp_wrapErr
  proof (rule wp_runI, goal_cases)
    case (1 i w1)
    show ?case
    proof (rule wp_liftE_run, goal_cases)
      case (1 x e)
      obtain pub priv where x: "x = (pub, priv)" by (cases x)
      with 1 have "made_prekey B \<lparr>pkr_ID = i, pkr_Public = pub, pkr_Private = priv\<rparr>"
        by (auto simp: made_prekey_def may_def)
      with Suc show ?case by (simp add: x)
    qed simp
  qed simp
qed (simp add: wp_ret)

lemma generate_genuine:
  assumes i: "invar (w_store w)" and ok: "card (a_issued (alpha (w_store w))) + nat n < 2 ^ 32"
    and g: "genuine B p (alpha (w_store w))"
  shows "genuine B p (alpha (w_store (snd (generateOneTimePreKeys B S n w))))"
proof (cases "0 \<le> n \<and> n \<le> max_prekeys")
  case True
  have "wp (andThen (generateLoop B S (nat n) []) (\<lambda>recs. liftS (PutPreKeys S recs)))
     (\<lambda>_ w'. genuine B p (alpha (w_store w'))) (\<lambda>_ w'. genuine B p (alpha (w_store w'))) w"
    unfolding wp_andThen
  proof (rule wp_mono [OF wp_conj [OF generateLoop_wp [OF i ok] generateLoop_made]], goal_cases)
    case (2 recs w1)
    then obtain rs where rs: "recs = rs" "list_all (made_prekey B) rs" "invar (w_store w1)"
      "alpha (w_store w1) = issue rs (alpha (w_store w))" by auto
    have "genuine B p ((issue rs (alpha (w_store w)))\<lparr>a_preKeys := put_recs rs (a_preKeys (alpha (w_store w)))\<rparr>)"
      using genuine_add [OF g rs(2)] by (simp add: add_prekeys_def)
    moreover have "genuine B p (issue rs (alpha (w_store w)))" by (rule genuine_issue [OF issue_frame_issue g])
    moreover have "a_preKeys (issue rs (alpha (w_store w))) = a_preKeys (alpha (w_store w))" by (simp add: issue_def)
    ultimately show ?case
      using rs by (intro wp_store [OF PutPreKeys_spec]) auto
  qed (auto intro: genuine_issue [OF _ g])
  with True show ?thesis by (simp add: generateOneTimePreKeys_def wp_snd)
qed (use g in \<open>auto simp: generateOneTimePreKeys_def throw_run\<close>)

lemma rotate_genuine:
  assumes M: "m_store M = S" "m_protocol M = p" "m_identityKey M = a_identityKey (alpha (w_store w))"
    and i: "invar (w_store w)" and g: "genuine B p (alpha (w_store w))"
  shows "genuine B p (alpha (w_store (snd (Manager_RotateSignedPreKey B M w))))"
proof -
  have "wp (Manager_RotateSignedPreKey B M) (\<lambda>_ w'. genuine B p (alpha (w_store w'))) (\<lambda>_ w'. genuine B p (alpha (w_store w'))) w"
    unfolding Manager_RotateSignedPreKey_def nextSignedPreKeyID_def wp_andThen wp_wrapErr M(1)
  proof (rule wp_store [OF CurrentSignedPreKey_spec i], goal_cases)
    case (1 cur s)
    then have s: "alpha s = alpha (w_store w)" by simp
    show ?case
      unfolding wp_ret
    proof (rule wp_liftE_run, goal_cases)
      case (1 x e)
      obtain pub priv sig where x: "x = (pub, priv, sig)" by (cases x)
      with 1 M(2,3) have made: "made_signed B p (a_identityKey (alpha s))
          \<lparr>spr_ID = spr_ID cur + 1, spr_Public = pub, spr_Private = priv, spr_Signature = sig\<rparr>"
        by (auto simp: made_signed_def may_def s)
      show ?case
        unfolding x prod.case
        using \<open>invar s\<close> by (intro wp_store [OF RotateSignedPreKey_spec]) (use genuine_rotate [OF _ made] g s in auto)
    qed (use g s in simp)
  qed (use g in simp)
  then show ?thesis by (simp add: wp_snd)
qed

lemma keys_kept_store:
  "stable (store_rel invar alpha keys_kept) (liftS (CurrentSignedPreKey S))"
  "stable (store_rel invar alpha keys_kept) (liftS (PreKeys S))"
  "stable (store_rel invar alpha keys_kept) (liftS (PreKeyCount S))"
  "stable (store_rel invar alpha keys_kept) (liftS (DeleteSession S d))"
  "stable (store_rel invar alpha keys_kept) (liftS (SetDevices S j ds))"
  "stable (store_rel invar alpha keys_kept) (liftS (SetTrust S k t))"
  by (auto intro!: CurrentSignedPreKey_spec [THEN stable_store] PreKeys_spec [THEN stable_store]
      PreKeyCount_spec [THEN stable_store] DeleteSession_spec [THEN stable_store] SetTrust_spec [THEN stable_store]
      SetDevices_spec [THEN stable_store] simp: keys_kept_def)

lemma keys_kept_calls:
  assumes M: "m_store M = S"
  shows "stable (store_rel invar alpha keys_kept) (ResetSession M dev)"
    and "stable (store_rel invar alpha keys_kept) (SyncDevices M jid)"
    and "stable (store_rel invar alpha keys_kept) (Manager_Bundle B M)"
    and "stable (store_rel invar alpha keys_kept) (Manager_PublishBundle B M)"
    and "stable (store_rel invar alpha keys_kept) (NeedsMorePreKeys M)"
  unfolding ResetSession_def SyncDevices_def Manager_PublishBundle_def Manager_Bundle_def NeedsMorePreKeys_def M
  by (intro stable_intros frame_rel_store_rel frame_rel_keys_kept keys_kept_store)+

lemma store_rel_genuine:
  "store_rel invar alpha keys_kept w w' \<Longrightarrow> invar (w_store w) \<Longrightarrow> genuine B p (alpha (w_store w)) \<Longrightarrow>
     genuine B p (alpha (w_store w'))"
  by (auto simp: store_rel_def intro: genuine_kept)

lemma DecryptMessage_keys:
  assumes M: "m_store M = S" and i: "invar (w_store w)"
  shows "store_rel invar alpha keys_kept w (snd (DecryptMessage B M msg w))"
proof (cases "find (\<lambda>k. rk_Device k = dev_ID (m_localDevice M)) (em_Keys msg)")
  case (Some key)
  have "wp (DecryptMessage B M msg) (\<lambda>_. store_rel invar alpha keys_kept w) (\<lambda>_. store_rel invar alpha keys_kept w) w"
    by (rule wp_mono [OF DecryptMessage_wp [OF M i Some]]) (auto simp: store_rel_def intro: keys_kept_frames)
  then show ?thesis by (simp add: wp_snd)
qed (simp add: DecryptMessage_def throw_run store_rel_def keys_kept_def)

lemma encrypt_keys:
  assumes M: "m_store M = S" and i: "invar (w_store w)"
  shows "store_rel invar alpha keys_kept w (snd (encrypt B M jid pt w))"
proof -
  have "wp (encrypt B M jid pt) (\<lambda>_. store_rel invar alpha keys_kept w) (\<lambda>_. store_rel invar alpha keys_kept w) w"
    by (rule wp_mono [OF encrypt_wp [OF M i M i]]) (auto simp: store_rel_def intro: keys_kept_frames)
  then show ?thesis by (simp add: wp_snd)
qed

lemma run_call_keys:
  assumes M: "m_store M = S" and i: "invar (w_store w)"
  shows "(\<exists>n. c = CallGenerate n) \<or> c = CallRotate \<or> store_rel invar alpha keys_kept w (run_call B M c w)"
  by (cases c)
    (simp_all add: EncryptMessage_def EncryptKeyTransport_def M encrypt_keys [OF M i] DecryptMessage_keys [OF M i]
      keys_kept_calls [OF M, THEN stableD] keys_kept_store [THEN stableD])

lemma run_call_genuine:
  assumes M: "m_store M = S" "m_protocol M = p" "m_identityKey M = a_identityKey (alpha (w_store w))"
    and i: "invar (w_store w)" and ok: "call_ok alpha c w" and g: "genuine B p (alpha (w_store w))"
  shows "genuine B p (alpha (w_store (run_call B M c w)))"
  using run_call_keys [OF M(1) i, of c B]
proof (elim disjE exE)
  fix n assume "c = CallGenerate n"
  with ok generate_genuine [OF i _ g] M(1) show ?thesis by (simp add: GenerateOneTimePreKeys_def)
next
  assume "c = CallRotate"
  with rotate_genuine [OF M i g] show ?thesis by simp
qed (rule store_rel_genuine [OF _ i g])

text \<open>\<open>InitIdentity\<close> on a store without prekeys.\<close>

lemma InitIdentity_genuine:
  assumes i: "invar (w_store w)" and c: "card (a_issued (alpha (w_store w))) + 100 < 2 ^ 32"
    and empty: "a_preKeys (alpha (w_store w)) = Map.empty" "a_staleSPK (alpha (w_store w)) = None"
      "spr_Public (a_currentSPK (alpha (w_store w))) = None"
  shows "wp (InitIdentity B S jid d p) (\<lambda>_ w'. invar (w_store w') \<and> genuine B p (alpha (w_store w')) \<and>
     a_localDevice (alpha (w_store w')) = \<lparr>dev_JID = jid, dev_ID = d\<rparr>) (\<lambda>_ _. True) w"
proof -
  let ?dev = "\<lparr>dev_JID = jid, dev_ID = d\<rparr>"
  have pool: "wp (generateOneTimePreKeys B S DefaultPreKeyCount) (\<lambda>_ w'. invar (w_store w') \<and> genuine B p (alpha (w_store w')) \<and>
     a_localDevice (alpha (w_store w')) = ?dev) (\<lambda>_ _. True) w1"
    if i1: "invar (w_store w1)" and a: "alpha (w_store w1) = rotate_spk spk ((alpha (w_store w))\<lparr>a_identityKey := key, a_localDevice := ?dev\<rparr>)"
      and made: "may (GenerateIdentityKey B p) key" "made_signed B p key spk" for w1 spk key
  proof -
    have issued: "a_issued (alpha (w_store w1)) = a_issued (alpha (w_store w))" by (simp add: a rotate_spk_def)
    have c1: "card (a_issued (alpha (w_store w1))) + nat DefaultPreKeyCount < 2 ^ 32"
      using c by (simp add: issued DefaultPreKeyCount_def)
    have g: "genuine B p (alpha (w_store w1))"
      using made empty by (simp add: a genuine_def rotate_spk_def pool_ok_def)
    obtain r w2 where run: "generateOneTimePreKeys B S DefaultPreKeyCount w1 = (r, w2)" by fastforce
    with generate_genuine [OF i1 c1 g] have "genuine B p (alpha (w_store w2))" by simp
    moreover from generateOneTimePreKeys_wp [OF i1 _ c1, of B] run have
      "(\<exists>x. r = Inr x) \<longrightarrow> invar (w_store w2) \<and> a_localDevice (alpha (w_store w2)) = ?dev"
      by (auto simp: wp_def DefaultPreKeyCount_def add_prekeys_def issue_def a rotate_spk_def)
    ultimately show ?thesis using run by (cases r) (simp_all add: wp_def)
  qed
  show ?thesis
    unfolding InitIdentity_def wp_andThen wp_wrapErr
  proof (rule wp_liftE_run, goal_cases)
    case (1 key e)
    then have gen: "may (GenerateIdentityKey B p) key" by (rule mayI)
    have signed: "wp (liftE (GenerateSignedPreKey B p key)) (\<lambda>x. wp (case x of (spkPub, spkPriv, spkSig) \<Rightarrow>
         andThen (wrapErr ''store signed prekey'' (liftS (RotateSignedPreKey S
           \<lparr>spr_ID = 1, spr_Public = spkPub, spr_Private = spkPriv, spr_Signature = spkSig\<rparr>)))
         (\<lambda>_. generateOneTimePreKeys B S DefaultPreKeyCount)) (\<lambda>_ w'. invar (w_store w') \<and> genuine B p (alpha (w_store w')) \<and>
            a_localDevice (alpha (w_store w')) = ?dev) (\<lambda>_ _. True)) (\<lambda>_ _. True) w1"
      if "invar (w_store w1)" "alpha (w_store w1) = (alpha (w_store w))\<lparr>a_identityKey := key, a_localDevice := ?dev\<rparr>" for w1
    proof (rule wp_liftE_run, goal_cases)
      case (1 x e')
      obtain pub priv sig where x: "x = (pub, priv, sig)" by (cases x)
      with 1 have "made_signed B p key \<lparr>spr_ID = 1, spr_Public = pub, spr_Private = priv, spr_Signature = sig\<rparr>"
        by (auto simp: made_signed_def may_def)
      then show ?case
        unfolding x prod.case wp_andThen wp_wrapErr
        by (intro wp_store [OF RotateSignedPreKey_spec]) (use that gen in \<open>auto intro!: pool\<close>)
    qed simp
    show ?case
      using i by (auto intro!: wp_store [OF SetIdentityKeyPair_spec] wp_store [OF SetLocalDevice_spec] signed)
  qed simp
qed

section \<open>Bundles offer genuine keys\<close>

lemma Bundle_backed:
  assumes M: "m_store M = S" "m_protocol M = p" "m_identityKey M = a_identityKey (alpha (w_store w))"
    and i: "invar (w_store w)" and g: "genuine B p (alpha (w_store w))"
  shows "wp (Manager_Bundle B M) (\<lambda>b w'. invar (w_store w') \<and> alpha (w_store w') = alpha (w_store w) \<and>
     backed B M b (alpha (w_store w))) (\<lambda>_ _. True) w"
  unfolding Manager_Bundle_def wp_andThen wp_wrapErr M(1) Let_def
proof (rule wp_store [OF CurrentSignedPreKey_spec i], goal_cases)
  case (1 spk s)
  then have s: "invar s" "alpha s = alpha (w_store w)" "spk = a_currentSPK (alpha (w_store w))" by simp_all
  show ?case
  proof (rule wp_store [OF PreKeys_spec], goal_cases)
    case (2 recs s')
    let ?a = "alpha (w_store w)"
    from 2 s have s': "invar s'" "alpha s' = ?a"
      and recs: "mset recs = image_mset (\<lambda>i. the (a_preKeys ?a i)) (mset_set (dom (a_preKeys ?a)))" by simp_all
    have fin: "finite (dom (a_preKeys ?a))" by (rule pool_finite [OF i])
    have pool: "a_preKeys ?a (pkr_ID r) = Some r \<and> made_prekey B r" if "r \<in> set recs" for r
    proof -
      from that have "r \<in># mset recs" by simp
      with recs fin obtain j where "a_preKeys ?a j = Some r" by auto
      with g show ?thesis by (auto simp: genuine_def pool_ok_def)
    qed
    show ?case
    proof (rule wp_liftE_run, goal_cases)
      case (1 pub e)
      then have "may (IdentityPublicKey B (m_protocol M) (m_identityKey M)) pub" by (auto simp: may_def)
      moreover have "made_signed B p (m_identityKey M) spk" "may (GenerateIdentityKey B p) (m_identityKey M)"
        using g M s(3) by (simp_all add: genuine_def)
      ultimately show ?case
        using pool s(3) s' M by (auto simp: wp_ret backed_def spk_for_def made_signed_def made_prekey_def)
    qed simp
  qed (use s in simp_all)
qed simp

lemma Bundle_offered:
  assumes "m_store M = S" "m_protocol M = p" "m_identityKey M = a_identityKey (alpha (w_store w))"
    and "invar (w_store w)" and "genuine B p (alpha (w_store w))"
  shows "wp (Manager_Bundle B M) (\<lambda>b w'. invar (w_store w') \<and> alpha (w_store w') = alpha (w_store w) \<and>
     offered B M b (alpha (w_store w))) (\<lambda>_ _. True) w"
  by (rule wp_mono [OF Bundle_backed [OF assms]]) (auto intro: backed_offered)

end

text \<open>An offered bundle stays so while its prekeys are there.\<close>

lemma offered_later:
  assumes "offered B R b a" and "spk_for a' (spk_ID (b_SignedPreKey b)) = spk_for a (spk_ID (b_SignedPreKey b))"
    and "\<And>pk pks. b_PreKeys b = pk # pks \<Longrightarrow> a_preKeys a' (pk_ID pk) = a_preKeys a (pk_ID pk)"
  shows "offered B R b a'"
  using assms unfolding offered_def by auto

text \<open>An identifier keeps its prekey as long as it is in the pool: over all sequences of calls.\<close>

definition pool_fixed :: "astore \<Rightarrow> astore \<Rightarrow> bool" where
  "pool_fixed a a' \<longleftrightarrow> a_issued a \<subseteq> a_issued a' \<and> a_identityKey a' = a_identityKey a \<and> (pool_ok a \<longrightarrow> pool_ok a' \<and>
     (\<forall>i \<in> a_issued a. a_preKeys a' i = None \<or> a_preKeys a' i = a_preKeys a i))"

lemma frame_rel_pool_fixed [simp, intro]: "frame_rel pool_fixed"
  unfolding frame_rel_def
proof
  show "reflp pool_fixed" by (auto simp: pool_fixed_def intro: reflpI)
  show "transp pool_fixed"
  proof (rule transpI)
    fix a b c assume ab: "pool_fixed a b" and bc: "pool_fixed b c"
    have "a_preKeys c i = None \<or> a_preKeys c i = a_preKeys a i" if "pool_ok a" "i \<in> a_issued a" for i
    proof -
      from ab that have "pool_ok b" "i \<in> a_issued b" "a_preKeys b i = None \<or> a_preKeys b i = a_preKeys a i"
        unfolding pool_fixed_def by blast+
      with bc show ?thesis unfolding pool_fixed_def by metis
    qed
    with ab bc show "pool_fixed a c" unfolding pool_fixed_def by auto
  qed
qed

lemma pool_fixed_frames:
  "send_frame J a a' \<Longrightarrow> pool_fixed a a'" "dec_frame d a a' \<Longrightarrow> pool_fixed a a'" "issue_frame a a' \<Longrightarrow> pool_fixed a a'"
  by (cases a; cases a'; auto simp: send_frame_def dec_frame_def issue_frame_def pool_fixed_def pool_ok_def split: if_splits)+

lemma pool_fixed_add: "fresh_recs rs a \<Longrightarrow> pool_fixed a (add_prekeys rs a)"
proof -
  assume f: "fresh_recs rs a"
  have "a_preKeys (add_prekeys rs a) i = a_preKeys a i" if "i \<in> a_issued a" for i
  proof -
    from f that have "i \<notin> pkr_ID ` set rs" by (auto simp: fresh_recs_def)
    then show ?thesis by (simp add: add_prekeys_def issue_def put_recs_other)
  qed
  then show ?thesis
    using pool_ok_add_prekeys [of a rs] by (auto simp: pool_fixed_def) (auto simp: add_prekeys_def issue_def)
qed

lemma pool_fixed_steps:
  "pool_fixed a (a\<lparr>a_sessions := f\<rparr>)" "pool_fixed a (a\<lparr>a_trust := g\<rparr>)" "pool_fixed a (a\<lparr>a_devices := h\<rparr>)"
  "pool_fixed a (rotate_spk r a)"
  by (auto simp: pool_fixed_def pool_ok_def rotate_spk_def)

interpretation fixed: call_relation MemStore_Store ms_inv ms_abs pool_fixed True
  by unfold_locales (auto intro: pool_fixed_frames pool_fixed_add pool_fixed_steps)

end
