(* ===== verification/Manager_Opening.thy ===== *)
theory Manager_Opening
  imports Manager_Published
begin

text \<open>
  How a conversation begins. A device that initialised its identity and built a bundle offers it, over
  all calls, as long as the prekeys named in it are there. The first message made with such a bundle is
  read, and when the receiver then decides to trust the key it recorded for the sender, the two devices
  are \<open>conversing\<close> in the sense of \<open>Manager_Exchange\<close>.
\<close>

section \<open>Bundles over all calls\<close>

text \<open>The key material of a manager over all calls.\<close>

lemma reaches_genuine:
  assumes "reaches (call_ok ms_abs) B M w w'" and M: "m_store M = MemStore_Store" "m_protocol M = p"
      "m_identityKey M = a_identityKey (ms_abs (w_store w))"
    and i: "ms_inv (w_store w)" and g: "genuine B p (ms_abs (w_store w))"
  shows "ms_inv (w_store w') \<and> genuine B p (ms_abs (w_store w')) \<and>
     pool_fixed (ms_abs (w_store w)) (ms_abs (w_store w'))"
  using assms(1)
proof (induction rule: reaches.induct)
  case here
  with i g show ?case by (simp add: fixed.R_refl)
next
  case (step w' c)
  then have IH: "ms_inv (w_store w')" "genuine B p (ms_abs (w_store w'))"
    "pool_fixed (ms_abs (w_store w)) (ms_abs (w_store w'))" by simp_all
  then have key: "m_identityKey M = a_identityKey (ms_abs (w_store w'))" using M(3) by (simp add: pool_fixed_def)
  from fixed.run_call_rel [OF M(1) IH(1) step.hyps(2), of B] IH(3)
    memstore.run_call_genuine [OF M(1,2) key IH(1) step.hyps(2) IH(2)]
  show ?case using IH(1) by (auto simp: store_rel_def intro: fixed.R_trans)
qed

text \<open>
  From a new store to a bundle that is backed by the store, and to one that is offered, whatever is
  called before and after.
\<close>

lemma published_backed:
  assumes fresh: "w_store w0 = ms_New rand" and init: "InitIdentity B MemStore_Store jid d p w0 = (Inr (), w1)"
    and mgr: "NewManager MemStore_Store T p (map WithTrustResolver rs) w1 = (Inr R, w2)"
    and before: "reaches (call_ok ms_abs) B R w2 w3" and built: "Manager_Bundle B R w3 = (Inr b, w4)"
    and later: "reaches (call_ok ms_abs) B R w4 w5"
  shows "m_store R = MemStore_Store \<and> m_protocol R = p \<and> m_localDevice R = \<lparr>dev_JID = jid, dev_ID = d\<rparr> \<and>
     may (GenerateIdentityKey B p) (m_identityKey R) \<and> ms_inv (w_store w5) \<and>
     backed B R b (ms_abs (w_store w4)) \<and>
     (\<forall>pk \<in> set (b_PreKeys b). a_preKeys (ms_abs (w_store w5)) (pk_ID pk) = None \<or>
        a_preKeys (ms_abs (w_store w5)) (pk_ID pk) = a_preKeys (ms_abs (w_store w4)) (pk_ID pk))"
proof -
  have empty: "{i :: uint32. i = 0 \<and> 0 < i} = {}" by auto
  have new: "ms_inv (w_store w0)" "card (a_issued (ms_abs (w_store w0))) + 100 < 2 ^ 32"
    "a_preKeys (ms_abs (w_store w0)) = Map.empty" "a_staleSPK (ms_abs (w_store w0)) = None"
    "spr_Public (a_currentSPK (ms_abs (w_store w0))) = None"
    by (simp_all add: fresh ms_inv_def ms_New_def ms_abs_def empty)
  from wp_run_Inr [OF memstore.InitIdentity_genuine [OF new] init] have
    w1: "ms_inv (w_store w1)" "genuine B p (ms_abs (w_store w1))"
      "a_localDevice (ms_abs (w_store w1)) = \<lparr>dev_JID = jid, dev_ID = d\<rparr>" by simp_all
  from NewManager_loads [OF mgr] w1 have R: "m_store R = MemStore_Store" "m_protocol R = p"
      "m_identityKey R = a_identityKey (ms_abs (w_store w2))" "m_localDevice R = \<lparr>dev_JID = jid, dev_ID = d\<rparr>"
    and w2: "ms_inv (w_store w2)" "genuine B p (ms_abs (w_store w2))" by auto
  from reaches_genuine [OF before R(1-3) w2] have w3: "ms_inv (w_store w3)" "genuine B p (ms_abs (w_store w3))"
    "m_identityKey R = a_identityKey (ms_abs (w_store w3))" using R(3) by (simp_all add: pool_fixed_def)
  from wp_run_Inr [OF memstore.Bundle_backed [OF R(1,2) w3(3,1,2)] built] have
    w4: "ms_inv (w_store w4)" "ms_abs (w_store w4) = ms_abs (w_store w3)" "backed B R b (ms_abs (w_store w4))" by simp_all
  from reaches_genuine [OF later R(1,2) _ w4(1)] w3 w4(2) have w5: "ms_inv (w_store w5)"
    "pool_fixed (ms_abs (w_store w4)) (ms_abs (w_store w5))" by simp_all
  have ok: "pool_ok (ms_abs (w_store w4))" using w3(2) w4(2) by (simp add: genuine_def)
  have "pk_ID pk \<in> a_issued (ms_abs (w_store w4))" if "pk \<in> set (b_PreKeys b)" for pk
    using that w4(3) ok unfolding backed_def pool_ok_def by blast
  with w5(2) ok have "\<forall>pk \<in> set (b_PreKeys b). a_preKeys (ms_abs (w_store w5)) (pk_ID pk) = None \<or>
     a_preKeys (ms_abs (w_store w5)) (pk_ID pk) = a_preKeys (ms_abs (w_store w4)) (pk_ID pk)"
    unfolding pool_fixed_def by blast
  moreover have "may (GenerateIdentityKey B p) (m_identityKey R)" using w4(3) R(2) by (simp add: backed_def)
  ultimately show ?thesis using R w4(3) w5(1) by blast
qed

lemma backed_later:
  assumes "backed B R b a" and "spk_for a' (spk_ID (b_SignedPreKey b)) = spk_for a (spk_ID (b_SignedPreKey b))"
    and "\<forall>pk \<in> set (b_PreKeys b). a_preKeys a' (pk_ID pk) = None \<or> a_preKeys a' (pk_ID pk) = a_preKeys a (pk_ID pk)"
    and "\<forall>pk pks. b_PreKeys b = pk # pks \<longrightarrow> a_preKeys a' (pk_ID pk) \<noteq> None"
  shows "offered B R b a'"
proof (rule offered_later [OF backed_offered [OF assms(1)] assms(2)])
  fix pk pks assume "b_PreKeys b = pk # pks"
  with assms(3,4) show "a_preKeys a' (pk_ID pk) = a_preKeys a (pk_ID pk)" by auto
qed

section \<open>The first message\<close>

text \<open>\<open>M\<close> knows the device lists of both accounts, and \<open>R\<close>'s device stands in them once.\<close>

definition knows :: "('s, 'e) Manager \<Rightarrow> ('s, 'e) Manager \<Rightarrow> astore \<Rightarrow> bool" where
  "knows M R a \<longleftrightarrow> a_devices a (dev_JID (m_localDevice R)) \<noteq> [] \<and> a_devices a (dev_JID (m_localDevice M)) \<noteq> [] \<and>
     filter (\<lambda>d. dev_ID d = dev_ID (m_localDevice R)) (recipients M (dev_JID (m_localDevice R)) a) = [m_localDevice R]"

context omemo_store
begin

lemma InitIdentity_safe:
  assumes B: "calm_backend B"
  shows "safe (quiet invar H) (InitIdentity B S jid d p) (\<lambda>_. True)"
proof -
  have pool: "safe (quiet invar H) (generateOneTimePreKeys B S DefaultPreKeyCount) (\<lambda>_. True)"
    by (rule generate_safe [OF B]) (simp_all add: DefaultPreKeyCount_def)
  show ?thesis
    unfolding InitIdentity_def
    by (intro safe_intros store_safe safe_liftE_calm signal_calm B pool)
qed

end

context reliable_store
begin

lemma first_message:
  assumes A: "m_store A = S" "m_protocol A = p" and R: "m_store R = S" "m_protocol R = p"
    and gen: "may (GenerateIdentityKey B p) (m_identityKey A)"
    and laws: "ratchet_laws B P Q p" "payload_laws B" "handshake_laws B P Q p"
    and i: "invar (w_store wA)" "invar (w_store wR)" and free: "lock_free (m_localDevice A) wR"
    and env: "env_kept I B A" "I (w_env wA)"
    and offers: "\<forall>e b e'. I e \<and> FetchBundle (m_transport A) (m_localDevice R) e = (Inr b, e') \<longrightarrow>
       offered B R b (alpha (w_store wR))"
    and none: "a_sessions (alpha (w_store wA)) (m_localDevice R) = None"
    and sent: "EncryptMessage B A jid pt wA = (Inr (Some msg, errs, err), wA')"
    and one: "filter (\<lambda>d. dev_ID d = dev_ID (m_localDevice R)) (recipients A jid (alpha (w_store wA'))) = [m_localDevice R]"
    and ok: "m_localDevice R \<notin> de_Device ` set errs"
  shows "delivers B A I (m_localDevice R) pt None msg (a_sessions (alpha (w_store wA')) (m_localDevice R))"
    and "\<exists>r wR' x y. DecryptMessage B R msg wR = (Inr r, wR') \<and> slice_string r = slice_string pt \<and>
     (pt = None \<longrightarrow> r = None) \<and> invar (w_store wR') \<and> a_sessions (alpha (w_store wA')) (m_localDevice R) = Some x \<and>
     a_sessions (alpha (w_store wR')) (m_localDevice A) = Some y \<and> in_step B p (paired P Q p) x y"
proof -
  from one have "m_localDevice R \<in> set (filter (\<lambda>d. dev_ID d = dev_ID (m_localDevice R)) (recipients A jid (alpha (w_store wA'))))"
    by simp
  then have nl: "m_localDevice R \<noteq> m_localDevice A" by (simp add: recipients_def)
  from wp_run_Inr [OF encrypt_delivers [OF A(1) i(1) env nl] sent [unfolded EncryptMessage_def]] none one ok
  show del: "delivers B A I (m_localDevice R) pt None msg (a_sessions (alpha (w_store wA')) (m_localDevice R))" by simp
  from message_first [OF R A(2) gen laws del i(2) free] offers
  show "\<exists>r wR' x y. DecryptMessage B R msg wR = (Inr r, wR') \<and> slice_string r = slice_string pt \<and>
     (pt = None \<longrightarrow> r = None) \<and> invar (w_store wR') \<and> a_sessions (alpha (w_store wA')) (m_localDevice R) = Some x \<and>
     a_sessions (alpha (w_store wR')) (m_localDevice A) = Some y \<and> in_step B p (paired P Q p) x y" by blast
qed

text \<open>
  After the first message the sender can go on: it has the session, and the identity key of the device
  is trusted, as a key was made for it.
\<close>

lemma sender_contact:
  assumes A: "m_store A = S" and B: "calm_backend B" "calm_manager A" and q: "quiet invar {} wA"
    and sent: "EncryptMessage B A (dev_JID peer) pt wA = (Inr (Some msg, errs, err), wA')"
    and one: "filter (\<lambda>d. dev_ID d = dev_ID peer) (recipients A (dev_JID peer) (alpha (w_store wA'))) = [peer]"
    and ok: "peer \<notin> de_Device ` set errs"
    and lists: "a_devices (alpha (w_store wA)) (dev_JID peer) \<noteq> []" "a_devices (alpha (w_store wA)) (dev_JID (m_localDevice A)) \<noteq> []"
    and x: "a_sessions (alpha (w_store wA')) peer = Some x"
  shows "quiet invar {} wA' \<and> contact A peer x (alpha (w_store wA'))"
proof -
  from q have i: "invar (w_store wA)" by (simp add: quiet_def)
  note run = sent [unfolded EncryptMessage_def]
  from wp_run_Inr [OF encrypt_total_wp [OF A i A i] run] have
    frame: "send_frame {dev_JID peer, dev_JID (m_localDevice A)} (alpha (w_store wA)) (alpha (w_store wA'))"
    and post: "loop_post (recipients A (dev_JID peer) (alpha (w_store wA'))) (em_Keys msg) errs (alpha (w_store wA'))"
    by (auto simp: encrypt_post_def recipients_def split: option.splits)
  from one have "peer \<in> set (filter (\<lambda>d. dev_ID d = dev_ID peer) (recipients A (dev_JID peer) (alpha (w_store wA'))))" by simp
  then have mem: "peer \<in> set (recipients A (dev_JID peer) (alpha (w_store wA')))" by (simp only: set_filter mem_Collect_eq)
  from loop_post_ready [OF post mem ok] obtain k where "ready peer k (alpha (w_store wA'))" ..
  with x have "ready_with peer x k (alpha (w_store wA'))" by (simp add: ready_with_def)
  moreover have "a_devices (alpha (w_store wA')) (dev_JID peer) \<noteq> []"
    "a_devices (alpha (w_store wA')) (dev_JID (m_localDevice A)) \<noteq> []"
    using frame lists by (auto simp: send_frame_def)
  moreover from wp_run_Inr [OF safeD [OF encrypt_safe [OF A B] q] run] have "quiet invar {} wA'" by simp
  ultimately show ?thesis using one by (auto simp: contact_def)
qed

text \<open>The receiver has recorded an identity key of the sender; trust and device lists are as before.\<close>

lemma receiver_after:
  assumes R: "m_store R = S" and B: "calm_backend B" and q: "quiet invar {} wR"
    and msg: "delivers B A I (m_localDevice R) pt None msg stored'"
    and read: "DecryptMessage B R msg wR = (Inr r, wR')"
  shows "quiet invar {} wR'" and "\<exists>k. a_remoteID (alpha (w_store wR')) (m_localDevice A) = Some k"
    and "a_trust (alpha (w_store wR')) = a_trust (alpha (w_store wR))"
    and "a_devices (alpha (w_store wR')) = a_devices (alpha (w_store wR))"
proof -
  let ?dA = "m_localDevice A"
  from q have i: "invar (w_store wR)" by (simp add: quiet_def)
  from msg obtain key kx where key: "find (\<lambda>k. rk_Device k = dev_ID (m_localDevice R)) (em_Keys msg) = Some key"
    and kx: "rk_KeyExchange key = Some kx" and sender: "em_Sender msg = ?dA"
    by (auto simp: delivers_def turn_done_def opened_def)
  from wp_run_Inr [OF DecryptMessage_wp [OF R i key] read] kx sender obtain b where
    "kx_done (m_protocol R) ?dA kx (alpha (w_store wR)) b" "session_put ?dA b (alpha (w_store wR'))" by auto
  then show "\<exists>k. a_remoteID (alpha (w_store wR')) ?dA = Some k"
    "a_trust (alpha (w_store wR')) = a_trust (alpha (w_store wR))"
    "a_devices (alpha (w_store wR')) = a_devices (alpha (w_store wR))"
    by (auto simp: kx_done_def kx_step_def session_put_def)
  from wp_run_Inr [OF safeD [OF DecryptMessage_safe [OF R B] q] read] show "quiet invar {} wR'" by simp
qed

lemma SetTrust_run:
  assumes "invar (w_store w)"
  shows "\<exists>w'. liftS (SetTrust S k t) w = (Inr (), w') \<and> invar (w_store w') \<and> w_held w' = w_held w \<and>
     alpha (w_store w') = (alpha (w_store w))\<lparr>a_trust := (a_trust (alpha (w_store w)))(slice_string k := t)\<rparr>"
proof -
  have "wp (liftS (SetTrust S k t)) (\<lambda>_ w'. invar (w_store w') \<and> w_held w' = w_held w \<and>
     alpha (w_store w') = (alpha (w_store w))\<lparr>a_trust := (a_trust (alpha (w_store w)))(slice_string k := t)\<rparr>) (\<lambda>_ _. False) w"
    by (rule wp_store_at [OF SetTrust_spec assms]) (use assms SetTrust_total in \<open>auto simp: succeeds_def\<close>)
  then show ?thesis unfolding wp_def by (auto split: prod.splits sum.splits)
qed

lemma conversation_begins:
  assumes A: "m_store A = S" "m_protocol A = p" and R: "m_store R = S" "m_protocol R = p"
    and gen: "may (GenerateIdentityKey B p) (m_identityKey A)"
    and laws: "ratchet_laws B P Q p" "payload_laws B" "handshake_laws B P Q p"
    and calm: "calm_backend B" "calm_manager A"
    and q: "quiet invar {} wA" "quiet invar {} wR"
    and env: "env_kept I B A" "I (w_env wA)"
    and offers: "\<forall>e b e'. I e \<and> FetchBundle (m_transport A) (m_localDevice R) e = (Inr b, e') \<longrightarrow>
       offered B R b (alpha (w_store wR))"
    and none: "a_sessions (alpha (w_store wA)) (m_localDevice R) = None"
    and lists: "knows A R (alpha (w_store wA))" "knows R A (alpha (w_store wR))"
    and sent: "EncryptMessage B A (dev_JID (m_localDevice R)) pt wA = (Inr (Some msg, errs, err), wA')"
    and ok: "m_localDevice R \<notin> de_Device ` set errs"
  shows "\<exists>r wR1 k wR2. DecryptMessage B R msg wR = (Inr r, wR1) \<and> slice_string r = slice_string pt \<and>
     a_remoteID (alpha (w_store wR1)) (m_localDevice A) = Some k \<and>
     liftS (SetTrust S k TrustTrusted) wR1 = (Inr (), wR2) \<and>
     conversing invar alpha B p (paired P Q p) A R wA' wR2"
proof -
  let ?dA = "m_localDevice A" and ?dR = "m_localDevice R"
  from q have i: "invar (w_store wA)" "invar (w_store wR)" and free: "lock_free ?dA wR"
    by (simp_all add: quiet_def lock_free_def)
  from wp_run_Inr [OF encrypt_total_wp [OF A(1) i(1) A(1) i(1)] sent [unfolded EncryptMessage_def]] have
    "send_frame {dev_JID ?dR, dev_JID ?dA} (alpha (w_store wA)) (alpha (w_store wA'))" by simp
  with lists(1) have one: "filter (\<lambda>d. dev_ID d = dev_ID ?dR) (recipients A (dev_JID ?dR) (alpha (w_store wA'))) = [?dR]"
    by (auto simp: knows_def send_frame_def recipients_def all_devices_def)
  note first = first_message [OF A R gen laws i free env offers none sent one ok]
  from first(2) obtain r wR1 x y where read: "DecryptMessage B R msg wR = (Inr r, wR1)" "slice_string r = slice_string pt"
    and x: "a_sessions (alpha (w_store wA')) ?dR = Some x" and y: "a_sessions (alpha (w_store wR1)) ?dA = Some y"
    and st: "in_step B p (paired P Q p) x y" by blast
  from sender_contact [OF A(1) calm q(1) sent one ok _ _ x] lists(1) have
    cA: "quiet invar {} wA'" "contact A ?dR x (alpha (w_store wA'))" by (simp_all add: knows_def)
  note after = receiver_after [OF R(1) calm(1) q(2) first(1) read(1)]
  from after(2) obtain k where k: "a_remoteID (alpha (w_store wR1)) ?dA = Some k" ..
  have cR: "contact R ?dA y ((alpha (w_store wR1))\<lparr>a_trust := g\<rparr>)" if "g (slice_string k) = TrustTrusted" for g
    using that k y after(4) lists(2)
    by (auto simp: knows_def contact_def ready_with_def ready_def recipients_def all_devices_def)
  from after(1) have "invar (w_store wR1)" by (simp add: quiet_def)
  from SetTrust_run [OF this, of k TrustTrusted] obtain wR2 where
    trust: "liftS (SetTrust S k TrustTrusted) wR1 = (Inr (), wR2)" "invar (w_store wR2)" "w_held wR2 = w_held wR1"
      "alpha (w_store wR2) = (alpha (w_store wR1))\<lparr>a_trust := (a_trust (alpha (w_store wR1)))(slice_string k := TrustTrusted)\<rparr>"
    by blast
  with cR after(1) have "quiet invar {} wR2" "contact R ?dA y (alpha (w_store wR2))" by (simp_all add: quiet_def)
  with cA st have "conversing invar alpha B p (paired P Q p) A R wA' wR2" unfolding conversing_def by blast
  with read k trust(1) show ?thesis by blast
qed

end

end
