(* ===== verification/Properties_Conversation.thy ===== *)
theory Properties_Conversation
  imports Fake_Laws Manager_Opening
begin

text \<open>
  The two ends together: what \<open>EncryptMessage\<close> of one manager makes, \<open>DecryptMessage\<close> of another
  reads. The managers work over in-memory stores; of the backend only the laws of
  \<open>Backend_Laws\<close> and \<open>Manager_Handshake\<close> are assumed.
\<close>

section \<open>The first message\<close>

text \<open>
  The first message to a device, in either protocol: when \<open>EncryptMessage\<close> reports no failure for
  the device, and the bundle the network returns is one the device offered, \<open>DecryptMessage\<close> on that
  device returns the plaintext, and the two devices hold sessions in step.
\<close>

theorem first_message_delivered:
  assumes "m_store A = MemStore_Store" and "m_protocol A = p" and "m_store R = MemStore_Store" and "m_protocol R = p"
    and "may (GenerateIdentityKey B p) (m_identityKey A)"
    and "ratchet_laws B P Q p" and "payload_laws B" and "handshake_laws B P Q p"
    and "ms_inv (w_store wA)" and "ms_inv (w_store wR)" and "lock_free (m_localDevice A) wR"
    and "env_kept I B A" and "I (w_env wA)"
    and "\<forall>e b e'. I e \<and> FetchBundle (m_transport A) (m_localDevice R) e = (Inr b, e') \<longrightarrow>
       offered B R b (ms_abs (w_store wR))"
    and "ms_sessions (w_store wA) (m_localDevice R) = None"
    and "EncryptMessage B A jid pt wA = (Inr (Some msg, errs, err), wA')"
    and "filter (\<lambda>d. dev_ID d = dev_ID (m_localDevice R)) (recipients A jid (ms_abs (w_store wA'))) = [m_localDevice R]"
    and "m_localDevice R \<notin> de_Device ` set errs"
  shows "\<exists>r wR' x y. DecryptMessage B R msg wR = (Inr r, wR') \<and> slice_string r = slice_string pt \<and>
     (pt = None \<longrightarrow> r = None) \<and> ms_sessions (w_store wA') (m_localDevice R) = Some x \<and>
     ms_sessions (w_store wR') (m_localDevice A) = Some y \<and> in_step B p (paired P Q p) x y"
proof -
  have none: "a_sessions (ms_abs (w_store wA)) (m_localDevice R) = None" using assms(15) by simp
  from memstore.first_message(2) [OF assms(1-14) none assms(16-18)] show ?thesis by auto
qed

lemma stub_env:
  "env_kept (\<lambda>e. fn_bundles e d = x) stub (ex_manager p jid b)"
  by (auto simp: env_kept_def stable_def inv_rel_def fakeTransport_def fake_defs trust_all_def
      stub_initial_def stub_initial1_def stub_keypair_def stub_encrypt_def stub_ratchet_defs stub_prekey_message_def
      stub_payload_def stub_rand_def act_simps split: option.split)

lemma stub_generated: "may (GenerateIdentityKey stub p) (m_identityKey (ex_manager p jid b))"
proof -
  have "stub_rand 32 (ex_env\<lparr>fe_rand := unat b\<rparr>) = (Inr (replicate 32 b), ex_env\<lparr>fe_rand := Suc (unat b)\<rparr>)"
    by (simp add: stub_rand_def)
  then show ?thesis
    unfolding may_def
    by (intro exI [of _ "ex_env\<lparr>fe_rand := unat b\<rparr>"] exI [of _ "ex_env\<lparr>fe_rand := Suc (unat b)\<rparr>"])
      (simp add: GenerateIdentityKey_def act_simps ex_manager_def ex_key_def replicate_add [symmetric])
qed

lemma ex_offered:
  assumes "p = ProtocolV1 \<or> p = ProtocolV2"
  shows "offered stub (ex_manager p ''b'' 2) (ex_bundle ''b'' 2) (ms_abs (ex_store ''b'' 2))"
proof -
  let ?e = "\<lambda>k :: byte. ex_env\<lparr>fe_rand := unat k\<rparr>" and ?e' = "\<lambda>k :: byte. ex_env\<lparr>fe_rand := Suc (unat k)\<rparr>"
  have "may stub_keypair (Some [k], Some [k])" for k :: byte
    unfolding may_def stub_keypair_def by (intro exI [of _ "?e k"] exI [of _ "?e' k"]) simp
  moreover have "may (stub_spk i) (Some [k], Some [k], Some [])" for k :: byte and i
    unfolding may_def stub_spk_def stub_keypair_def
    by (intro exI [of _ "?e k"] exI [of _ "?e' k"]) (simp add: act_simps)
  ultimately show ?thesis
    using assms stub_generated [of p "''b''" 2]
    by (auto simp: offered_def ex_bundle_def ex_store_def ms_New_def ms_abs_def spk_for_def ex_manager_def ex_key_def
        IdentityPublicKey_def GenerateSignedPreKey_def GenerateOneTimePreKey_def slice_len_def replicate_add [symmetric])
qed

lemma ex_sent_ok1: "the_msg (fst (ex_sent ProtocolV1)) \<noteq> None"
  by code_simp

lemma ex_sent_run_any:
  assumes "p = ProtocolV1 \<or> p = ProtocolV2"
  shows "EncryptMessage stub (ex_manager p ''a'' 3) ''b'' (Some [104, 105]) (ex_world ''a'' 3) =
     (Inr (Some (ex_msg p), [], None), snd (ex_sent p))"
proof -
  from assms ex_sent_ok ex_sent_ok1 have "the_msg (fst (ex_sent p)) = Some (ex_msg p)"
    by (auto simp: ex_msg_def)
  from the_msg_Some [OF this] show ?thesis
    unfolding ex_sent_def [symmetric] by (simp add: prod_eq_iff)
qed

lemma ex_sent_devices:
  assumes "p = ProtocolV1 \<or> p = ProtocolV2"
  shows "ms_devices (w_store (snd (ex_sent p))) ''b'' = Some [1]" "ms_devices (w_store (snd (ex_sent p))) ''a'' = Some [1]"
proof -
  have "ms_devices (w_store (snd (ex_sent ProtocolV1))) ''b'' = Some [1]"
    "ms_devices (w_store (snd (ex_sent ProtocolV1))) ''a'' = Some [1]"
    "ms_devices (w_store (snd (ex_sent ProtocolV2))) ''b'' = Some [1]"
    "ms_devices (w_store (snd (ex_sent ProtocolV2))) ''a'' = Some [1]" by code_simp+
  with assms show "ms_devices (w_store (snd (ex_sent p))) ''b'' = Some [1]"
    "ms_devices (w_store (snd (ex_sent p))) ''a'' = Some [1]" by auto
qed

theorem first_message_delivered_witness:
  "(\<exists>r wR'. DecryptMessage stub (ex_manager ProtocolV1 ''b'' 2) (ex_msg ProtocolV1) (ex_world ''b'' 2) = (Inr r, wR') \<and>
     slice_string r = [104, 105]) \<and>
   (\<exists>r wR'. DecryptMessage stub (ex_manager ProtocolV2 ''b'' 2) (ex_msg ProtocolV2) (ex_world ''b'' 2) = (Inr r, wR') \<and>
     slice_string r = [104, 105])"
proof -
  have "\<exists>r wR'. DecryptMessage stub (ex_manager p ''b'' 2) (ex_msg p) (ex_world ''b'' 2) = (Inr r, wR') \<and>
     slice_string r = [104, 105]" if p: "p = ProtocolV1 \<or> p = ProtocolV2" for p
  proof -
    let ?A = "ex_manager p ''a'' 3" and ?R = "ex_manager p ''b'' 2"
    let ?b = "m_localDevice ?R"
    let ?I = "\<lambda>e :: fakeEnv. fn_bundles e ?b = Some (ex_bundle ''b'' 2)"
    have stores: "w_store (ex_world ''b'' 2) = ex_store ''b'' 2" "ms_sessions (w_store (ex_world ''a'' 3)) ?b = None"
      "?I (w_env (ex_world ''a'' 3))"
      by (simp_all add: ex_world_def ex_store_def ms_New_def ex_env_def)
    have one: "filter (\<lambda>d. dev_ID d = dev_ID ?b) (recipients ?A ''b'' (ms_abs (w_store (snd (ex_sent p))))) = [?b]"
      using ex_sent_devices [OF p] by (simp add: recipients_def all_devices_def devs_of_def ms_abs_def)
    have free: "lock_free (m_localDevice ?A) (ex_world ''b'' 2)" by (simp add: lock_free_def ex_world_def)
    have fetch: "\<forall>e b e'. ?I e \<and> FetchBundle (m_transport ?A) ?b e = (Inr b, e') \<longrightarrow>
        offered stub ?R b (ms_abs (w_store (ex_world ''b'' 2)))"
      using ex_offered [OF p] unfolding stores by (auto simp: fakeTransport_def fake_FetchBundle_def)
    from first_message_delivered [OF _ _ _ _ stub_generated stub_ratchets stub_payloads stub_handshake [OF p] ex_world_inv ex_world_inv
        free stub_env stores(3) fetch stores(2) ex_sent_run_any [OF p] one]
    show ?thesis
      by auto
  qed
  then show ?thesis by simp
qed

section \<open>Dialogues\<close>

text \<open>
  C4. A dialogue of any length, in any order of speakers, is delivered: between two devices with
  sessions in step that trust each other's identity key and know the device lists, every message
  sent with \<open>EncryptMessage\<close> is read by the other's \<open>DecryptMessage\<close> with the bytes of its plaintext,
  whatever happens to the other recipients of each message.
\<close>

theorem dialogue_delivered:
  assumes "m_store A = MemStore_Store" and "m_protocol A = p" and "m_store R = MemStore_Store" and "m_protocol R = p"
    and "ratchet_laws B P Q p" and "payload_laws B" and "ratchet_sends B P Q p"
    and "calm_backend B" and "calm_manager A" and "calm_manager R"
    and "conversing ms_inv ms_abs B p (paired P Q p) A R wA wR"
  shows "map (map_sum id slice_string) (dialogue B A R script (wA, wR)) = map (Inr \<circ> slice_string \<circ> snd) script"
  by (rule memstore.dialogue_read [OF assms(1-11)])

text \<open>Worlds in which \<open>jid\<close> and \<open>peer\<close> have a session, with the ratchet state \<open>[1]\<close> on both sides.\<close>

definition ex_talk :: "string \<Rightarrow> string \<Rightarrow> byte \<Rightarrow> (MemStore, fakeEnv) world" where
  "ex_talk jid peer b = (ex_world jid b)\<lparr>w_store := (ex_store jid b)\<lparr>
     ms_sessions := [\<lparr>dev_JID = peer, dev_ID = 1\<rparr> \<mapsto> Some [1]],
     ms_remoteID := [\<lparr>dev_JID = peer, dev_ID = 1\<rparr> \<mapsto> Some [2]],
     ms_trust := [[2] \<mapsto> TrustTrusted], ms_devices := [''a'' \<mapsto> [1], ''b'' \<mapsto> [1]]\<rparr>\<rparr>"

lemma ex_talk_inv [simp]: "ms_inv (w_store (ex_talk jid peer b))"
  by (simp add: ex_talk_def ex_store_def ms_inv_def ms_New_def)

lemma ex_talk_contact:
  "jid \<noteq> peer \<Longrightarrow> {jid, peer} = {''a'', ''b''} \<Longrightarrow>
     contact (ex_manager p jid b) \<lparr>dev_JID = peer, dev_ID = 1\<rparr> (Some [1]) (ms_abs (w_store (ex_talk jid peer b)))"
  by (auto simp: contact_def ready_with_def ready_def ex_talk_def ms_abs_def recipients_def all_devices_def
      devs_of_def doubleton_eq_iff)

lemma stub_in_step: "in_step stub p (paired (=) (=) p) (Some [1]) (Some [1])"
proof -
  have "\<exists>s. paired (=) (=) p s s \<and> always (LoadSession stub p (Some [1])) s"
    unfolding paired_def LoadSession_def v1_session_def v2_session_def
    by (cases "p = ProtocolV1") (auto simp: always_def act_simps stub_unmarshal_def)
  then show ?thesis unfolding in_step_def linked_def by blast
qed

lemma ex_conversing:
  "conversing ms_inv ms_abs stub p (paired (=) (=) p) (ex_manager p ''a'' 3) (ex_manager p ''b'' 2)
     (ex_talk ''a'' ''b'' 3) (ex_talk ''b'' ''a'' 2)"
  unfolding conversing_def ex_manager_simps
  using ex_talk_contact [of "''a''" "''b''" p 3] ex_talk_contact [of "''b''" "''a''" p 2] stub_in_step [of p]
  by (auto simp: quiet_def) (simp_all add: ex_talk_def ex_world_def)

theorem dialogue_delivered_witness:
  "map (map_sum id slice_string) (dialogue stub (ex_manager ProtocolV1 ''a'' 3) (ex_manager ProtocolV1 ''b'' 2)
     [(True, Some [1, 2]), (True, Some []), (False, Some [3])] (ex_talk ''a'' ''b'' 3, ex_talk ''b'' ''a'' 2)) =
   [Inr [1, 2], Inr [], Inr [3]]"
  using dialogue_delivered [OF _ _ _ _ stub_ratchets stub_payloads stub_sends stub_calm ex_manager_calm ex_manager_calm
      ex_conversing [of ProtocolV1]]
  by (simp del: dialogue.simps)

section \<open>Starting over\<close>

text \<open>
  C28. After \<open>ResetSession\<close> for a device the next message to it starts a new session: its key for the
  device carries a key exchange, so the device can build the other side.
\<close>

theorem ResetSession_starts_over:
  assumes "m_store M = MemStore_Store" and "ms_inv (w_store w)" and "ResetSession M dev w = (Inr (), w1)"
    and "EncryptMessage B M jid pt w1 = (Inr (Some msg, errs, err), w2)"
    and "filter (\<lambda>d. dev_ID d = dev_ID dev) (recipients M jid (ms_abs (w_store w2))) = [dev]"
    and "dev \<notin> de_Device ` set errs"
  shows "ms_sessions (w_store w1) dev = None \<and> (\<exists>key kx. rk_KeyExchange key = Some kx \<and>
     find (\<lambda>k. rk_Device k = dev_ID dev) (em_Keys msg) = Some key)"
proof -
  from assms(1,3) have s: "w_store w1 = (w_store w)\<lparr>ms_sessions := (ms_sessions (w_store w))(dev := None)\<rparr>"
    by (auto simp: ResetSession_def withDeviceLock_run act_simps liftS_def ms_DeleteSession_def case_prod_beta split: if_splits)
  with assms(2) have i: "ms_inv (w_store w1)" and none: "ms_sessions (w_store w1) dev = None" by (simp_all add: ms_inv_def)
  from assms(5) have "dev \<in> set (filter (\<lambda>d. dev_ID d = dev_ID dev) (recipients M jid (ms_abs (w_store w2))))" by simp
  then have "dev \<noteq> m_localDevice M" by (simp add: recipients_def)
  from wp_run_Inr [OF memstore.encrypt_delivers [OF assms(1) i env_kept_True TrueI this] assms(4) [unfolded EncryptMessage_def]]
    assms(5,6) none
  have "delivers B M (\<lambda>_. True) dev pt None msg (ms_sessions (w_store w2) dev)" by simp
  with none show ?thesis by (auto simp: delivers_def turn_done_def opened_def)
qed

definition ex_reset :: "(goerror + unit) \<times> (MemStore, fakeEnv) world" where
  "ex_reset = ResetSession (ex_manager ProtocolV2 ''a'' 3) \<lparr>dev_JID = ''b'', dev_ID = 1\<rparr> (ex_talk ''a'' ''b'' 3)"

definition ex_restart :: "(goerror + encrypt_result) \<times> (MemStore, fakeEnv) world" where
  "ex_restart = EncryptMessage stub (ex_manager ProtocolV2 ''a'' 3) ''b'' (Some [1]) (snd ex_reset)"

theorem ResetSession_starts_over_witness:
  "\<exists>msg key kx. the_msg (fst ex_restart) = Some msg \<and> rk_KeyExchange key = Some kx \<and>
     find (\<lambda>k. rk_Device k = 1) (em_Keys msg) = Some key"
proof -
  have "the_msg (fst ex_restart) \<noteq> None" "ms_devices (w_store (snd ex_restart)) ''b'' = Some [1]"
    "ms_devices (w_store (snd ex_restart)) ''a'' = Some [1]" "fst ex_reset = Inr ()" by code_simp+
  then obtain msg where msg: "the_msg (fst ex_restart) = Some msg" and lists:
    "ms_devices (w_store (snd ex_restart)) ''b'' = Some [1]" "ms_devices (w_store (snd ex_restart)) ''a'' = Some [1]"
    and reset: "ResetSession (ex_manager ProtocolV2 ''a'' 3) \<lparr>dev_JID = ''b'', dev_ID = 1\<rparr> (ex_talk ''a'' ''b'' 3) = (Inr (), snd ex_reset)"
    by (auto simp: ex_reset_def [symmetric] prod_eq_iff)
  from the_msg_Some [OF msg] have run: "EncryptMessage stub (ex_manager ProtocolV2 ''a'' 3) ''b'' (Some [1]) (snd ex_reset) =
      (Inr (Some msg, [], None), snd ex_restart)"
    unfolding ex_restart_def [symmetric] by (simp add: prod_eq_iff)
  from ResetSession_starts_over [OF _ _ reset run] msg lists show ?thesis
    by (auto simp: recipients_def all_devices_def devs_of_def ms_abs_def)
qed

end
