(* ===== verification/Manager_Meeting.thy ===== *)
theory Manager_Meeting
  imports Manager_Opening
begin

text \<open>
  Two devices that have not met. When the backend can start sessions with the keys it generated, the
  network has the other's device list and an offered bundle, and nothing forbids the other's identity
  key, the first message is sent, read, and leaves the two devices \<open>talking\<close>.
\<close>

section \<open>Starting sessions\<close>

text \<open>
  What the key agreements of the backend must be able to do, besides the laws of \<open>Manager_Handshake\<close>:
  with keys of generated pairs they come to a session, and it encrypts a first message.
\<close>

definition v2_initiates :: "('e, 'dr, 'ls, 'x) backend \<Rightarrow> bool" where
  "v2_initiates B \<longleftrightarrow> (\<forall>ka kb pa pb spub spriv sig opub opriv.
     may (GenerateIdentityKey B ProtocolV2) ka \<and> may (GenerateIdentityKey B ProtocolV2) kb \<and>
     may (IdentityPublicKey B ProtocolV2 ka) pa \<and> may (IdentityPublicKey B ProtocolV2 kb) pb \<and>
     may (x3dh_CreateNewSpk B kb) (spub, spriv, sig) \<and> may (x3dh_CreateNewOpk B) (opub, opriv) \<longrightarrow>
     sure (x3dh_CreateInitialMessage B ka pb spub sig opub) (\<lambda>(key, ad, ek).
       sure (dr_CreateActive B key ad spub) (\<lambda>a. \<forall>km e. \<exists>c r. dr_Encrypt B km (a, e) = (Inr c, r))))"

definition v1_initiates :: "('e, 'dr, 'ls, 'x) backend \<Rightarrow> bool" where
  "v1_initiates B \<longleftrightarrow> (\<forall>ka kb pa pb spub spriv sig opub opriv.
     may (GenerateIdentityKey B ProtocolV1) ka \<and> may (GenerateIdentityKey B ProtocolV1) kb \<and>
     may (IdentityPublicKey B ProtocolV1 ka) pa \<and> may (IdentityPublicKey B ProtocolV1 kb) pb \<and>
     may (ls_CreateNewSpk B kb) (spub, spriv, sig) \<and> may (x3dh_CreateNewOpk B) (opub, opriv) \<longrightarrow>
     sure (ls_CreateInitialMessage B ka pb spub sig opub) (\<lambda>(x, ek).
       sure (ls_NewActiveSession B ka pb x) (\<lambda>a.
         \<forall>km pk spk reg e. \<exists>c r. ls_EncryptPreKeyWhisperMessage B km ek pk spk reg (a, e) = (Inr c, r))))"

definition initiates :: "('e, 'dr, 'ls, 'x) backend \<Rightarrow> Protocol \<Rightarrow> bool" where
  "initiates B p \<longleftrightarrow> (if p = ProtocolV1 then v1_initiates B else p = ProtocolV2 \<and> v2_initiates B)"

lemma NewActiveSession_sure_v2:
  assumes "sure (x3dh_CreateInitialMessage B ka pb spub sig opub) (\<lambda>(key, ad, ek). sure (dr_CreateActive B key ad spub) G)"
  shows "sure (NewActiveSession B ProtocolV2 ka pb spub sig opub i j k) (\<lambda>(s, ek). \<exists>a. s = v2_session a \<and> G a)"
  unfolding NewActiveSession_def
  by (auto simp: v2_session_def intro!: sure_andThen [OF sure_wrapErr [OF assms]] sure_andThen [OF sure_wrapErr])

lemma NewActiveSession_sure_v1:
  assumes "sure (ls_CreateInitialMessage B ka pb spub sig opub) (\<lambda>(x, ek). sure (ls_NewActiveSession B ka pb x) (G ek))"
  shows "sure (NewActiveSession B ProtocolV1 ka pb spub sig opub i j k) (\<lambda>(s, ek). \<exists>a. G ek a \<and>
     s = (v1_session a)\<lparr>s_pending := Some \<lparr>lp_ekPub = ek, lp_preKeyID = j, lp_signedPreKeyID = i, lp_registrationID = k\<rparr>\<rparr>)"
  unfolding NewActiveSession_def
  by (auto simp: v1_session_def intro!: sure_andThen [OF sure_wrapErr [OF assms]] sure_andThen [OF sure_wrapErr])

lemma encrypts_v1:
  assumes "\<And>km e. \<exists>c r. ls_EncryptPreKeyWhisperMessage B km (lp_ekPub q) (lp_preKeyID q) (lp_signedPreKeyID q)
       (lp_registrationID q) (a, e) = (Inr c, r)"
    and "\<And>a. returns (ls_MarshalBinary B a)"
  shows "encrypts B ((v1_session a)\<lparr>s_pending := Some q\<rparr>)"
  unfolding encrypts_def
proof (intro allI)
  fix km e
  from assms(1) obtain c a' e' where "ls_EncryptPreKeyWhisperMessage B km (lp_ekPub q) (lp_preKeyID q) (lp_signedPreKeyID q)
       (lp_registrationID q) (a, e) = (Inr c, (a', e'))" by (metis surj_pair)
  with assms(2) show "\<exists>c s' e'. Encrypt B km ((v1_session a)\<lparr>s_pending := Some q\<rparr>, e) = (Inr c, s', e') \<and> marshals B s'"
    by (simp add: Encrypt_def v1_session_def on_ls_def marshals_def Marshal_def returns_def)
qed

lemma encrypts_v2:
  assumes "\<And>km e. \<exists>c r. dr_Encrypt B km (a, e) = (Inr c, r)" and "\<And>a. returns (dr_MarshalBinary B a)"
  shows "encrypts B (v2_session a)"
  unfolding encrypts_def
proof (intro allI)
  fix km e
  from assms(1) obtain c a' e' where "dr_Encrypt B km (a, e) = (Inr c, (a', e'))" by (metis surj_pair)
  with assms(2) show "\<exists>c s' e'. Encrypt B km (v2_session a, e) = (Inr c, s', e') \<and> marshals B s'"
    by (simp add: Encrypt_def v2_session_def on_dr_def marshals_def Marshal_def returns_def)
qed

lemma starts_encrypts:
  assumes laws: "ratchet_laws B P Q p" and ini: "initiates B p" and R: "m_protocol R = p"
    and off: "offered B R b a" and pk: "b_PreKeys b = pk # pks"
    and gen: "may (GenerateIdentityKey B p) ka" and own: "may (IdentityPublicKey B p ka) own"
  shows "sure (NewActiveSession B p ka (b_IdentityKey b) (spk_Public (b_SignedPreKey b)) (spk_Signature (b_SignedPreKey b))
     (pk_Public pk) i j k) (\<lambda>(s, ek). encrypts B s)"
proof -
  from off pk R obtain r :: SignedPreKeyRecord and rec :: PreKeyRecord where id: "may (IdentityPublicKey B p (m_identityKey R)) (b_IdentityKey b)"
    and peer: "may (GenerateIdentityKey B p) (m_identityKey R)"
    and r: "may (GenerateSignedPreKey B p (m_identityKey R)) (spk_Public (b_SignedPreKey b), spr_Private r, spk_Signature (b_SignedPreKey b))"
    and rec: "may (x3dh_CreateNewOpk B) (pk_Public pk, pkr_Private rec)"
    unfolding offered_def by (auto simp: GenerateOneTimePreKey_def)
  show ?thesis
  proof (cases "p = ProtocolV1")
    case True
    from ini True id peer r rec gen own have "sure (ls_CreateInitialMessage B ka (b_IdentityKey b) (spk_Public (b_SignedPreKey b))
        (spk_Signature (b_SignedPreKey b)) (pk_Public pk)) (\<lambda>(x, ek). sure (ls_NewActiveSession B ka (b_IdentityKey b) x) (\<lambda>a.
         \<forall>km pk spk reg e. \<exists>c r. ls_EncryptPreKeyWhisperMessage B km ek pk spk reg (a, e) = (Inr c, r)))"
      unfolding initiates_def v1_initiates_def GenerateSignedPreKey_def by simp blast
    from NewActiveSession_sure_v1 [OF this] show ?thesis
      unfolding True
    proof (rule sure_mono, clarify)
      fix a ek assume "\<forall>km pk spk reg e. \<exists>c r. ls_EncryptPreKeyWhisperMessage B km ek pk spk reg (a, e) = (Inr c, r)"
      with laws True show "encrypts B ((v1_session a)\<lparr>s_pending := Some \<lparr>lp_ekPub = ek, lp_preKeyID = j, lp_signedPreKeyID = i, lp_registrationID = k\<rparr>\<rparr>)"
        by (intro encrypts_v1) (auto simp: ratchet_laws_def v1_ratchet_def)
    qed
  next
    case False
    with ini have p: "p = ProtocolV2" "v2_initiates B" by (auto simp: initiates_def)
    with id peer r rec gen own have "sure (x3dh_CreateInitialMessage B ka (b_IdentityKey b) (spk_Public (b_SignedPreKey b))
        (spk_Signature (b_SignedPreKey b)) (pk_Public pk)) (\<lambda>(key, ad, ek). sure (dr_CreateActive B key ad (spk_Public (b_SignedPreKey b)))
        (\<lambda>a. \<forall>km e. \<exists>c r. dr_Encrypt B km (a, e) = (Inr c, r)))"
      unfolding v2_initiates_def GenerateSignedPreKey_def by simp blast
    from NewActiveSession_sure_v2 [OF this] show ?thesis
      unfolding p(1)
    proof (rule sure_mono, clarify)
      fix a assume "\<forall>km e. \<exists>c r. dr_Encrypt B km (a, e) = (Inr c, r)"
      with laws p(1) show "encrypts B (v2_session a)"
        by (intro encrypts_v2) (auto simp: ratchet_laws_def v2_ratchet_def)
    qed
  qed
qed

section \<open>The first message is sent\<close>

text \<open>No identity key is refused for \<open>dev\<close>; and there is no session with it yet.\<close>

definition accepts :: "('s, 'e) Manager \<Rightarrow> Device \<Rightarrow> astore \<Rightarrow> bool" where
  "accepts M dev a \<longleftrightarrow> (\<forall>k. takes M dev k a)"

definition open_to :: "('s, 'e) Manager \<Rightarrow> Device \<Rightarrow> astore \<Rightarrow> bool" where
  "open_to M dev a \<longleftrightarrow> a_sessions a dev = None \<and> accepts M dev a"

lemma open_to_kept: "d \<noteq> dev \<Longrightarrow> open_to M dev a \<Longrightarrow> enc_ok d a b \<Longrightarrow> open_to M dev b"
  by (auto simp: open_to_def accepts_def enc_ok_def intro: enc_frame_takes) (auto simp: enc_frame_def)

lemma open_to_lists: "lists_frame J a b \<Longrightarrow> open_to M dev a \<Longrightarrow> open_to M dev b"
  using lists_frame_rest [of J a b] by (simp add: open_to_def accepts_def takes_def)

text \<open>The network of the environments in \<open>I\<close> has an offered bundle of \<open>R\<close>'s device with a one-time prekey.\<close>

definition bundled ::
  "('e \<Rightarrow> bool) \<Rightarrow> ('e, 'dr, 'ls, 'x) backend \<Rightarrow> ('s, 'e) Manager \<Rightarrow> ('s, 'e) Manager \<Rightarrow> astore \<Rightarrow> bool" where
  "bundled I B A R a \<longleftrightarrow> (\<forall>e. I e \<longrightarrow> (\<exists>b e'. FetchBundle (m_transport A) (m_localDevice R) e = (Inr b, e') \<and>
     b_PreKeys b \<noteq> [] \<and> offered B R b a))"

context reliable_store
begin

lemma encryptForDevice_new:
  assumes M: "m_store M = S" "m_protocol M = p" and R: "m_protocol R = p" and i: "invar (w_store w)" and I: "I (w_env w)"
    and laws: "ratchet_laws B P Q p" "initiates B p"
    and gen: "may (GenerateIdentityKey B p) (m_identityKey M)" and own: "returns (IdentityPublicKey B p (m_identityKey M))"
    and net: "bundled I B M R a" and opn: "open_to M (m_localDevice R) (alpha (w_store w))"
  shows "wp (encryptForDevice B M (m_localDevice R) km) (\<lambda>key _. rk_Device key = dev_ID (m_localDevice R)) (\<lambda>e _. is_fatal e) w"
proof -
  let ?dev = "m_localDevice R"
  from own obtain o1 where "may (IdentityPublicKey B p (m_identityKey M)) o1" unfolding returns_def may_def by blast
  note starts = starts_encrypts [OF laws R _ _ gen this]
  from net I obtain b e' where b: "FetchBundle (m_transport M) ?dev (w_env w) = (Inr b, e')" "b_PreKeys b \<noteq> []" "offered B R b a"
    by (auto simp: bundled_def)
  then obtain pk pks where pk: "b_PreKeys b = pk # pks" by (cases "b_PreKeys b") auto
  have fetch: "wp (liftE (FetchBundle (m_transport M) ?dev)) G E v" if "w_env v = w_env w" "G b (v\<lparr>w_env := e'\<rparr>)"
    for G E and v :: "('a, 'b) world"
    using that b(1) by (simp add: wp_def liftE_def zoom_def)
  have new: "wp (liftE (NewActiveSession B p (m_identityKey M) (b_IdentityKey b) (spk_Public (b_SignedPreKey b))
     (spk_Signature (b_SignedPreKey b)) (pk_Public pk) j k l)) G E v"
    if "\<And>s ek e. encrypts B s \<Longrightarrow> G (s, ek) (v\<lparr>w_env := e\<rparr>)" for j k l G E and v :: "('a, 'b) world"
    by (rule wp_liftE_sure [OF starts [OF b(3) pk]]) (use that in auto)
  have pub: "wp (liftE (IdentityPublicKey B p (m_identityKey M))) G E v" if "\<And>x e. G x (v\<lparr>w_env := e\<rparr>)"
    for G E and v :: "('a, 'b) world"
    using own that unfolding wp_liftE returns_def by (intro wp_total) blast
  have "wp (getOrCreateActiveSession B M ?dev) (\<lambda>(sess, kx) v. invar (w_store v) \<and> encrypts B sess \<and> True \<and>
       (\<exists>k. a_remoteID (alpha (w_store v)) ?dev = Some k \<and> takes M ?dev k (alpha (w_store v)))) (\<lambda>_ _. False) (locked ?dev w)"
    using opn unfolding getOrCreateActiveSession_def open_to_def accepts_def
    by (auto simp: wp_simps M i pk takes_def intro!: wp_store_total [OF Session_spec Session_total] fetch new pub
        wp_store_total [OF PutRemoteIdentityKey_spec PutRemoteIdentityKey_total])
  from encryptForDevice_turn_wp [where K = "\<lambda>_. True", OF M(1) this] show ?thesis by simp
qed

text \<open>
  The first message is sent and carries a key for the device. The bundle need only have been on offer once,
  in the store \<open>a\<close>: the sender cannot know.
\<close>

lemma first_sent:
  assumes A: "m_store A = S" "m_protocol A = p" and R: "m_protocol R = p"
    and laws: "ratchet_laws B P Q p" "initiates B p" "ratchet_sends B P Q p"
    and calm: "calm_backend B" "calm_manager A" and env: "env_kept I B A"
    and q: "quiet invar {} w" and I: "I (w_env w)"
    and fnd: "findable I A (m_localDevice R) (alpha (w_store w))" and opn: "open_to A (m_localDevice R) (alpha (w_store w))"
    and net: "bundled I B A R a" and gen: "may (GenerateIdentityKey B p) (m_identityKey A)"
    and own: "returns (IdentityPublicKey B p (m_identityKey A))"
  shows "\<exists>msg errs err w'. EncryptMessage B A (dev_JID (m_localDevice R)) pt w = (Inr (Some msg, errs, err), w') \<and>
     quiet invar {} w' \<and> I (w_env w') \<and> m_localDevice R \<notin> de_Device ` set errs \<and>
     delivers B A I (m_localDevice R) pt None msg (a_sessions (alpha (w_store w')) (m_localDevice R)) \<and>
     (\<forall>x. a_sessions (alpha (w_store w')) (m_localDevice R) = Some x \<longrightarrow> contact A (m_localDevice R) x (alpha (w_store w')))"
proof -
  let ?dA = "m_localDevice A" and ?dR = "m_localDevice R"
  have payload: "returns (EncryptPayload B (m_protocol A) pt)" using laws(3) A(2) by (simp add: ratchet_sends_def)
  have turn: "wp (encryptForDevice B A ?dR km) (\<lambda>key _. rk_Device key = dev_ID ?dR) (\<lambda>e _. is_fatal e) w"
    if "invar (w_store w)" "I (w_env w)" "open_to A ?dR (alpha (w_store w))" for km w
    by (rule encryptForDevice_new [OF A R that(1,2) laws(1,2) gen own net that(3)])
  have "\<exists>msg errs err w'. EncryptMessage B A (dev_JID ?dR) pt w = (Inr (Some msg, errs, err), w') \<and>
     quiet invar {} w' \<and> I (w_env w') \<and> ?dR \<notin> de_Device ` set errs \<and>
     send_frame {dev_JID ?dR, dev_JID ?dA} (alpha (w_store w)) (alpha (w_store w')) \<and>
     delivers B A I ?dR pt (a_sessions (alpha (w_store w)) ?dR) msg (a_sessions (alpha (w_store w')) ?dR) \<and>
     (\<forall>x. a_sessions (alpha (w_store w')) ?dR = Some x \<longrightarrow> contact A ?dR x (alpha (w_store w')))"
    by (rule EncryptMessage_served [where P = "open_to A ?dR", OF A(1) calm env q I fnd opn _ _ turn payload])
      (auto intro: open_to_kept open_to_lists)
  with opn show ?thesis by (auto simp: open_to_def)
qed

text \<open>It is read when the bundle is still on offer.\<close>

lemma meeting:
  assumes A: "m_store A = S" "m_protocol A = p" and R: "m_store R = S" "m_protocol R = p"
    and laws: "ratchet_laws B P Q p" "payload_laws B" "handshake_laws B P Q p"
    and sends: "initiates B p" "ratchet_sends B P Q p"
    and calm: "calm_backend B" "calm_manager A" and env: "env_kept I B A" "backend_keeps I B"
    and q: "quiet invar {} wA" "quiet invar {} wR" and I: "I (w_env wA)"
    and fnd: "findable I A (m_localDevice R) (alpha (w_store wA))" "findable I R (m_localDevice A) (alpha (w_store wR))"
    and opn: "open_to A (m_localDevice R) (alpha (w_store wA))" "accepts R (m_localDevice A) (alpha (w_store wR))"
    and net: "bundled I B A R (alpha (w_store wR))" and gen: "may (GenerateIdentityKey B p) (m_identityKey A)"
    and own: "returns (IdentityPublicKey B p (m_identityKey A))"
  shows "\<exists>r wA' wR'. transmit B A R pt (wA, wR) = (Inr r, wA', wR') \<and> slice_string r = slice_string pt \<and>
     talking invar alpha I B p (paired P Q p) A R wA' wR'"
proof -
  let ?dA = "m_localDevice A" and ?dR = "m_localDevice R"
  from first_sent [OF A R(2) laws(1) sends calm env(1) q(1) I fnd(1) opn(1) net gen own] obtain msg errs err wA' where
    sent: "EncryptMessage B A (dev_JID ?dR) pt wA = (Inr (Some msg, errs, err), wA')" "quiet invar {} wA'" "I (w_env wA')"
      "delivers B A I ?dR pt None msg (a_sessions (alpha (w_store wA')) ?dR)"
      "\<forall>x. a_sessions (alpha (w_store wA')) ?dR = Some x \<longrightarrow> contact A ?dR x (alpha (w_store wA'))" by blast
  let ?wR = "wR\<lparr>w_env := w_env wA'\<rparr>"
  from q(2) have qR: "quiet invar {} ?wR" and iR: "invar (w_store ?wR)" and free: "lock_free ?dA ?wR"
    by (simp_all add: quiet_def lock_free_def)
  have offers: "\<forall>e b e'. I e \<and> FetchBundle (m_transport A) ?dR e = (Inr b, e') \<longrightarrow> offered B R b (alpha (w_store ?wR))"
    using net by (auto simp: bundled_def)
  from message_first [OF R A(2) gen laws sent(4) iR free] offers obtain r wR' x y where
    read: "DecryptMessage B R msg ?wR = (Inr r, wR')" "slice_string r = slice_string pt"
      "a_sessions (alpha (w_store wA')) ?dR = Some x" "a_sessions (alpha (w_store wR')) ?dA = Some y"
      "in_step B p (paired P Q p) x y" by blast
  note after = receiver_after [OF R(1) calm(1) qR sent(4) read(1)]
  have "I (w_env ?wR)" using sent(3) by simp
  from wp_run_Inr [OF env_wp [where I = I, OF DecryptMessage_env [OF env(2)] this] read(1)] have IR: "I (w_env wR')" .
  have "acquainted I A ?dR x (alpha (w_store wA'))" using sent(5) read(3) by (blast intro: contact_acquainted)
  moreover have "acquainted I R ?dA y (alpha (w_store wR'))"
    using after(2,3) opn(2) read(4) findable_other [of "alpha (w_store wR')" "alpha (w_store wR)" I R ?dA] after(4) fnd(2)
    by (auto simp: acquainted_def takes_with_def accepts_def takes_def)
  ultimately have "talking invar alpha I B p (paired P Q p) A R (wA'\<lparr>w_env := w_env wR'\<rparr>) wR'"
    unfolding talking_def using sent(2) after(1) IR read(5) by auto
  with sent(1) read(1,2) show ?thesis unfolding transmit_def by simp
qed

end

end
