(* ===== verification/Omemo_Setup.thy ===== *)
theory Omemo_Setup
  imports Omemo_Fake
begin

text \<open>
  \<open>setup\<close> of \<open>manager_test.go\<close>: a new store is initialised, a manager is made over it that shares the
  network and trusts every key, and its bundle and device list are published. Where the test is
  ended with \<open>Fatalf\<close> the error is returned. The manager's store and mutexes are its own, the network
  is threaded: a second account is set up in the environment the first one left.
\<close>

definition setup_Manager ::
  "('a fakeNetwork_scheme, 'dr, 'ls, 'x) backend \<Rightarrow> string \<Rightarrow> DeviceID \<Rightarrow> Protocol \<Rightarrow> nat list \<Rightarrow> 'a fakeNetwork_scheme \<Rightarrow>
     (goerror + (MemStore, 'a fakeNetwork_scheme) Manager) \<times> (MemStore, 'a fakeNetwork_scheme) world" where
  "setup_Manager B jid deviceID p rand net =
     andThen (InitIdentity B MemStore_Store jid deviceID p) (\<lambda>_.
     andThen (NewManager MemStore_Store fakeTransport p [WithTrustResolver (Some (\<lambda>_ _. ret ()))]) (\<lambda>mgr.
     andThen (Manager_PublishBundle B mgr) (\<lambda>_.
     andThen (liftE (PublishDeviceList fakeTransport \<lparr>dl_JID = jid, dl_Devices = [deviceID]\<rparr>)) (\<lambda>_.
     ret mgr))))
     \<lparr>w_store = ms_New rand, w_env = net, w_locks = Map.empty, w_nextLock = 0, w_held = {}\<rparr>"

end
