(* ===== verification/Manager_Setup.thy ===== *)
theory Manager_Setup
  imports Manager_Meeting Omemo_Setup Properties_PreKeys
begin

text \<open>
  What \<open>setup\<close> leaves behind, and that two accounts set up in one network are the strangers of
  \<open>Manager_Meeting\<close>: each finds the other's device list and bundle in the network, has no session with it
  and accepts its identity key. Calls of the backend do not touch the network.
\<close>

section \<open>What an account looks like after setup\<close>

lemma andThen_Inr:
  assumes "andThen m f w = (Inr y, w')"
  obtains x w1 where "m w = (Inr x, w1)" "f x w1 = (Inr y, w')"
  using assms by (auto simp: andThen_run split: prod.splits sum.splits)

lemma IdentityPublicKey_pure:
  "IdentityPublicKey B p k e = (r, e') \<Longrightarrow> e' = e \<and> IdentityPublicKey B p k e2 = (r, e2)"
  by (auto simp: IdentityPublicKey_def act_simps split: if_splits)

lemma returns_run: "returns m \<Longrightarrow> \<exists>x e'. m e = (Inr x, e')"
  by (simp add: returns_def)

definition net_kept :: "('a fakeNetwork_scheme, 'dr, 'ls, 'x) backend \<Rightarrow> bool" where
  "net_kept B \<longleftrightarrow> (\<forall>x y. backend_keeps (\<lambda>e. fn_devices e = x \<and> fn_bundles e = y) B)"

text \<open>The fields of a manager that \<open>setup\<close> makes; they never change.\<close>

definition account ::
  "('a fakeNetwork_scheme, 'dr, 'ls, 'x) backend \<Rightarrow> Device \<Rightarrow> Protocol \<Rightarrow> (MemStore, 'a fakeNetwork_scheme) Manager \<Rightarrow> bool" where
  "account B dev p M \<longleftrightarrow> m_store M = MemStore_Store \<and> m_transport M = fakeTransport \<and> m_protocol M = p \<and>
     m_localDevice M = dev \<and> m_trustResolver M = Some (\<lambda>_ _. ret ()) \<and> returns (IdentityPublicKey B p (m_identityKey M))"

text \<open>Its store holds the keys it was made with.\<close>

definition keyed ::
  "('e, 'dr, 'ls, 'x) backend \<Rightarrow> Protocol \<Rightarrow> (MemStore, 'e) Manager \<Rightarrow> (MemStore, 'e) world \<Rightarrow> bool" where
  "keyed B p M w \<longleftrightarrow> quiet ms_inv {} w \<and> genuine B p (ms_abs (w_store w)) \<and> m_identityKey M = a_identityKey (ms_abs (w_store w))"

lemma keyed_simps [simp]:
  "keyed B p M (w\<lparr>w_env := e\<rparr>) = keyed B p M w" "keyed B p M (w\<lparr>w_locks := l\<rparr>) = keyed B p M w"
  by (simp_all add: keyed_def quiet_def)

lemma keyed_generated: "keyed B p M w \<Longrightarrow> may (GenerateIdentityKey B p) (m_identityKey M)"
  by (simp add: keyed_def genuine_def)

definition fresh_account :: "astore \<Rightarrow> bool" where
  "fresh_account a \<longleftrightarrow> a_sessions a = Map.empty \<and> a_trust a = (\<lambda>_. TrustUndecided) \<and> a_devices a = (\<lambda>_. []) \<and>
     card (dom (a_preKeys a)) = 100 \<and> card (a_issued a) = 100"

text \<open>A bundle that the device offers and that was made after the last rotation.\<close>

definition current_offer :: "('e, 'dr, 'ls, 'x) backend \<Rightarrow> (MemStore, 'e) Manager \<Rightarrow> Bundle \<Rightarrow> astore \<Rightarrow> bool" where
  "current_offer B M b a \<longleftrightarrow> b_PreKeys b \<noteq> [] \<and> offered B M b a \<and> spk_ID (b_SignedPreKey b) = spr_ID (a_currentSPK a)"

lemma fresh_bounds:
  "card (a_issued (ms_abs (ms_New rand))) + 100 < 2 ^ 32" "a_preKeys (ms_abs (ms_New rand)) = Map.empty"
  "a_staleSPK (ms_abs (ms_New rand)) = None" "spr_Public (a_currentSPK (ms_abs (ms_New rand))) = None"
  using fresh_store [of rand] by (simp_all del: ms_abs_simps)

lemma init_account:
  assumes B: "calm_backend B" and st: "w_store w = ms_New rand" "w_held w = {}"
    and init: "InitIdentity B MemStore_Store jid d p w = (Inr (), w1)"
    and mgr: "NewManager MemStore_Store fakeTransport p [WithTrustResolver (Some (\<lambda>_ _. ret ()))] w1 = (Inr M, w2)"
  shows "keyed B p M w2 \<and> fresh_account (ms_abs (w_store w2)) \<and> w_env w2 = w_env w1 \<and>
     m_store M = MemStore_Store \<and> m_transport M = fakeTransport \<and> m_protocol M = p \<and>
     m_localDevice M = \<lparr>dev_JID = jid, dev_ID = d\<rparr> \<and> m_trustResolver M = Some (\<lambda>_ _. ret ())"
proof -
  let ?dev = "\<lparr>dev_JID = jid, dev_ID = d\<rparr>"
  from wp_run_Inr [OF safeD [OF memstore.InitIdentity_safe [OF B, of "{}"]] init]
  have q1: "quiet ms_inv {} w1" by (simp add: quiet_def ms_New_inv st)
  have "wp (InitIdentity B MemStore_Store jid d p) (\<lambda>_ w'. ms_inv (w_store w') \<and> genuine B p (ms_abs (w_store w')) \<and>
     a_localDevice (ms_abs (w_store w')) = ?dev) (\<lambda>_ _. True) w"
    by (rule memstore.InitIdentity_genuine) (simp_all only: st ms_New_inv fresh_bounds)
  from wp_run_Inr [OF this init] have g1: "genuine B p (ms_abs (w_store w1))" by simp
  from InitIdentity_new [OF st(1) init] obtain key spk rs where rs: "length rs = 100" "fresh_recs rs (ms_abs (ms_New rand))"
    and eq: "ms_abs (w_store w1) = add_prekeys rs (init_step key ?dev spk (ms_abs (ms_New rand)))"
    by (auto simp: initialised_def)
  note fields = init_fields [OF eq]
  have "card (pkr_ID ` set rs) = 100" using rs by (metis distinct_card fresh_recs_def length_map list.set_map)
  then have "fresh_account (ms_abs (w_store w1))"
    using fields(5-9) by (simp add: fresh_account_def ms_abs_def)
  moreover from mgr fields(1) have "w2 = w1\<lparr>w_locks := Map.empty\<rparr>" "m_store M = MemStore_Store" "m_transport M = fakeTransport"
      "m_protocol M = p" "m_identityKey M = a_identityKey (ms_abs (w_store w1))" "m_localDevice M = ?dev"
      "m_trustResolver M = Some (\<lambda>_ _. ret ())"
    by (auto simp: NewManager_def ms_run_simps WithTrustResolver_def)
  ultimately show ?thesis using q1 g1 by (simp add: keyed_def quiet_def)
qed

lemma bundle_run:
  assumes M: "account B dev p M" and k: "keyed B p M w"
  shows "\<exists>b w'. Manager_Bundle B M w = (Inr b, w') \<and> keyed B p M w' \<and> ms_abs (w_store w') = ms_abs (w_store w) \<and>
     w_env w' = w_env w \<and> b_Device b = dev \<and>
     (dom (a_preKeys (ms_abs (w_store w))) \<noteq> {} \<longrightarrow> current_offer B M b (ms_abs (w_store w)))"
proof -
  note M = M [unfolded account_def] and k = k [unfolded keyed_def]
  from M obtain pk e where "IdentityPublicKey B p (m_identityKey M) (w_env w) = (Inr pk, e)"
    using returns_run [of "IdentityPublicKey B p (m_identityKey M)" "w_env w"] by blast
  with IdentityPublicKey_pure [OF this] have pk: "IdentityPublicKey B p (m_identityKey M) (w_env w) = (Inr pk, w_env w)" by simp
  with M obtain b w4 where built: "Manager_Bundle B M w = (Inr b, w4)" by (simp add: Bundle_run Let_def)
  from built M pk have b: "b_Device b = dev" "w_held w4 = w_held w" "w_env w4 = w_env w"
      "length (b_PreKeys b) = length (ms_preKeys (w_store w))" "spk_ID (b_SignedPreKey b) = spr_ID (ms_currentSPK (w_store w))"
    by (auto simp: Bundle_run Let_def)
  have "wp (Manager_Bundle B M) (\<lambda>b w'. ms_inv (w_store w') \<and> ms_abs (w_store w') = ms_abs (w_store w) \<and>
     offered B M b (ms_abs (w_store w))) (\<lambda>_ _. True) w"
    by (rule memstore.Bundle_offered) (use M k in \<open>auto simp: quiet_def\<close>)
  from wp_run_Inr [OF this built] have off: "ms_inv (w_store w4)" "ms_abs (w_store w4) = ms_abs (w_store w)"
    "offered B M b (ms_abs (w_store w))" by simp_all
  moreover have "b_PreKeys b \<noteq> []" if "dom (a_preKeys (ms_abs (w_store w))) \<noteq> {}"
    using that b(4) by (auto simp: ms_abs_def)
  ultimately show ?thesis
    using built b k by (intro exI [of _ b] exI [of _ w4]) (auto simp: keyed_def quiet_def current_offer_def)
qed

lemma publish_run:
  assumes M: "account B dev p M" and k: "keyed B p M w"
  shows "\<exists>b w'. Manager_PublishBundle B M w = (Inr (), w') \<and> keyed B p M w' \<and> ms_abs (w_store w') = ms_abs (w_store w) \<and>
     fn_devices (w_env w') = fn_devices (w_env w) \<and> fn_bundles (w_env w') = (fn_bundles (w_env w))(dev \<mapsto> b) \<and>
     (dom (a_preKeys (ms_abs (w_store w))) \<noteq> {} \<longrightarrow> current_offer B M b (ms_abs (w_store w)))"
proof -
  from bundle_run [OF assms] obtain b w4 where b: "Manager_Bundle B M w = (Inr b, w4)" "keyed B p M w4"
    "ms_abs (w_store w4) = ms_abs (w_store w)" "w_env w4 = w_env w" "b_Device b = dev"
    "dom (a_preKeys (ms_abs (w_store w))) \<noteq> {} \<longrightarrow> current_offer B M b (ms_abs (w_store w))" by blast
  let ?w' = "w4\<lparr>w_env := (w_env w)\<lparr>fn_bundles := (fn_bundles (w_env w))(dev \<mapsto> b)\<rparr>\<rparr>"
  have "Manager_PublishBundle B M w = (Inr (), ?w')"
    using M b(1,4,5) by (simp add: account_def Manager_PublishBundle_def andThen_run liftE_def zoom_def fakeTransport_def fake_defs)
  with b(2,3,6) show ?thesis by (intro exI [of _ b] exI [of _ ?w']) (simp del: ms_abs_simps)
qed

definition account_ready ::
  "('a fakeNetwork_scheme, 'dr, 'ls, 'x) backend \<Rightarrow> Device \<Rightarrow> Protocol \<Rightarrow> Bundle \<Rightarrow>
     (MemStore, 'a fakeNetwork_scheme) Manager \<Rightarrow> (MemStore, 'a fakeNetwork_scheme) world \<Rightarrow> bool" where
  "account_ready B dev p b M w \<longleftrightarrow> account B dev p M \<and> keyed B p M w \<and> fresh_account (ms_abs (w_store w)) \<and>
     current_offer B M b (ms_abs (w_store w))"

lemma setup_run:
  assumes B: "calm_backend B" "net_kept B" and run: "setup_Manager B jid d p rand net = (Inr M, w)"
  shows "\<exists>b. account_ready B \<lparr>dev_JID = jid, dev_ID = d\<rparr> p b M w \<and>
     fn_devices (w_env w) = (fn_devices net)(jid \<mapsto> \<lparr>dl_JID = jid, dl_Devices = [d]\<rparr>) \<and>
     fn_bundles (w_env w) = (fn_bundles net)(\<lparr>dev_JID = jid, dev_ID = d\<rparr> \<mapsto> b)"
proof -
  let ?w0 = "\<lparr>w_store = ms_New rand, w_env = net, w_locks = Map.empty, w_nextLock = 0, w_held = {}\<rparr>"
  let ?dev = "\<lparr>dev_JID = jid, dev_ID = d\<rparr>" and ?list = "\<lparr>dl_JID = jid, dl_Devices = [d]\<rparr>"
  let ?same = "\<lambda>e. fn_devices e = fn_devices net \<and> fn_bundles e = fn_bundles net"
  have keeps: "backend_keeps ?same B" using B(2) by (simp add: net_kept_def)
  from run obtain w1 w2 w3 where init: "InitIdentity B MemStore_Store jid d p ?w0 = (Inr (), w1)"
    and mgr: "NewManager MemStore_Store fakeTransport p [WithTrustResolver (Some (\<lambda>_ _. ret ()))] w1 = (Inr M, w2)"
    and pub: "Manager_PublishBundle B M w2 = (Inr (), w3)"
    and list: "liftE (PublishDeviceList fakeTransport ?list) w3 = (Inr (), w)"
    unfolding setup_Manager_def by (auto elim!: andThen_Inr simp: ret_run)
  from init_account [OF B(1) _ _ init mgr] have acc: "keyed B p M w2" "fresh_account (ms_abs (w_store w2))" "w_env w2 = w_env w1"
    and M: "m_store M = MemStore_Store" "m_transport M = fakeTransport" "m_protocol M = p" "m_localDevice M = ?dev"
      "m_trustResolver M = Some (\<lambda>_ _. ret ())" by simp_all
  from wp_run_Inr [OF env_wp [OF InitIdentity_env [OF keeps]] init] acc(3) have net2: "?same (w_env w2)" by simp
  obtain r e where id: "IdentityPublicKey B p (m_identityKey M) (w_env w2) = (r, e)" by (metis surj_pair)
  have "fst (Manager_PublishBundle B M w2) = Inl (wrapped ''derive identity public key'' x)" if "r = Inl x" for x
    using id that by (simp add: Manager_PublishBundle_def andThen_run Bundle_run [OF M(1)] M(3) Let_def)
  with pub id obtain pk where "IdentityPublicKey B p (m_identityKey M) (w_env w2) = (Inr pk, e)" by (cases r) simp_all
  from IdentityPublicKey_pure [OF this] have "returns (IdentityPublicKey B p (m_identityKey M))"
    unfolding returns_def by blast
  with M have account: "account B ?dev p M" by (simp add: account_def)
  from publish_run [OF this acc(1)] pub obtain b where
    p3: "keyed B p M w3" "ms_abs (w_store w3) = ms_abs (w_store w2)" "fn_devices (w_env w3) = fn_devices (w_env w2)"
      "fn_bundles (w_env w3) = (fn_bundles (w_env w2))(?dev \<mapsto> b)"
    and off: "dom (a_preKeys (ms_abs (w_store w2))) \<noteq> {} \<longrightarrow> current_offer B M b (ms_abs (w_store w2))" by auto
  have "dom (a_preKeys (ms_abs (w_store w2))) \<noteq> {}" using acc(2) by (auto simp: fresh_account_def)
  with off p3(2) have "current_offer B M b (ms_abs (w_store w3))" by simp
  moreover from list have "w = w3\<lparr>w_env := (w_env w3)\<lparr>fn_devices := (fn_devices (w_env w3))(jid \<mapsto> ?list)\<rparr>\<rparr>"
    by (simp add: liftE_def zoom_def fakeTransport_def fake_defs)
  ultimately show ?thesis
    using net2 p3 acc(2) account by (intro exI [of _ b]) (simp add: account_ready_def)
qed

section \<open>Two accounts in one network\<close>

definition same_net :: "'a fakeNetwork_scheme \<Rightarrow> 'a fakeNetwork_scheme \<Rightarrow> bool" where
  "same_net net e \<longleftrightarrow> fn_devices e = fn_devices net \<and> fn_bundles e = fn_bundles net"

lemma account_manager:
  assumes "account B dev p M" and "net_kept B"
  shows "calm_manager M" and "env_kept (same_net net) B M"
proof -
  note M = assms(1) [unfolded account_def]
  show "calm_manager M"
    using M by (auto simp: calm_manager_def calm_run fakeTransport_def fake_defs ret_run split: option.splits)
  show "env_kept (same_net net) B M"
  proof (rule env_keptI)
    show "backend_keeps (same_net net) B"
      using assms(2) unfolding net_kept_def same_net_def by blast
  qed (use M in \<open>auto simp: stable_def inv_rel_def fakeTransport_def fake_defs ret_run split: option.split\<close>)
qed

text \<open>
  Each account has one device, which the network lists; the lists in the store of \<open>M\<close> are the network's
  or were not fetched yet.
\<close>

definition net_lists :: "'a fakeNetwork_scheme \<Rightarrow> Device \<Rightarrow> bool" where
  "net_lists net d \<longleftrightarrow> fn_devices net (dev_JID d) = Some \<lparr>dl_JID = dev_JID d, dl_Devices = [dev_ID d]\<rparr>"

definition lists_ok :: "('s, 'e) Manager \<Rightarrow> Device \<Rightarrow> astore \<Rightarrow> bool" where
  "lists_ok M peer a \<longleftrightarrow> (\<forall>d \<in> {peer, m_localDevice M}. a_devices a (dev_JID d) \<in> {[], [dev_ID d]})"

definition ids_of :: "Device \<Rightarrow> Device \<Rightarrow> string \<Rightarrow> DeviceID list" where
  "ids_of d d' j = (if j = dev_JID d then [dev_ID d] else [dev_ID d'])"

lemma account_listing:
  assumes M: "account B dev p M" and ne: "dev_JID peer \<noteq> dev_JID dev" and net: "net_lists net dev" "net_lists net peer"
    and ok: "lists_ok M peer a" and j: "j \<in> {dev_JID peer, dev_JID (m_localDevice M)}"
  shows "listing (same_net net) M j (ids_of dev peer j) a"
proof -
  note M = M [unfolded account_def]
  have "\<exists>l e'. FetchDeviceList fakeTransport j e = (Inr l, e') \<and> dl_Devices l = ids_of dev peer j" if "same_net net e" for e
    using that net j M ne by (auto simp: same_net_def net_lists_def ids_of_def fakeTransport_def fake_defs)
  moreover have "a_devices a j \<in> {[], ids_of dev peer j}"
    using ok j M ne by (auto simp: lists_ok_def ids_of_def)
  ultimately show ?thesis using M by (auto simp: listing_def ids_of_def)
qed

lemma account_findable:
  assumes M: "account B dev p M" and ne: "dev_JID peer \<noteq> dev_JID dev" and net: "net_lists net dev" "net_lists net peer"
    and ok: "lists_ok M peer a"
  shows "findable (same_net net) M peer a"
  unfolding findable_def
proof (intro exI conjI ballI)
  have rec: "\<lparr>dev_JID = dev_JID d, dev_ID = dev_ID d\<rparr> = d" for d :: Device by simp
  have "peer \<noteq> dev" using ne by auto
  with M ne show "one_peer M peer (ids_of dev peer) a"
    by (simp add: rec account_def one_peer_def recipients_def all_devices_def devs_of_def ids_of_def)
qed (rule account_listing [OF assms])

section \<open>Setup succeeds\<close>

text \<open>
  The random source and the key generators return, for identity keys that were generated; the public
  half of a signed prekey is not nil.
\<close>

definition generates :: "('e, 'dr, 'ls, 'x) backend \<Rightarrow> Protocol \<Rightarrow> bool" where
  "generates B p \<longleftrightarrow> random_source B \<and> (\<forall>n. returns (rand_Read B n)) \<and> returns (x3dh_CreateNewOpk B) \<and>
     (\<forall>k. may (GenerateIdentityKey B p) k \<longrightarrow> returns (GenerateSignedPreKey B p k) \<and>
        (\<forall>pub priv sig. may (GenerateSignedPreKey B p k) (pub, priv, sig) \<longrightarrow> pub \<noteq> None))"

lemma generateLoop_returns:
  assumes "returns (x3dh_CreateNewOpk B)"
  shows "\<exists>recs' s e. generateLoop B MemStore_Store k recs w = (Inr recs', w\<lparr>w_store := s, w_env := e\<rparr>)"
proof (induction k arbitrary: recs w)
  case (Suc k)
  let ?w1 = "w\<lparr>w_store := (w_store w)\<lparr>ms_nextPreKeyID := ms_nextPreKeyID (w_store w) + 1\<rparr>\<rparr>"
  obtain pub priv e where opk: "x3dh_CreateNewOpk B (w_env w) = (Inr (pub, priv), e)"
    using returns_run [OF assms] by fast
  have "generateLoop B MemStore_Store (Suc k) recs w = generateLoop B MemStore_Store k
     (recs @ [\<lparr>pkr_ID = ms_nextPreKeyID (w_store w) + 1, pkr_Public = pub, pkr_Private = priv\<rparr>]) (?w1\<lparr>w_env := e\<rparr>)"
    by (simp add: ms_run_simps liftE_def zoom_def GenerateOneTimePreKey_def opk)
  then show ?case
    using Suc [of "recs @ [\<lparr>pkr_ID = ms_nextPreKeyID (w_store w) + 1, pkr_Public = pub, pkr_Private = priv\<rparr>]" "?w1\<lparr>w_env := e\<rparr>"] by auto
next
  case (0 w)
  have "w = w\<lparr>w_store := w_store w, w_env := w_env w\<rparr>" by simp
  then show ?case unfolding generateLoop.simps ret_run by blast
qed

lemma InitIdentity_returns:
  assumes g: "generates B p"
  shows "\<exists>w'. InitIdentity B MemStore_Store jid d p w = (Inr (), w')"
proof -
  note g = g [unfolded generates_def]
  obtain key e where key: "GenerateIdentityKey B p (w_env w) = (Inr key, e)"
    using g returns_run [of "rand_Read B 32" "w_env w"] by (auto simp: GenerateIdentityKey_def act_simps split: if_splits)
  from key have "may (GenerateIdentityKey B p) key" by (rule mayI)
  with g have "returns (GenerateSignedPreKey B p key)" by blast
  from returns_run [OF this, of e] obtain pub priv sig e' where spk: "GenerateSignedPreKey B p key e = (Inr (pub, priv, sig), e')"
    by (metis surj_pair)
  from g have opk: "returns (x3dh_CreateNewOpk B)" by blast
  have pool: "\<exists>w'. generateOneTimePreKeys B MemStore_Store DefaultPreKeyCount v = (Inr (), w')" for v
  proof -
    obtain recs s e where "generateLoop B MemStore_Store (nat DefaultPreKeyCount) [] v = (Inr recs, v\<lparr>w_store := s, w_env := e\<rparr>)"
      using generateLoop_returns [OF opk] by blast
    then show ?thesis by (simp add: generateOneTimePreKeys_def DefaultPreKeyCount_def ms_run_simps)
  qed
  have "\<exists>v. InitIdentity B MemStore_Store jid d p w = generateOneTimePreKeys B MemStore_Store DefaultPreKeyCount v"
    by (simp add: InitIdentity_def ms_run_simps liftE_def zoom_def key spk) blast
  with pool show ?thesis by metis
qed

lemma setup_returns:
  assumes g: "generates B p"
  shows "\<exists>M w. setup_Manager B jid d p rand net = (Inr M, w)"
proof -
  let ?w0 = "\<lparr>w_store = ms_New rand, w_env = net, w_locks = Map.empty, w_nextLock = 0, w_held = {}\<rparr>"
  obtain w1 where init: "InitIdentity B MemStore_Store jid d p ?w0 = (Inr (), w1)" using InitIdentity_returns [OF g] by blast
  have "w_store ?w0 = ms_New rand" by simp
  from InitIdentity_new [OF this init] obtain key spk rs e e' where key: "GenerateIdentityKey B p e = (Inr key, e')"
    and eq: "ms_abs (w_store w1) = add_prekeys rs (init_step key \<lparr>dev_JID = jid, dev_ID = d\<rparr> spk (ms_abs (ms_New rand)))"
    by (auto simp: initialised_def)
  from g have "random_source B" by (simp add: generates_def)
  from identity_key_roundtrip [OF this key] obtain pub where pub: "\<And>e. IdentityPublicKey B p key e = (Inr pub, e)"
    using IdentityPublicKey_pure by metis
  obtain M w2 where mgr: "NewManager MemStore_Store fakeTransport p [WithTrustResolver (Some (\<lambda>_ _. ret ()))] w1 = (Inr M, w2)"
    "m_store M = MemStore_Store" "m_protocol M = p" "m_identityKey M = key" "m_transport M = fakeTransport"
    using init_fields(2) [OF eq] by (auto simp: NewManager_def ms_run_simps WithTrustResolver_def)
  then show ?thesis
    by (simp add: setup_Manager_def andThen_run init Manager_PublishBundle_def Bundle_run pub Let_def liftE_def zoom_def
        fakeTransport_def fake_defs ret_run split: prod.split)
qed

end
