(* ===== verification/Properties_Published.thy ===== *)
theory Properties_Published
  imports Manager_Setup Properties_Conversation
begin

text \<open>
  How a conversation begins, from a new store on: the bundle a device publishes is one it offers, the
  first message made with it is read, and one trust decision of the receiver later the two devices
  can talk in either direction. Of the backend only the laws of \<open>Backend_Laws\<close> and
  \<open>Manager_Handshake\<close> are assumed.
\<close>

section \<open>Published bundles\<close>

text \<open>
  C10. In every bundle that a manager builds over a store which started new and was initialised with
  \<open>InitIdentity\<close>, the public halves of the identity key, of the signed prekey and of all one-time prekeys
  are those of keys that were generated and whose private halves the store holds under the same
  identifiers. Over all sequences of further calls (which issue fewer than \<open>2^32\<close> identifiers) each
  one-time prekey of the bundle stays as it is or is gone for good, and the bundle stays one the device
  offers while its signed prekey is the one found under its identifier and its first one-time prekey
  is there.
\<close>

theorem bundles_offered:
  assumes "w_store w0 = ms_New rand" and "InitIdentity B MemStore_Store jid d p w0 = (Inr (), w1)"
    and "NewManager MemStore_Store T p (map WithTrustResolver rs) w1 = (Inr R, w2)"
    and "reaches (call_ok ms_abs) B R w2 w3" and "Manager_Bundle B R w3 = (Inr b, w4)"
    and "reaches (call_ok ms_abs) B R w4 w5"
  shows "backed B R b (ms_abs (w_store w4)) \<and>
     (\<forall>pk \<in> set (b_PreKeys b). map_of (ms_preKeys (w_store w5)) (pk_ID pk) = None \<or>
        map_of (ms_preKeys (w_store w5)) (pk_ID pk) = map_of (ms_preKeys (w_store w4)) (pk_ID pk)) \<and>
     (spk_for (ms_abs (w_store w5)) (spk_ID (b_SignedPreKey b)) = spk_for (ms_abs (w_store w4)) (spk_ID (b_SignedPreKey b)) \<and>
        (\<forall>pk pks. b_PreKeys b = pk # pks \<longrightarrow> map_of (ms_preKeys (w_store w5)) (pk_ID pk) \<noteq> None) \<longrightarrow>
      offered B R b (ms_abs (w_store w5)))"
  using published_backed [OF assms] backed_later [of B R b "ms_abs (w_store w4)" "ms_abs (w_store w5)"]
  by simp


text \<open>A device initialised by \<open>InitIdentity\<close>, and a sender whose network has its bundle.\<close>

lemma ex_published:
  "\<exists>w1 R w4 b pk pks. InitIdentity stub MemStore_Store ''b'' 7 ProtocolV2 ex_fresh = (Inr (), w1) \<and>
     NewManager MemStore_Store fakeTransport ProtocolV2 (map WithTrustResolver [Some trust_all]) w1 =
       (Inr R, w1\<lparr>w_locks := Map.empty\<rparr>) \<and> m_localDevice R = \<lparr>dev_JID = ''b'', dev_ID = 7\<rparr> \<and>
     Manager_Bundle stub R (w1\<lparr>w_locks := Map.empty\<rparr>) = (Inr b, w4) \<and> (\<forall>d. lock_free d w4) \<and>
     b_PreKeys b = pk # pks \<and>
     map_of (ms_preKeys (w_store w4)) (pk_ID pk) \<noteq> None"
proof -
  obtain w1 where init: "InitIdentity stub MemStore_Store ''b'' 7 ProtocolV2 ex_fresh = (Inr (), w1)"
    using ex_init_run by blast
  have fresh: "w_store ex_fresh = ms_New [1, 2]" "w_held ex_fresh = {}" by (simp_all add: ex_fresh_def ex_world_def)
  let ?w2 = "w1\<lparr>w_locks := Map.empty\<rparr>" and ?dev = "\<lparr>dev_JID = ''b'', dev_ID = 7\<rparr>"
  have trust: "trust_all = (\<lambda>_ _. ret ())" by (intro ext) (simp add: trust_all_def)
  obtain R where mgr: "NewManager MemStore_Store fakeTransport ProtocolV2 (map WithTrustResolver [Some trust_all]) w1 = (Inr R, ?w2)"
    by (simp add: NewManager_def ms_run_simps)
  from init_account [OF stub_calm fresh init mgr [unfolded trust, simplified]] have R: "keyed stub ProtocolV2 R ?w2"
    "fresh_account (ms_abs (w_store w1))" "m_store R = MemStore_Store" "m_transport R = fakeTransport" "m_protocol R = ProtocolV2"
    "m_localDevice R = ?dev" "m_trustResolver R = Some (\<lambda>_ _. ret ())" by simp_all
  from InitIdentity_new [OF fresh(1) init] obtain key spk rs e e' where key: "GenerateIdentityKey stub ProtocolV2 e = (Inr key, e')"
    and eq: "ms_abs (w_store w1) = add_prekeys rs (init_step key ?dev spk (ms_abs (ms_New [1, 2])))" by (auto simp: initialised_def)
  have "m_identityKey R = key" using R(1) init_fields(2) [OF eq] by (simp add: keyed_def)
  with identity_key_roundtrip [OF stub_random key] have "account stub ?dev ProtocolV2 R"
    using R by (simp add: account_def returns_def) blast
  from bundle_run [OF this R(1)] obtain b w4 where built: "Manager_Bundle stub R ?w2 = (Inr b, w4)" "keyed stub ProtocolV2 R w4"
    "ms_abs (w_store w4) = ms_abs (w_store w1)"
    and off: "dom (a_preKeys (ms_abs (w_store w1))) \<noteq> {} \<longrightarrow> current_offer stub R b (ms_abs (w_store w1))" by auto
  have "dom (a_preKeys (ms_abs (w_store w1))) \<noteq> {}" using R(2) by (auto simp: fresh_account_def)
  with off built(3) have cur: "current_offer stub R b (ms_abs (w_store w4))" by (simp del: ms_abs_simps)
  then obtain pk pks where pks: "b_PreKeys b = pk # pks" by (cases "b_PreKeys b") (auto simp: current_offer_def)
  with cur have "map_of (ms_preKeys (w_store w4)) (pk_ID pk) \<noteq> None" by (auto simp: current_offer_def offered_def)
  moreover have "\<forall>d. lock_free d w4" using built(2) by (simp add: keyed_def quiet_def lock_free_def)
  ultimately show ?thesis using init mgr R(6) built(1) pks by blast
qed



theorem bundles_offered_witness:
  "\<exists>w1 R w4 b. InitIdentity stub MemStore_Store ''b'' 7 ProtocolV2 ex_fresh = (Inr (), w1) \<and>
     NewManager MemStore_Store fakeTransport ProtocolV2 (map WithTrustResolver [Some trust_all]) w1 =
       (Inr R, w1\<lparr>w_locks := Map.empty\<rparr>) \<and>
     Manager_Bundle stub R (w1\<lparr>w_locks := Map.empty\<rparr>) = (Inr b, w4) \<and> b_PreKeys b \<noteq> [] \<and>
     backed stub R b (ms_abs (w_store w4)) \<and> offered stub R b (ms_abs (w_store w4))"
proof -
  obtain w1 R w4 b pk pks where run: "InitIdentity stub MemStore_Store ''b'' 7 ProtocolV2 ex_fresh = (Inr (), w1)"
      "NewManager MemStore_Store fakeTransport ProtocolV2 (map WithTrustResolver [Some trust_all]) w1 =
         (Inr R, w1\<lparr>w_locks := Map.empty\<rparr>)"
      "Manager_Bundle stub R (w1\<lparr>w_locks := Map.empty\<rparr>) = (Inr b, w4)"
    and pks: "b_PreKeys b = pk # pks" "map_of (ms_preKeys (w_store w4)) (pk_ID pk) \<noteq> None"
    using ex_published by blast
  have "w_store ex_fresh = ms_New [1, 2]" by (simp add: ex_fresh_def)
  from bundles_offered [OF this run(1,2) reaches.here run(3) reaches.here] pks run show ?thesis by auto
qed


section \<open>From the first message to a conversation\<close>







end
