(* ===== verification/Manager_Events.thy ===== *)
theory Manager_Events
  imports Manager_Setup
begin

text \<open>
  Two accounts over time: besides sending messages each may reset its session with the other, publish
  its bundle again, rotate its signed prekey and top up its one-time prekeys. \<open>history\<close> runs such events
  on the model; \<open>allowed\<close> and \<open>after\<close> are an abstract account of what must have gone before for a message
  to arrive. The two managers and their worlds are functions of the side, \<open>True\<close> or \<open>False\<close>.
\<close>

section \<open>Events\<close>

datatype event = Says bool slice | Resets bool | Publishes bool | Rotates bool | TopsUp bool nat

definition both :: "'x \<Rightarrow> 'x \<Rightarrow> bool \<Rightarrow> 'x" where
  "both x y = (\<lambda>s. if s then x else y)"

text \<open>One side acts; the other sees the environment it leaves.\<close>

definition acts ::
  "bool \<Rightarrow> (('s, 'e) world, 'x) act \<Rightarrow> (bool \<Rightarrow> ('s, 'e) world) \<Rightarrow> (goerror + 'x) \<times> (bool \<Rightarrow> ('s, 'e) world)" where
  "acts s m W = (case m (W s) of (r, w) \<Rightarrow> (r, W(s := w, (\<not> s) := (W (\<not> s))\<lparr>w_env := w_env w\<rparr>)))"

fun happens ::
  "('e, 'dr, 'ls, 'x) backend \<Rightarrow> (bool \<Rightarrow> ('s, 'e) Manager) \<Rightarrow> event \<Rightarrow> (bool \<Rightarrow> ('s, 'e) world) \<Rightarrow>
     (goerror + slice) \<times> (bool \<Rightarrow> ('s, 'e) world)" where
  "happens B M (Says s pt) W =
     (case transmit B (M s) (M (\<not> s)) pt (W s, W (\<not> s)) of (r, w, v) \<Rightarrow> (r, W(s := w, (\<not> s) := v)))"
| "happens B M (Resets s) W = acts s (andThen (ResetSession (M s) (m_localDevice (M (\<not> s)))) (\<lambda>_. ret None)) W"
| "happens B M (Publishes s) W = acts s (andThen (Manager_PublishBundle B (M s)) (\<lambda>_. ret None)) W"
| "happens B M (Rotates s) W = acts s (andThen (Manager_RotateSignedPreKey B (M s)) (\<lambda>_. ret None)) W"
| "happens B M (TopsUp s n) W = acts s (andThen (GenerateOneTimePreKeys B (M s) (int n)) (\<lambda>_. ret None)) W"

fun history ::
  "('e, 'dr, 'ls, 'x) backend \<Rightarrow> (bool \<Rightarrow> ('s, 'e) Manager) \<Rightarrow> event list \<Rightarrow> (bool \<Rightarrow> ('s, 'e) world) \<Rightarrow>
     (goerror + slice) list" where
  "history B M [] W = []"
| "history B M (ev # evs) W = (case happens B M ev W of (r, W') \<Rightarrow> r # history B M evs W')"

text \<open>What a caller gets from an event that goes well.\<close>

fun said :: "event \<Rightarrow> byte list" where
  "said (Says s pt) = slice_string pt"
| "said _ = []"

section \<open>The abstract account\<close>

text \<open>
  Of each side: whether it has a session with the other, how many one-time prekeys it has at least and
  how many identifiers it has given out at most, and the age of its published bundle in rotations, \<open>None\<close>
  when the bundle is of no use any more: its first one-time prekey is spent or its signed prekey forgotten.
\<close>

record side =
  has_session :: bool
  pool :: nat
  given :: nat
  offer_age :: "nat option"

definition at_setup :: "bool \<Rightarrow> side" where
  "at_setup = (\<lambda>_. \<lparr>has_session = False, pool = 100, given = 100, offer_age = Some 0\<rparr>)"

fun allowed :: "event \<Rightarrow> (bool \<Rightarrow> side) \<Rightarrow> bool" where
  "allowed (Says s pt) st = (if has_session (st s) then has_session (st (\<not> s)) else offer_age (st (\<not> s)) \<noteq> None)"
| "allowed (Publishes s) st = (0 < pool (st s))"
| "allowed (TopsUp s n) st = (given (st s) + n < 2 ^ 32)"
| "allowed _ st = True"

fun after :: "event \<Rightarrow> (bool \<Rightarrow> side) \<Rightarrow> bool \<Rightarrow> side" where
  "after (Says s pt) st = (if has_session (st s) then st else
     st(s := (st s)\<lparr>has_session := True\<rparr>,
        (\<not> s) := (st (\<not> s))\<lparr>has_session := True, pool := pool (st (\<not> s)) - 1, offer_age := None\<rparr>))"
| "after (Resets s) st = st(s := (st s)\<lparr>has_session := False\<rparr>)"
| "after (Publishes s) st = st(s := (st s)\<lparr>offer_age := Some 0\<rparr>)"
| "after (Rotates s) st = st(s := (st s)\<lparr>offer_age := (if offer_age (st s) = Some 0 then Some 1 else None)\<rparr>)"
| "after (TopsUp s n) st = st(s := (st s)\<lparr>pool := pool (st s) + n, given := given (st s) + n\<rparr>)"

fun allowed_all :: "event list \<Rightarrow> (bool \<Rightarrow> side) \<Rightarrow> bool" where
  "allowed_all [] st = True"
| "allowed_all (ev # evs) st = (allowed ev st \<and> allowed_all evs (after ev st))"

lemma talk_allowed:
  "(has_session (st True) \<longleftrightarrow> has_session (st False)) \<Longrightarrow> (\<not> has_session (st True) \<Longrightarrow> \<forall>s. offer_age (st s) \<noteq> None) \<Longrightarrow>
     allowed_all (map (\<lambda>(s, pt). Says s pt) script) st"
proof (induction script arbitrary: st)
  case (Cons m script)
  obtain s pt where m: "m = (s, pt)" by (cases m)
  have "allowed (Says s pt) st" using Cons.prems by (cases s) auto
  moreover have "has_session (after (Says s pt) st True)" "has_session (after (Says s pt) st False)"
    using Cons.prems(1) by (cases s; auto)+
  ultimately show ?case using Cons.IH [of "after (Says s pt) st"] by (simp add: m del: allowed.simps after.simps)
qed simp

section \<open>What the events do to one side\<close>

lemma wp_runs: "wp m Q (\<lambda>_ _. False) w \<Longrightarrow> \<exists>x w'. m w = (Inr x, w') \<and> Q x w'"
  by (auto simp: wp_def split: prod.splits sum.splits)

context reliable_store
begin

lemma ResetSession_runs:
  assumes M: "m_store M = S" and i: "invar (w_store w)" and free: "lock_free dev w"
  shows "\<exists>w'. ResetSession M dev w = (Inr (), w') \<and> invar (w_store w') \<and> w_held w' = w_held w \<and> w_env w' = w_env w \<and>
     alpha (w_store w') = (alpha (w_store w))\<lparr>a_sessions := (a_sessions (alpha (w_store w)))(dev := None)\<rparr>"
proof -
  have "wp (ResetSession M dev) (\<lambda>_ w'. invar (w_store w') \<and> w_env w' = w_env w \<and>
     alpha (w_store w') = (alpha (w_store w))\<lparr>a_sessions := (a_sessions (alpha (w_store w)))(dev := None)\<rparr>) (\<lambda>_ _. False) w"
    using free unfolding ResetSession_def lock_free_def
    by (auto simp: wp_simps M i intro!: wp_store_total [OF DeleteSession_spec DeleteSession_total])
  from wp_runs [OF this] obtain w' where "ResetSession M dev w = (Inr (), w')" "invar (w_store w')" "w_env w' = w_env w"
    "alpha (w_store w') = (alpha (w_store w))\<lparr>a_sessions := (a_sessions (alpha (w_store w)))(dev := None)\<rparr>" by auto
  moreover from this(1) have "w_held w' = w_held w" using stableD [OF ResetSession_held, of w M dev] by (simp add: same_def)
  ultimately show ?thesis by blast
qed

end

lemma RotateSignedPreKey_env: "backend_keeps I B \<Longrightarrow> stable (inv_rel (on_env I)) (Manager_RotateSignedPreKey B M)"
  unfolding Manager_RotateSignedPreKey_def nextSignedPreKeyID_def
  by (intro stable_intros frame_rel_inv env_liftE backend_keepsD | assumption)+

lemma GenerateOneTimePreKeys_env: "backend_keeps I B \<Longrightarrow> stable (inv_rel (on_env I)) (GenerateOneTimePreKeys B M n)"
  unfolding GenerateOneTimePreKeys_def generateOneTimePreKeys_def
  by (intro stable_intros frame_rel_inv env_liftE generateLoop_env)

lemma net_kept_same: "net_kept B \<Longrightarrow> backend_keeps (same_net net) B"
  unfolding net_kept_def same_net_def by blast

lemma same_net_refl [simp]: "same_net net net"
  by (simp add: same_net_def)

lemma reset_run:
  assumes M: "account B dev p M" and k: "keyed B p M w"
  shows "\<exists>w'. ResetSession M peer w = (Inr (), w') \<and> keyed B p M w' \<and> w_env w' = w_env w \<and>
     ms_abs (w_store w') = (ms_abs (w_store w))\<lparr>a_sessions := (a_sessions (ms_abs (w_store w)))(peer := None)\<rparr>"
proof -
  have "m_store M = MemStore_Store" "ms_inv (w_store w)" "lock_free peer w"
    using M k by (simp_all add: account_def keyed_def quiet_def lock_free_def)
  from memstore.ResetSession_runs [OF this] obtain w' where
    "ResetSession M peer w = (Inr (), w')" "ms_inv (w_store w')" "w_held w' = w_held w" "w_env w' = w_env w"
    "ms_abs (w_store w') = (ms_abs (w_store w))\<lparr>a_sessions := (a_sessions (ms_abs (w_store w)))(peer := None)\<rparr>" by blast
  then show ?thesis using k by (simp add: keyed_def quiet_def genuine_def pool_ok_def del: ms_abs_simps)
qed

lemma rotate_run:
  assumes M: "account B dev p M" and k: "keyed B p M w" and g: "returns (GenerateSignedPreKey B p (m_identityKey M))"
    and B: "net_kept B"
  shows "\<exists>w' r. Manager_RotateSignedPreKey B M w = (Inr (), w') \<and> keyed B p M w' \<and> same_net (w_env w) (w_env w') \<and>
     spr_ID r = spr_ID (a_currentSPK (ms_abs (w_store w))) + 1 \<and> ms_abs (w_store w') = rotate_spk r (ms_abs (w_store w))"
proof -
  note M = M [unfolded account_def]
  obtain pub priv sig e where gen: "GenerateSignedPreKey B p (m_identityKey M) (w_env w) = (Inr (pub, priv, sig), e)"
    using returns_run [OF g] by (metis surj_pair)
  let ?r = "\<lparr>spr_ID = spr_ID (ms_currentSPK (w_store w)) + 1, spr_Public = pub, spr_Private = priv, spr_Signature = sig\<rparr>"
  have "\<exists>w'. Manager_RotateSignedPreKey B M w = (Inr (), w') \<and> ms_inv (w_store w') \<and> w_held w' = w_held w \<and>
     ms_abs (w_store w') = rotate_spk ?r (ms_abs (w_store w))"
    using M k gen by (simp add: Manager_RotateSignedPreKey_def nextSignedPreKeyID_def ms_run_simps liftE_def zoom_def
        Let_def keyed_def quiet_def ms_inv_def rotate_spk_def ms_abs_def)
  then obtain w' where run: "Manager_RotateSignedPreKey B M w = (Inr (), w')" "ms_inv (w_store w')" "w_held w' = w_held w"
     "ms_abs (w_store w') = rotate_spk ?r (ms_abs (w_store w))" by blast
  have "genuine B p (ms_abs (w_store (snd (Manager_RotateSignedPreKey B M w))))"
    by (rule memstore.rotate_genuine) (use M k in \<open>simp_all add: keyed_def quiet_def\<close>)
  moreover from wp_run_Inr [OF env_wp [OF RotateSignedPreKey_env [OF net_kept_same [OF B]], OF same_net_refl] run(1)]
  have "same_net (w_env w) (w_env w')" .
  ultimately show ?thesis
    using run k by (intro exI [of _ w'] exI [of _ ?r]) (simp add: keyed_def quiet_def rotate_spk_def)
qed

lemma topup_run:
  assumes M: "account B dev p M" and k: "keyed B p M w" and g: "returns (x3dh_CreateNewOpk B)" and B: "net_kept B"
    and n: "card (a_issued (ms_abs (w_store w))) + n < 2 ^ 32"
  shows "\<exists>w' rs. GenerateOneTimePreKeys B M (int n) w = (Inr (), w') \<and> keyed B p M w' \<and> same_net (w_env w) (w_env w') \<and>
     length rs = n \<and> fresh_recs rs (ms_abs (w_store w)) \<and> ms_abs (w_store w') = add_prekeys rs (ms_abs (w_store w))"
proof -
  note M = M [unfolded account_def] and k = k [unfolded keyed_def quiet_def]
  obtain recs s e where "generateLoop B MemStore_Store n [] w = (Inr recs, w\<lparr>w_store := s, w_env := e\<rparr>)"
    using generateLoop_returns [OF g] by blast
  moreover have "\<not> 5026338869833 < n" using n by simp
  ultimately obtain w' where run: "GenerateOneTimePreKeys B M (int n) w = (Inr (), w')" "w_held w' = w_held w"
    using M
    by (simp add: GenerateOneTimePreKeys_def generateOneTimePreKeys_def ms_run_simps)
  have gen: "generateOneTimePreKeys B MemStore_Store (int n) w = (Inr (), w')" using run(1) M by (simp add: GenerateOneTimePreKeys_def)
  have "ms_inv (w_store w)" "0 \<le> int n" "card (a_issued (ms_abs (w_store w))) + nat (int n) < 2 ^ 32" using k n by simp_all
  note wp = memstore.generateOneTimePreKeys_wp [OF this] and genuine = memstore.generate_genuine [OF this(1,3)]
  from wp_run_Inr [OF wp gen] obtain rs where "int (length rs) = int n" "ms_inv (w_store w')" "fresh_recs rs (ms_abs (w_store w))"
    "ms_abs (w_store w') = add_prekeys rs (ms_abs (w_store w))" by blast
  moreover have "genuine B p (ms_abs (w_store w'))" using genuine [of B p] k gen by simp
  moreover from wp_run_Inr [OF env_wp [OF GenerateOneTimePreKeys_env [OF net_kept_same [OF B]], OF same_net_refl] run(1)]
  have "same_net (w_env w) (w_env w')" .
  ultimately show ?thesis
    using run k by (intro exI [of _ w'] exI [of _ rs]) (simp add: keyed_def quiet_def add_prekeys_def issue_def)
qed

end
