(* ===== verification/Manager_Simulation.thy ===== *)
theory Manager_Simulation
  imports Manager_Events
begin

text \<open>
  The abstract account of \<open>Manager_Events\<close> is true of the model: \<open>pair_ok\<close> relates it to two managers and
  their worlds, holds after \<open>setup\<close>, and every allowed event succeeds and keeps it.
\<close>

section \<open>Published bundles\<close>

text \<open>A bundle published \<open>n\<close> rotations ago that is still good.\<close>

definition good_offer :: "('e, 'dr, 'ls, 'x) backend \<Rightarrow> nat \<Rightarrow> (MemStore, 'e) Manager \<Rightarrow> Bundle \<Rightarrow> astore \<Rightarrow> bool" where
  "good_offer B n M b a \<longleftrightarrow> b_PreKeys b \<noteq> [] \<and> offered B M b a \<and> (n = 0 \<longrightarrow> spk_ID (b_SignedPreKey b) = spr_ID (a_currentSPK a))"

lemma current_good: "current_offer B M b a = good_offer B 0 M b a"
  by (simp add: current_offer_def good_offer_def)

lemma good_offer_keep:
  "good_offer B n M b a \<Longrightarrow> a_preKeys a' = a_preKeys a \<Longrightarrow> a_currentSPK a' = a_currentSPK a \<Longrightarrow> a_staleSPK a' = a_staleSPK a \<Longrightarrow>
     good_offer B n M b a'"
  using offered_later [of B M b a a'] by (simp add: good_offer_def spk_for_def)

lemma good_offer_add:
  assumes "good_offer B n M b a" and "genuine B p a" and "fresh_recs rs a"
  shows "good_offer B n M b (add_prekeys rs a)"
proof -
  from assms have off: "offered B M b a" and pool: "pool_ok a" by (simp_all add: good_offer_def genuine_def)
  have spk: "spk_for (add_prekeys rs a) i = spk_for a i" for i by (simp add: add_prekeys_def issue_def spk_for_def)
  have "offered B M b (add_prekeys rs a)"
    by (rule offered_later [OF off]) (use off pool assms(3) spk in \<open>auto simp: offered_def dest: add_prekeys_old\<close>)
  with assms(1) show ?thesis by (simp add: good_offer_def add_prekeys_def issue_def)
qed

lemma good_offer_rotate:
  assumes off: "good_offer B 0 M b a" and r: "spr_ID r = spr_ID (a_currentSPK a) + 1" and pub: "spr_Public (a_currentSPK a) \<noteq> None"
  shows "good_offer B 1 M b (rotate_spk r a)"
proof -
  from off have o1: "offered B M b a" and id: "spk_ID (b_SignedPreKey b) = spr_ID (a_currentSPK a)" "b_PreKeys b \<noteq> []"
    by (simp_all add: good_offer_def)
  have "offered B M b (rotate_spk r a)"
    by (rule offered_later [OF o1]) (use r id pub in \<open>simp_all add: spk_for_def rotate_spk_def uint32_plus_ne\<close>)
  with id show ?thesis by (simp add: good_offer_def)
qed

section \<open>What the abstract account says of one side\<close>

definition side_ok ::
  "('a fakeNetwork_scheme, 'dr, 'ls, 'x) backend \<Rightarrow> Protocol \<Rightarrow> 'a fakeNetwork_scheme \<Rightarrow> (MemStore, 'a fakeNetwork_scheme) Manager \<Rightarrow>
     Device \<Rightarrow> side \<Rightarrow> (MemStore, 'a fakeNetwork_scheme) world \<Rightarrow> bool" where
  "side_ok B p net M peer st w \<longleftrightarrow> (let a = ms_abs (w_store w) in
     keyed B p M w \<and> accepts M peer a \<and> lists_ok M peer a \<and> (has_session st \<longleftrightarrow> a_sessions a peer \<noteq> None) \<and>
     pool st \<le> card (dom (a_preKeys a)) \<and> card (a_issued a) \<le> given st \<and>
     (\<forall>n. offer_age st = Some n \<longrightarrow> (\<exists>b. fn_bundles net (m_localDevice M) = Some b \<and> good_offer B n M b a)))"

text \<open>A side is kept when its keys are, whatever happens to its contacts.\<close>

lemma side_okI:
  assumes "side_ok B p net M peer st w" and "keyed B p M w'" and "accepts M peer (ms_abs (w_store w'))"
    and "lists_ok M peer (ms_abs (w_store w'))" and "h \<longleftrightarrow> a_sessions (ms_abs (w_store w')) peer \<noteq> None"
    and "a_preKeys (ms_abs (w_store w')) = a_preKeys (ms_abs (w_store w))" and "a_issued (ms_abs (w_store w')) = a_issued (ms_abs (w_store w))"
    and "a_currentSPK (ms_abs (w_store w')) = a_currentSPK (ms_abs (w_store w))"
    and "a_staleSPK (ms_abs (w_store w')) = a_staleSPK (ms_abs (w_store w))"
  shows "side_ok B p net M peer (st\<lparr>has_session := h\<rparr>) w'"
proof -
  from assms(1) have "\<exists>b. fn_bundles net (m_localDevice M) = Some b \<and> good_offer B n M b (ms_abs (w_store w'))"
    if "offer_age st = Some n" for n
    using that good_offer_keep [OF _ assms(6,8,9)] unfolding side_ok_def Let_def by blast
  with assms show ?thesis unfolding side_ok_def Let_def by (simp del: ms_abs_simps)
qed

lemma side_ok_env [simp]: "side_ok B p net M peer st (w\<lparr>w_env := e\<rparr>) = side_ok B p net M peer st w"
  by (simp add: side_ok_def)

lemma side_ok_net: "fn_bundles net' (m_localDevice M) = fn_bundles net (m_localDevice M) \<Longrightarrow>
   side_ok B p net' M peer st w = side_ok B p net M peer st w"
  by (simp add: side_ok_def)

lemma frame_accepts:
  "send_frame J a a' \<Longrightarrow> accepts M peer a \<Longrightarrow> accepts M peer a'" "dec_frame d a a' \<Longrightarrow> accepts M peer a \<Longrightarrow> accepts M peer a'"
  unfolding accepts_def takes_def send_frame_def
  by metis (cases a; cases a'; simp add: dec_frame_def)

lemma frame_keyed:
  "send_frame J (ms_abs (w_store w)) (ms_abs (w_store w')) \<or> dec_frame d (ms_abs (w_store w)) (ms_abs (w_store w')) \<Longrightarrow>
     keyed B p M w \<Longrightarrow> quiet ms_inv {} w' \<Longrightarrow> keyed B p M w'"
proof -
  let ?a = "ms_abs (w_store w)" and ?b = "ms_abs (w_store w')"
  assume "send_frame J ?a ?b \<or> dec_frame d ?a ?b" and k: "keyed B p M w" and q: "quiet ms_inv {} w'"
  then have kept: "keys_kept ?a ?b" by (blast intro: keys_kept_frames)
  from k have "genuine B p ?a" by (simp add: keyed_def)
  from genuine_kept [OF kept this] have "genuine B p ?b" .
  with kept k q show ?thesis by (simp add: keyed_def keys_kept_def del: ms_abs_simps)
qed

lemma send_side:
  assumes "side_ok B p net M peer st w" and f: "send_frame J (ms_abs (w_store w)) (ms_abs (w_store w'))" and "quiet ms_inv {} w'"
    and "lists_ok M peer (ms_abs (w_store w'))" and "a_sessions (ms_abs (w_store w')) peer \<noteq> None"
  shows "side_ok B p net M peer (st\<lparr>has_session := True\<rparr>) w'"
proof -
  have "a_preKeys b = a_preKeys a" "a_issued b = a_issued a" "a_currentSPK b = a_currentSPK a" "a_staleSPK b = a_staleSPK a"
    if "send_frame J a b" for a b
    using that by (cases a; cases b; simp add: send_frame_def)+
  note same = this [OF f]
  from assms(1) have k: "keyed B p M w" "accepts M peer (ms_abs (w_store w))" by (simp_all add: side_ok_def Let_def)
  show ?thesis
    by (rule side_okI [OF assms(1) frame_keyed [OF disjI1 [OF f] k(1) assms(3)] frame_accepts(1) [OF f k(2)] assms(4) _ same])
      (simp add: assms(5) del: ms_abs_simps)
qed

lemma receive_side:
  assumes "side_ok B p net M peer st w" and f: "dec_frame peer (ms_abs (w_store w)) (ms_abs (w_store w'))" and "quiet ms_inv {} w'"
    and "a_sessions (ms_abs (w_store w')) peer \<noteq> None"
  shows "side_ok B p net M peer (st\<lparr>has_session := True, pool := pool st - 1, offer_age := None\<rparr>) w'"
    and "a_preKeys (ms_abs (w_store w')) = a_preKeys (ms_abs (w_store w)) \<Longrightarrow> side_ok B p net M peer (st\<lparr>has_session := True\<rparr>) w'"
proof -
  have same: "a_issued b = a_issued a \<and> a_currentSPK b = a_currentSPK a \<and> a_staleSPK b = a_staleSPK a \<and> a_devices b = a_devices a \<and>
      (a_preKeys b = a_preKeys a \<or> (\<exists>i. a_preKeys b = (a_preKeys a)(i := None)))"
    if "dec_frame d a b" for d a b
    using that by (cases a; cases b; auto simp: dec_frame_def)
  note same = same [OF f]
  from assms(1) have k: "keyed B p M w" "accepts M peer (ms_abs (w_store w))" "lists_ok M peer (ms_abs (w_store w))"
    by (simp_all add: side_ok_def Let_def del: ms_abs_simps)
  from same k(3) have "lists_ok M peer (ms_abs (w_store w'))" by (simp add: lists_ok_def del: ms_abs_simps)
  note keep = frame_keyed [OF disjI2 [OF f] k(1) assms(3)] frame_accepts(2) [OF f k(2)] this
  have "finite (dom (a_preKeys (ms_abs (w_store w))))" by (simp add: finite_dom_map_of)
  with same have "card (dom (a_preKeys (ms_abs (w_store w)))) - 1 \<le> card (dom (a_preKeys (ms_abs (w_store w'))))"
    by (auto simp: card_Diff_singleton_if simp del: ms_abs_simps)
  moreover have "pool st \<le> card (dom (a_preKeys (ms_abs (w_store w))))"
    using assms(1) by (simp add: side_ok_def Let_def del: ms_abs_simps)
  ultimately have "pool st - 1 \<le> card (dom (a_preKeys (ms_abs (w_store w'))))" by linarith
  with assms same keep
  show "side_ok B p net M peer (st\<lparr>has_session := True, pool := pool st - 1, offer_age := None\<rparr>) w'"
    unfolding side_ok_def Let_def by (simp del: ms_abs_simps)
  assume "a_preKeys (ms_abs (w_store w')) = a_preKeys (ms_abs (w_store w))"
  with same show "side_ok B p net M peer (st\<lparr>has_session := True\<rparr>) w'"
    by (intro side_okI [OF assms(1) keep]) (simp_all add: assms(4) del: ms_abs_simps)
qed

section \<open>Both sides\<close>

text \<open>What is assumed of a backend: the laws, and that what should succeed does.\<close>

definition lawful ::
  "('a fakeNetwork_scheme, 'dr, 'ls, 'x) backend \<Rightarrow> ('dr \<Rightarrow> 'dr \<Rightarrow> bool) \<Rightarrow> ('ls \<Rightarrow> 'ls \<Rightarrow> bool) \<Rightarrow> Protocol \<Rightarrow> bool" where
  "lawful B P Q p \<longleftrightarrow> ratchet_laws B P Q p \<and> payload_laws B \<and> handshake_laws B P Q p \<and> initiates B p \<and>
     ratchet_sends B P Q p \<and> generates B p \<and> calm_backend B \<and> net_kept B"

definition duo ::
  "('a fakeNetwork_scheme, 'dr, 'ls, 'x) backend \<Rightarrow> Protocol \<Rightarrow> (bool \<Rightarrow> Device) \<Rightarrow>
     (bool \<Rightarrow> (MemStore, 'a fakeNetwork_scheme) Manager) \<Rightarrow> bool" where
  "duo B p D M \<longleftrightarrow> (\<forall>s. account B (D s) p (M s)) \<and> dev_JID (D True) \<noteq> dev_JID (D False)"

lemma duoD:
  assumes "duo B p D M"
  shows "account B (D s) p (M s)" and "m_store (M s) = MemStore_Store" and "m_protocol (M s) = p" and "m_localDevice (M s) = D s"
    and "m_transport (M s) = fakeTransport" and "dev_JID (D (\<not> s)) \<noteq> dev_JID (D s)"
    and "returns (IdentityPublicKey B p (m_identityKey (M s)))"
  using assms by (cases s; auto simp: duo_def account_def)+

text \<open>Sessions in step on both sides, and the identity keys they belong to recorded.\<close>

definition in_touch ::
  "('a fakeNetwork_scheme, 'dr, 'ls, 'x) backend \<Rightarrow> Protocol \<Rightarrow>
     (('dr, 'ls) signal_Session \<Rightarrow> ('dr, 'ls) signal_Session \<Rightarrow> bool) \<Rightarrow> (bool \<Rightarrow> Device) \<Rightarrow>
     (bool \<Rightarrow> (MemStore, 'a fakeNetwork_scheme) world) \<Rightarrow> bool" where
  "in_touch B p C D W \<longleftrightarrow> (\<forall>s. \<exists>x y. a_sessions (ms_abs (w_store (W s))) (D (\<not> s)) = Some x \<and>
     a_sessions (ms_abs (w_store (W (\<not> s)))) (D s) = Some y \<and> in_step B p C x y \<and>
     a_remoteID (ms_abs (w_store (W s))) (D (\<not> s)) \<noteq> None)"

lemma in_touch_cong:
  assumes "in_touch B p C D W" and "\<And>s. a_sessions (ms_abs (w_store (W' s))) = a_sessions (ms_abs (w_store (W s))) \<and>
     a_remoteID (ms_abs (w_store (W' s))) = a_remoteID (ms_abs (w_store (W s)))"
  shows "in_touch B p C D W'"
  using assms unfolding in_touch_def by (simp del: ms_abs_simps)

definition pair_ok ::
  "('a fakeNetwork_scheme, 'dr, 'ls, 'x) backend \<Rightarrow> Protocol \<Rightarrow>
     (('dr, 'ls) signal_Session \<Rightarrow> ('dr, 'ls) signal_Session \<Rightarrow> bool) \<Rightarrow> (bool \<Rightarrow> Device) \<Rightarrow>
     (bool \<Rightarrow> (MemStore, 'a fakeNetwork_scheme) Manager) \<Rightarrow> (bool \<Rightarrow> side) \<Rightarrow>
     (bool \<Rightarrow> (MemStore, 'a fakeNetwork_scheme) world) \<Rightarrow> bool" where
  "pair_ok B p C D M st W \<longleftrightarrow> (\<exists>net. (\<forall>s. same_net net (w_env (W s)) \<and> net_lists net (D s) \<and>
       side_ok B p net (M s) (D (\<not> s)) (st s) (W s)) \<and>
     (has_session (st True) \<and> has_session (st False) \<longrightarrow> in_touch B p C D W))"

lemma in_touch_talking:
  assumes d: "duo B p D M" and t: "in_touch B p C D W"
    and sides: "\<And>s. same_net net (w_env (W s)) \<and> net_lists net (D s) \<and> side_ok B p net (M s) (D (\<not> s)) (st s) (W s)"
  shows "talking ms_inv ms_abs (same_net net) B p C (M s) (M (\<not> s)) (W s) (W (\<not> s))"
proof -
  have acq: "acquainted (same_net net) (M s) (D (\<not> s)) x (ms_abs (w_store (W s)))"
    if "a_sessions (ms_abs (w_store (W s))) (D (\<not> s)) = Some x" for s x
  proof -
    from t obtain k where "a_remoteID (ms_abs (w_store (W s))) (D (\<not> s)) = Some k" unfolding in_touch_def by fast
    with that sides [of s] account_findable [OF duoD(1,6) [OF d], of net s] sides [of "\<not> s"] show ?thesis
      unfolding acquainted_def side_ok_def Let_def accepts_def takes_with_def by blast
  qed
  from t obtain x y where xy: "a_sessions (ms_abs (w_store (W s))) (D (\<not> s)) = Some x"
    "a_sessions (ms_abs (w_store (W (\<not> s)))) (D s) = Some y" "in_step B p C x y" unfolding in_touch_def by blast
  with acq [OF xy(1)] acq [of "\<not> s" y] sides [of s] sides [of "\<not> s"] show ?thesis
    by (auto simp: talking_def duoD [OF d] side_ok_def Let_def keyed_def simp del: ms_abs_simps)
qed

lemma talking_in_touch:
  assumes d: "duo B p D M" and t: "talking ms_inv ms_abs I B p C (M s) (M (\<not> s)) w v"
  shows "in_touch B p C D (W(s := w, (\<not> s) := v))"
proof -
  from t obtain x y where "a_sessions (ms_abs (w_store w)) (D (\<not> s)) = Some x" "a_sessions (ms_abs (w_store v)) (D s) = Some y"
    "in_step B p C x y" "a_remoteID (ms_abs (w_store w)) (D (\<not> s)) \<noteq> None" "a_remoteID (ms_abs (w_store v)) (D s) \<noteq> None"
    unfolding talking_def acquainted_def takes_with_def duoD(4) [OF d] by auto
  then show ?thesis
    unfolding in_touch_def by (intro allI, rename_tac t) (case_tac "t = s"; auto intro: in_step_sym)
qed

section \<open>Messages\<close>

lemma transmit_sides:
  assumes d: "duo B p D M" and B: "net_kept B"
    and sides: "\<And>s. same_net net (w_env (W s)) \<and> net_lists net (D s) \<and> side_ok B p net (M s) (D (\<not> s)) (st s) (W s)"
    and run: "transmit B (M s) (M (\<not> s)) pt (W s, W (\<not> s)) = (Inr r, w, v)"
    and t: "talking ms_inv ms_abs (same_net net) B p C (M s) (M (\<not> s)) w v"
  shows "side_ok B p net (M s) (D (\<not> s)) ((st s)\<lparr>has_session := True\<rparr>) w"
    and "side_ok B p net (M (\<not> s)) (D s) ((st (\<not> s))\<lparr>has_session := True, pool := pool (st (\<not> s)) - 1, offer_age := None\<rparr>) v"
    and "a_preKeys (ms_abs (w_store v)) = a_preKeys (ms_abs (w_store (W (\<not> s)))) \<Longrightarrow>
       side_ok B p net (M (\<not> s)) (D s) ((st (\<not> s))\<lparr>has_session := True\<rparr>) v"
proof -
  note D = duoD [OF d]
  have ok: "side_ok B p net (M s) (D (\<not> s)) (st s) (W s)" "side_ok B p net (M (\<not> s)) (D s) (st (\<not> s)) (W (\<not> s))"
    using sides [of s] sides [of "\<not> s"] by simp_all
  then have i: "ms_inv (w_store (W s))" "ms_inv (w_store (W (\<not> s)))" and ls: "lists_ok (M s) (D (\<not> s)) (ms_abs (w_store (W s)))"
    by (simp_all add: side_ok_def Let_def keyed_def quiet_def)
  from memstore.transmit_frames [OF D(2) D(2) i run] have
    f: "send_frame {dev_JID (D (\<not> s)), dev_JID (D s)} (ms_abs (w_store (W s))) (ms_abs (w_store w))"
      "dec_frame (D s) (ms_abs (w_store (W (\<not> s)))) (ms_abs (w_store v))" by (simp_all add: D(4))
  have listing: "listing (same_net net) (M s) j (ids_of (D s) (D (\<not> s)) j) (ms_abs (w_store (W s)))"
    if "j \<in> {dev_JID (m_localDevice (M (\<not> s))), dev_JID (m_localDevice (M s))}" for j
    using account_listing [OF D(1) D(6) _ _ ls] that sides [of s] sides [of "\<not> s"] by (simp add: D(4))
  have "env_kept (same_net net) B (M s)" by (rule account_manager(2) [OF D(1) B])
  moreover have "same_net net (w_env (W s))" using sides by blast
  ultimately have "\<forall>j \<in> {dev_JID (D (\<not> s)), dev_JID (D s)}. a_devices (ms_abs (w_store w)) j = ids_of (D s) (D (\<not> s)) j"
    using memstore.transmit_lists [OF D(2) i(1) _ _ listing run] by (simp add: D(4) del: ms_abs_simps)
  then have "lists_ok (M s) (D (\<not> s)) (ms_abs (w_store w))"
    using D(6) [of s] by (simp add: lists_ok_def ids_of_def D(4) del: ms_abs_simps)
  moreover from t obtain x y where "a_sessions (ms_abs (w_store w)) (D (\<not> s)) = Some x"
    "a_sessions (ms_abs (w_store v)) (D s) = Some y" "quiet ms_inv {} w" "quiet ms_inv {} v"
    by (auto simp: talking_def acquainted_def takes_with_def D(4))
  ultimately show "side_ok B p net (M s) (D (\<not> s)) ((st s)\<lparr>has_session := True\<rparr>) w"
    and "side_ok B p net (M (\<not> s)) (D s) ((st (\<not> s))\<lparr>has_session := True, pool := pool (st (\<not> s)) - 1, offer_age := None\<rparr>) v"
    and "a_preKeys (ms_abs (w_store v)) = a_preKeys (ms_abs (w_store (W (\<not> s)))) \<Longrightarrow>
       side_ok B p net (M (\<not> s)) (D s) ((st (\<not> s))\<lparr>has_session := True\<rparr>) v"
    using send_side [OF ok(1) f(1)] receive_side [OF ok(2) f(2)] by (simp_all del: ms_abs_simps)
qed

lemma pair_okI:
  assumes "same_net net (w_env w)" and "same_net net (w_env v)" and "net_lists net (D s)" and "net_lists net (D (\<not> s))"
    and "side_ok B p net (M s) (D (\<not> s)) (st s) w" and "side_ok B p net (M (\<not> s)) (D s) (st (\<not> s)) v"
    and "has_session (st True) \<Longrightarrow> has_session (st False) \<Longrightarrow> in_touch B p C D (W(s := w, (\<not> s) := v))"
  shows "pair_ok B p C D M st (W(s := w, (\<not> s) := v))"
  unfolding pair_ok_def
proof (intro exI conjI allI impI)
  fix t
  show "same_net net (w_env ((W(s := w, (\<not> s) := v)) t))" using assms(1,2) by (cases "t = s") auto
  show "net_lists net (D t)" using assms(3,4) by (cases "t = s") auto
  show "side_ok B p net (M t) (D (\<not> t)) (st t) ((W(s := w, (\<not> s) := v)) t)" using assms(5,6) by (cases "t = s") auto
qed (use assms(7) in blast)

lemma says_in_touch:
  assumes B: "lawful B P Q p" and d: "duo B p D M" and ok: "pair_ok B p (paired P Q p) D M st W"
    and both: "has_session (st s)" "has_session (st (\<not> s))"
  shows "\<exists>r W'. happens B M (Says s pt) W = (Inr r, W') \<and> slice_string r = slice_string pt \<and> pair_ok B p (paired P Q p) D M st W'"
proof -
  note D = duoD [OF d] and B = B [unfolded lawful_def]
  from ok both obtain net where sides: "\<And>s. same_net net (w_env (W s)) \<and> net_lists net (D s) \<and> side_ok B p net (M s) (D (\<not> s)) (st s) (W s)"
    and touch: "in_touch B p (paired P Q p) D W" unfolding pair_ok_def by (cases s) auto
  have env: "net_kept B" "env_kept (same_net net) B (M s)" "backend_keeps (same_net net) B" "calm_manager (M s)"
    using B account_manager [OF D(1)] by (auto intro: net_kept_same)
  have laws: "ratchet_laws B P Q p" "payload_laws B" "ratchet_sends B P Q p" "calm_backend B" using B by simp_all
  from memstore.transmit_step [OF D(2,3) D(2,3) laws env(4,2,3) in_touch_talking [OF d touch sides], of pt]
  obtain r w v where run: "transmit B (M s) (M (\<not> s)) pt (W s, W (\<not> s)) = (Inr r, w, v)" "slice_string r = slice_string pt"
    and t: "talking ms_inv ms_abs (same_net net) B p (paired P Q p) (M s) (M (\<not> s)) w v"
    and put: "session_put (D s) (ms_abs (w_store (W (\<not> s)))) (ms_abs (w_store v))" unfolding D(4) by blast
  from put have "a_preKeys (ms_abs (w_store v)) = a_preKeys (ms_abs (w_store (W (\<not> s))))"
    by (auto simp: session_put_def simp del: ms_abs_simps)
  note after = transmit_sides(1,3) [OF d env(1) sides run(1) t] and touch' = talking_in_touch [OF d t]
  have "pair_ok B p (paired P Q p) D M st (W(s := w, (\<not> s) := v))"
  proof (rule pair_okI)
    show "side_ok B p net (M s) (D (\<not> s)) (st s) w" using after(1) both by (simp add: side_ok_def)
    show "side_ok B p net (M (\<not> s)) (D s) (st (\<not> s)) v" using after(2) \<open>a_preKeys _ = _\<close> both by (simp add: side_ok_def)
  qed (use t touch' sides in \<open>auto simp: talking_def\<close>)
  with run show ?thesis by simp
qed

lemma offer_bundled:
  assumes A: "m_transport A = fakeTransport" and R: "m_localDevice R = dR" and ok: "side_ok B p net R peer st w"
    and off: "offer_age st = Some n"
  shows "bundled (same_net net) B A R (ms_abs (w_store w))"
proof -
  from ok off obtain b where b: "fn_bundles net (m_localDevice R) = Some b" "good_offer B n R b (ms_abs (w_store w))"
    unfolding side_ok_def Let_def by blast
  then have "FetchBundle (m_transport A) (m_localDevice R) e = (Inr b, e)" if "same_net net e" for e
    using that A by (simp add: same_net_def fakeTransport_def fake_defs)
  with b(2) show ?thesis unfolding bundled_def good_offer_def by blast
qed

text \<open>A side without a session writes to the other, whose published bundle may have been used.\<close>

lemma says_sent:
  assumes B: "lawful B P Q p" and d: "duo B p D M"
    and sides: "\<And>s. same_net net (w_env (W s)) \<and> net_lists net (D s) \<and> side_ok B p net (M s) (D (\<not> s)) (st s) (W s)"
    and new: "\<not> has_session (st s)" and b: "bundled (same_net net) B (M s) (M (\<not> s)) a"
  shows "\<exists>msg errs err w. EncryptMessage B (M s) (dev_JID (D (\<not> s))) pt (W s) = (Inr (Some msg, errs, err), w) \<and>
     D (\<not> s) \<notin> de_Device ` set errs \<and>
     delivers B (M s) (same_net net) (D (\<not> s)) pt None msg (a_sessions (ms_abs (w_store w)) (D (\<not> s)))"
proof -
  note D = duoD [OF d] and B = B [unfolded lawful_def]
  from sides [of s] sides [of "\<not> s"] have so: "side_ok B p net (M s) (D (\<not> s)) (st s) (W s)"
    and ls: "net_lists net (D s)" "net_lists net (D (\<not> s))" and net: "same_net net (w_env (W s))" by simp_all
  from so have q: "quiet ms_inv {} (W s)" and acc: "accepts (M s) (D (\<not> s)) (ms_abs (w_store (W s)))"
    and lists: "lists_ok (M s) (D (\<not> s)) (ms_abs (w_store (W s)))" by (simp_all add: side_ok_def Let_def keyed_def)
  from so have gen: "may (GenerateIdentityKey B p) (m_identityKey (M s))" by (auto simp: side_ok_def Let_def intro: keyed_generated)
  have opn: "open_to (M s) (D (\<not> s)) (ms_abs (w_store (W s)))"
    using so new acc by (simp add: open_to_def side_ok_def Let_def)
  have env: "env_kept (same_net net) B (M s)" "calm_manager (M s)" using B account_manager [OF D(1)] by auto
  have laws: "ratchet_laws B P Q p" "initiates B p" "ratchet_sends B P Q p" "calm_backend B" using B by simp_all
  from memstore.first_sent [OF D(2,3) D(3) laws env(2,1) q net _ _ b gen D(7), of pt] account_findable [OF D(1) D(6) ls lists] opn
  show ?thesis unfolding D(4) by blast
qed

lemma says_first:
  assumes B: "lawful B P Q p" and d: "duo B p D M" and ok: "pair_ok B p (paired P Q p) D M st W"
    and new: "\<not> has_session (st s)" and off: "offer_age (st (\<not> s)) = Some n"
  shows "\<exists>r W'. happens B M (Says s pt) W = (Inr r, W') \<and> slice_string r = slice_string pt \<and>
     pair_ok B p (paired P Q p) D M (after (Says s pt) st) W'"
proof -
  note D = duoD [OF d] and B = B [unfolded lawful_def]
  from ok obtain net where sides: "\<And>s. same_net net (w_env (W s)) \<and> net_lists net (D s) \<and> side_ok B p net (M s) (D (\<not> s)) (st s) (W s)"
    unfolding pair_ok_def by blast
  then have so: "side_ok B p net (M s) (D (\<not> s)) (st s) (W s)" "side_ok B p net (M (\<not> s)) (D s) (st (\<not> s)) (W (\<not> s))"
    and ls: "net_lists net (D s)" "net_lists net (D (\<not> s))" and nets: "same_net net (w_env (W s))" "same_net net (w_env (W (\<not> s)))"
    using sides [of s] sides [of "\<not> s"] by simp_all
  from so have q: "quiet ms_inv {} (W s)" "quiet ms_inv {} (W (\<not> s))"
    and acc: "accepts (M s) (D (\<not> s)) (ms_abs (w_store (W s)))" "accepts (M (\<not> s)) (D s) (ms_abs (w_store (W (\<not> s))))"
    and lists: "lists_ok (M s) (D (\<not> s)) (ms_abs (w_store (W s)))" "lists_ok (M (\<not> s)) (D s) (ms_abs (w_store (W (\<not> s))))"
    by (simp_all add: side_ok_def Let_def keyed_def)
  from so(1) have gen: "may (GenerateIdentityKey B p) (m_identityKey (M s))" by (auto simp: side_ok_def Let_def intro: keyed_generated)
  have find: "findable (same_net net) (M s) (D (\<not> s)) (ms_abs (w_store (W s)))"
    "findable (same_net net) (M (\<not> s)) (D s) (ms_abs (w_store (W (\<not> s))))"
    using account_findable [OF D(1) D(6) ls lists(1)] account_findable [OF D(1) _ ls(2,1) lists(2)] D(6) [of s] by simp_all
  have opn: "open_to (M s) (D (\<not> s)) (ms_abs (w_store (W s)))"
    using so(1) new acc(1) by (simp add: open_to_def side_ok_def Let_def)
  have env: "net_kept B" "env_kept (same_net net) B (M s)" "backend_keeps (same_net net) B" "calm_manager (M s)"
    using B account_manager [OF D(1)] by (auto intro: net_kept_same)
  have laws: "ratchet_laws B P Q p" "payload_laws B" "handshake_laws B P Q p" "initiates B p" "ratchet_sends B P Q p" "calm_backend B"
    using B by simp_all
  note bundled = offer_bundled [OF D(5) D(4) so(2) off, of s]
  from memstore.meeting [OF D(2,3) D(2,3) laws env(4,2,3) q nets(1), of "\<not> s" pt] find opn acc(2) bundled gen D(7) [of s]
  obtain r w v where run: "transmit B (M s) (M (\<not> s)) pt (W s, W (\<not> s)) = (Inr r, w, v)" "slice_string r = slice_string pt"
    and t: "talking ms_inv ms_abs (same_net net) B p (paired P Q p) (M s) (M (\<not> s)) w v"
    unfolding D(4) by blast
  note after = transmit_sides(1,2) [OF d env(1) sides run(1) t] and touch' = talking_in_touch [OF d t]
  have "pair_ok B p (paired P Q p) D M (after (Says s pt) st) (W(s := w, (\<not> s) := v))"
    by (rule pair_okI [where s = s]) (use t touch' ls after new in \<open>auto simp: talking_def\<close>)
  with run show ?thesis by simp
qed

section \<open>The other events\<close>

lemma acts_ok:
  assumes d: "duo B p D M" and ok: "pair_ok B p C D M st W"
    and run: "\<And>net. side_ok B p net (M s) (D (\<not> s)) (st s) (W s) \<Longrightarrow> same_net net (w_env (W s)) \<Longrightarrow> \<exists>w net'. m (W s) = (Inr (), w) \<and>
       same_net net' (w_env w) \<and> fn_devices net' = fn_devices net \<and> fn_bundles net' (D (\<not> s)) = fn_bundles net (D (\<not> s)) \<and>
       side_ok B p net' (M s) (D (\<not> s)) st' w \<and> (has_session st' \<longrightarrow> has_session (st s) \<and>
         a_sessions (ms_abs (w_store w)) = a_sessions (ms_abs (w_store (W s))) \<and>
         a_remoteID (ms_abs (w_store w)) = a_remoteID (ms_abs (w_store (W s))))"
  shows "\<exists>W'. acts s (andThen m (\<lambda>_. ret None)) W = (Inr None, W') \<and> pair_ok B p C D M (st(s := st')) W'"
proof -
  from ok obtain net where sides: "\<And>s. same_net net (w_env (W s)) \<and> net_lists net (D s) \<and> side_ok B p net (M s) (D (\<not> s)) (st s) (W s)"
    and touch: "has_session (st True) \<and> has_session (st False) \<Longrightarrow> in_touch B p C D W" unfolding pair_ok_def by blast
  from run [of net] sides obtain w net' where w: "m (W s) = (Inr (), w)" "same_net net' (w_env w)" "fn_devices net' = fn_devices net"
      "fn_bundles net' (D (\<not> s)) = fn_bundles net (D (\<not> s))" "side_ok B p net' (M s) (D (\<not> s)) st' w"
    and kept: "has_session st' \<longrightarrow> has_session (st s) \<and> a_sessions (ms_abs (w_store w)) = a_sessions (ms_abs (w_store (W s))) \<and>
         a_remoteID (ms_abs (w_store w)) = a_remoteID (ms_abs (w_store (W s)))" by blast
  let ?v = "(W (\<not> s))\<lparr>w_env := w_env w\<rparr>"
  have "side_ok B p net (M (\<not> s)) (D s) (st (\<not> s)) ?v" using sides [of "\<not> s"] by simp
  then have other: "side_ok B p net' (M (\<not> s)) (D s) ((st(s := st')) (\<not> s)) ?v"
    using w(4) by (subst side_ok_net [where net = net]) (simp_all add: duoD(4) [OF d])
  have "in_touch B p C D (W(s := w, (\<not> s) := ?v))" if "has_session st'" "has_session (st (\<not> s))"
  proof -
    from that kept have "has_session (st True) \<and> has_session (st False)" by (cases s) auto
    show ?thesis
    proof (rule in_touch_cong [OF touch [OF \<open>has_session (st True) \<and> _\<close>]])
      fix t show "a_sessions (ms_abs (w_store ((W(s := w, (\<not> s) := ?v)) t))) = a_sessions (ms_abs (w_store (W t))) \<and>
          a_remoteID (ms_abs (w_store ((W(s := w, (\<not> s) := ?v)) t))) = a_remoteID (ms_abs (w_store (W t)))"
        using kept that(1) by (cases "t = s") (auto simp del: ms_abs_simps)
    qed
  qed
  then have "pair_ok B p C D M (st(s := st')) (W(s := w, (\<not> s) := ?v))"
    using w other sides by (intro pair_okI [where s = s]) (auto simp: net_lists_def; cases s; auto)+
  with w(1) show ?thesis by (simp add: acts_def act_simps)
qed

lemma same_net_trans: "same_net a b \<Longrightarrow> same_net b c \<Longrightarrow> same_net a c"
  by (simp add: same_net_def)

lemma resets_ok:
  assumes d: "duo B p D M" and ok: "pair_ok B p C D M st W"
  shows "\<exists>W'. happens B M (Resets s) W = (Inr None, W') \<and> pair_ok B p C D M (after (Resets s) st) W'"
  unfolding happens.simps after.simps
proof (rule acts_ok [OF d ok], goal_cases)
  case (1 net)
  from 1(1) have k: "keyed B p (M s) (W s)" by (simp add: side_ok_def Let_def)
  from reset_run [OF duoD(1) [OF d] k] obtain w where w: "ResetSession (M s) (m_localDevice (M (\<not> s))) (W s) = (Inr (), w)" "keyed B p (M s) w"
    "w_env w = w_env (W s)" and abs: "ms_abs (w_store w) = (ms_abs (w_store (W s)))\<lparr>a_sessions := (a_sessions (ms_abs (w_store (W s))))(D (\<not> s) := None)\<rparr>"
    unfolding duoD(4) [OF d] by blast
  have "side_ok B p net (M s) (D (\<not> s)) ((st s)\<lparr>has_session := False\<rparr>) w"
    by (rule side_okI [OF 1(1) w(2)]) (use 1(1) in \<open>simp_all add: abs side_ok_def Let_def accepts_def takes_def lists_ok_def del: ms_abs_simps\<close>)
  with w 1(2) show ?case by (intro exI [of _ w] exI [of _ net]) simp
qed

lemma publishes_ok:
  assumes d: "duo B p D M" and ok: "pair_ok B p C D M st W" and pool: "0 < pool (st s)"
  shows "\<exists>W'. happens B M (Publishes s) W = (Inr None, W') \<and> pair_ok B p C D M (after (Publishes s) st) W'"
  unfolding happens.simps after.simps
proof (rule acts_ok [OF d ok], goal_cases)
  case (1 net)
  let ?a = "ms_abs (w_store (W s))"
  from 1(1) have k: "keyed B p (M s) (W s)" by (simp add: side_ok_def Let_def)
  from publish_run [OF duoD(1) [OF d] k] obtain b w where w: "Manager_PublishBundle B (M s) (W s) = (Inr (), w)" "keyed B p (M s) w"
    and abs: "ms_abs (w_store w) = ?a" and env: "fn_devices (w_env w) = fn_devices (w_env (W s))"
      "fn_bundles (w_env w) = (fn_bundles (w_env (W s)))(D s \<mapsto> b)"
    and off: "dom (a_preKeys ?a) \<noteq> {} \<longrightarrow> current_offer B (M s) b ?a" by blast
  have "0 < card (dom (a_preKeys ?a))" using 1(1) pool unfolding side_ok_def Let_def by linarith
  with off have "good_offer B 0 (M s) b ?a" unfolding current_good by fastforce
  then have "side_ok B p (w_env w) (M s) (D (\<not> s)) ((st s)\<lparr>offer_age := Some 0\<rparr>) w"
    using 1(1) w(2) env(2) by (simp add: side_ok_def Let_def abs duoD(4) [OF d] del: ms_abs_simps)
  moreover have "D (\<not> s) \<noteq> D s" using duoD(6) [OF d, of s] by auto
  moreover have "has_session (st s) \<longrightarrow> a_sessions (ms_abs (w_store w)) = a_sessions ?a \<and> a_remoteID (ms_abs (w_store w)) = a_remoteID ?a"
    by (simp add: abs del: ms_abs_simps)
  ultimately show ?case
    using w(1) env 1(2) by (intro exI [of _ w] exI [of _ "w_env w"]) (simp add: same_net_def del: ms_abs_simps)
qed

lemma keyed_signs:
  "generates B p \<Longrightarrow> keyed B p M w \<Longrightarrow> returns (GenerateSignedPreKey B p (m_identityKey M))"
  using keyed_generated [of B p M w] by (simp add: generates_def)

lemma rotates_ok:
  assumes B: "lawful B P Q p" and d: "duo B p D M" and ok: "pair_ok B p C D M st W"
  shows "\<exists>W'. happens B M (Rotates s) W = (Inr None, W') \<and> pair_ok B p C D M (after (Rotates s) st) W'"
  unfolding happens.simps after.simps
proof (rule acts_ok [OF d ok], goal_cases)
  case (1 net)
  let ?a = "ms_abs (w_store (W s))"
  have gen: "generates B p" "net_kept B" using B by (simp_all add: lawful_def)
  from 1(1) have k: "keyed B p (M s) (W s)" by (simp add: side_ok_def Let_def)
  from rotate_run [OF duoD(1) [OF d] k keyed_signs [OF gen(1) k] gen(2)]
  obtain w and r :: SignedPreKeyRecord where w: "Manager_RotateSignedPreKey B (M s) (W s) = (Inr (), w)" "keyed B p (M s) w"
    "same_net (w_env (W s)) (w_env w)" and r: "spr_ID r = spr_ID (a_currentSPK ?a) + 1" and abs: "ms_abs (w_store w) = rotate_spk r ?a" by blast
  have "spr_Public (a_currentSPK ?a) \<noteq> None"
    using k gen(1) unfolding keyed_def genuine_def made_signed_def generates_def by metis
  from good_offer_rotate [OF _ r this] have "\<exists>b. fn_bundles net (D s) = Some b \<and> good_offer B 1 (M s) b (rotate_spk r ?a)"
    if "offer_age (st s) = Some 0"
    using 1(1) that unfolding side_ok_def Let_def duoD(4) [OF d] by blast
  then have "side_ok B p net (M s) (D (\<not> s)) ((st s)\<lparr>offer_age := (if offer_age (st s) = Some 0 then Some 1 else None)\<rparr>) w"
    using 1(1) w(2) by (simp add: side_ok_def Let_def abs duoD(4) [OF d] rotate_spk_def accepts_def takes_def lists_ok_def del: ms_abs_simps)
  moreover have "a_sessions (ms_abs (w_store w)) = a_sessions ?a" "a_remoteID (ms_abs (w_store w)) = a_remoteID ?a"
    by (simp_all add: abs rotate_spk_def del: ms_abs_simps)
  ultimately show ?case
    using w 1(2) same_net_trans [OF 1(2) w(3)] by (intro exI [of _ w] exI [of _ net]) (simp del: ms_abs_simps)
qed

lemma topsup_ok:
  assumes B: "lawful B P Q p" and d: "duo B p D M" and ok: "pair_ok B p C D M st W" and n: "given (st s) + n < 2 ^ 32"
  shows "\<exists>W'. happens B M (TopsUp s n) W = (Inr None, W') \<and> pair_ok B p C D M (after (TopsUp s n) st) W'"
  unfolding happens.simps after.simps
proof (rule acts_ok [OF d ok], goal_cases)
  case (1 net)
  let ?a = "ms_abs (w_store (W s))"
  have gen: "returns (x3dh_CreateNewOpk B)" "net_kept B" using B by (simp_all add: lawful_def generates_def)
  from 1(1) n have k: "keyed B p (M s) (W s)" "card (a_issued ?a) + n < 2 ^ 32" by (simp_all add: side_ok_def Let_def)
  from topup_run [OF duoD(1) [OF d] k(1) gen k(2)] obtain w rs where
    w: "GenerateOneTimePreKeys B (M s) (int n) (W s) = (Inr (), w)" "keyed B p (M s) w" "same_net (w_env (W s)) (w_env w)"
    and rs: "length rs = n" "fresh_recs rs ?a" and abs: "ms_abs (w_store w) = add_prekeys rs ?a" by blast
  from k(1) have g: "genuine B p ?a" and pool: "pool_ok ?a" by (simp_all add: keyed_def genuine_def del: ms_abs_simps)
  have "finite (dom (a_preKeys ?a))" by (simp add: finite_dom_map_of)
  from card_add_prekeys [OF pool rs(2) this] have "card (dom (a_preKeys (add_prekeys rs ?a))) = card (dom (a_preKeys ?a)) + n" using rs(1) by simp
  moreover have "card (a_issued (add_prekeys rs ?a)) \<le> card (a_issued ?a) + n"
    using card_Un_le [of "a_issued ?a" "pkr_ID ` set rs"] card_image_le [of "set rs" pkr_ID] card_length [of rs] rs(1)
    by (simp add: add_prekeys_def issue_def del: ms_abs_simps)
  moreover have "\<exists>b. fn_bundles net (D s) = Some b \<and> good_offer B k (M s) b (add_prekeys rs ?a)" if "offer_age (st s) = Some k" for k
    using 1(1) that good_offer_add [OF _ g rs(2)] unfolding side_ok_def Let_def duoD(4) [OF d] by blast
  moreover have "accepts (M s) (D (\<not> s)) (add_prekeys rs ?a)" "lists_ok (M s) (D (\<not> s)) (add_prekeys rs ?a)"
    "a_sessions (add_prekeys rs ?a) = a_sessions ?a" "a_remoteID (add_prekeys rs ?a) = a_remoteID ?a"
    using 1(1) by (simp_all add: side_ok_def Let_def add_prekeys_def issue_def accepts_def takes_def lists_ok_def del: ms_abs_simps)
  ultimately show ?case
    using 1 w same_net_trans [OF 1(2) w(3)] unfolding abs
    by (intro exI [of _ w] exI [of _ net]) (simp add: side_ok_def Let_def abs duoD(4) [OF d] del: ms_abs_simps)
qed

section \<open>Histories\<close>

lemma no_message: "\<exists>W'. m = (Inr None, W') \<and> G W' \<Longrightarrow> \<exists>r W'. m = (Inr r, W') \<and> slice_string r = [] \<and> G W'"
  by (auto simp: slice_string_def intro!: exI [of _ None])

lemma event_ok:
  assumes B: "lawful B P Q p" and d: "duo B p D M" and ok: "pair_ok B p (paired P Q p) D M st W" and a: "allowed ev st"
  shows "\<exists>r W'. happens B M ev W = (Inr r, W') \<and> slice_string r = said ev \<and> pair_ok B p (paired P Q p) D M (after ev st) W'"
proof (cases ev)
  case (Says s pt)
  show ?thesis
  proof (cases "has_session (st s)")
    case True
    with a Says says_in_touch [OF B d ok, of s pt] show ?thesis by simp
  next
    case False
    with a Says obtain n where "offer_age (st (\<not> s)) = Some n" by auto
    from says_first [OF B d ok False this, of pt] Says show ?thesis by simp
  qed
next
  case (Resets s)
  from no_message [OF resets_ok [OF d ok]] Resets show ?thesis by simp
next
  case (Publishes s)
  with a no_message [OF publishes_ok [OF d ok]] show ?thesis by simp
next
  case (Rotates s)
  from no_message [OF rotates_ok [OF B d ok]] Rotates show ?thesis by simp
next
  case (TopsUp s n)
  with a no_message [OF topsup_ok [OF B d ok]] show ?thesis by simp
qed

lemma history_ok:
  assumes B: "lawful B P Q p" and d: "duo B p D M"
  shows "pair_ok B p (paired P Q p) D M st W \<Longrightarrow> allowed_all evs st \<Longrightarrow>
     map (map_sum id slice_string) (history B M evs W) = map (Inr \<circ> said) evs"
proof (induction evs arbitrary: st W)
  case (Cons ev evs)
  from event_ok [OF B d Cons.prems(1), of ev] Cons.prems(2) obtain r W' where
    "happens B M ev W = (Inr r, W')" "slice_string r = said ev" "pair_ok B p (paired P Q p) D M (after ev st) W'" by auto
  with Cons.IH [of "after ev st" W'] Cons.prems(2) show ?case by simp
qed simp

section \<open>After setup\<close>

lemma fresh_side:
  assumes r: "account_ready B dev p b M w" and net: "fn_bundles net dev = Some b"
  shows "side_ok B p net M peer \<lparr>has_session = False, pool = 100, given = 100, offer_age = Some 0\<rparr> w"
proof -
  note r = r [unfolded account_ready_def]
  from r have M: "m_trustResolver M = Some (\<lambda>_ _. ret ())" "m_localDevice M = dev" by (simp_all add: account_def)
  from r have "accepts M peer (ms_abs (w_store w)) \<and> lists_ok M peer (ms_abs (w_store w))"
    by (simp add: fresh_account_def accepts_def takes_def lists_ok_def M(1) ret_run del: ms_abs_simps)
  with r net M(2) show ?thesis
    by (simp add: side_ok_def Let_def fresh_account_def current_good del: ms_abs_simps)
qed

lemma setups_pair:
  assumes B: "lawful B P Q p" and ne: "jA \<noteq> jR"
    and A: "setup_Manager B jA dA p randA net = (Inr A, wA)" and R: "setup_Manager B jR dR p randR (w_env wA) = (Inr R, wR)"
  defines "D \<equiv> both \<lparr>dev_JID = jA, dev_ID = dA\<rparr> \<lparr>dev_JID = jR, dev_ID = dR\<rparr>"
  shows "duo B p D (both A R) \<and> pair_ok B p C D (both A R) at_setup (both (wA\<lparr>w_env := w_env wR\<rparr>) wR)"
proof -
  let ?net = "w_env wR"
  have calm: "calm_backend B" "net_kept B" using B by (simp_all add: lawful_def)
  from setup_run [OF calm A] setup_run [OF calm R] ne obtain bA bR where
    acc: "account_ready B \<lparr>dev_JID = jA, dev_ID = dA\<rparr> p bA A wA" "account_ready B \<lparr>dev_JID = jR, dev_ID = dR\<rparr> p bR R wR"
    and net: "fn_devices ?net jA = Some \<lparr>dl_JID = jA, dl_Devices = [dA]\<rparr>" "fn_devices ?net jR = Some \<lparr>dl_JID = jR, dl_Devices = [dR]\<rparr>"
      "fn_bundles ?net \<lparr>dev_JID = jA, dev_ID = dA\<rparr> = Some bA" "fn_bundles ?net \<lparr>dev_JID = jR, dev_ID = dR\<rparr> = Some bR"
    by auto
  have "duo B p D (both A R)" using acc ne by (simp add: duo_def D_def both_def account_ready_def)
  moreover have "\<exists>net. \<forall>s. same_net net (w_env (both (wA\<lparr>w_env := w_env wR\<rparr>) wR s)) \<and> net_lists net (D s) \<and>
     side_ok B p net (both A R s) (D (\<not> s)) (at_setup s) (both (wA\<lparr>w_env := w_env wR\<rparr>) wR s)"
    using net fresh_side [OF acc(1) net(3)] fresh_side [OF acc(2) net(4)]
    by (intro exI [of _ ?net]) (simp add: both_def D_def at_setup_def net_lists_def)
  ultimately show ?thesis by (simp add: pair_ok_def at_setup_def)
qed

end
