(* ===== verification/Manager_Spent.thy ===== *)
theory Manager_Spent
  imports Manager_Simulation Properties_Decrypt
begin

text \<open>
  A published bundle serves one new session: \<open>getOrCreateActiveSession\<close> takes the first one-time prekey of
  the bundle it fetches, and the receiver consumes it. A second key exchange made from the same bundle
  names a prekey that is gone.
\<close>

section \<open>The prekey a first message names\<close>

lemma delivers_prekey:
  assumes "delivers B A I dev pt None msg stored'" and "\<forall>e b' e'. I e \<and> FetchBundle (m_transport A) dev e = (Inr b', e') \<longrightarrow> b' = b"
    and "b_PreKeys b = pk # pks"
  shows "\<exists>key kx. find (\<lambda>k. rk_Device k = dev_ID dev) (em_Keys msg) = Some key \<and> rk_KeyExchange key = Some kx \<and>
     kx_PreKeyID kx = pk_ID pk"
proof -
  from assms(1) obtain key b' pk' pks' ek own e e' where
    key: "find (\<lambda>k. rk_Device k = dev_ID dev) (em_Keys msg) = Some key" and b': "I e" "FetchBundle (m_transport A) dev e = (Inr b', e')"
      "b_PreKeys b' = pk' # pks'" and kx: "rk_KeyExchange key = Some \<lparr>kx_IdentityKey = own, kx_EphemeralKey = ek,
         kx_SignedPreKeyID = spk_ID (b_SignedPreKey b'), kx_PreKeyID = pk_ID pk'\<rparr>"
    unfolding delivers_def turn_done_def opened_def option.case by blast
  from assms(2) b'(1,2) have "b' = b" by blast
  with key kx b'(3) assms(3) show ?thesis by simp
qed

lemma fetched:
  "m_transport A = fakeTransport \<Longrightarrow> fn_bundles net dev = Some b \<Longrightarrow>
     \<forall>e b' e'. same_net net e \<and> FetchBundle (m_transport A) dev e = (Inr b', e') \<longrightarrow> b' = b"
  by (auto simp: same_net_def fakeTransport_def fake_defs)

lemma offered_bundled:
  "m_transport A = fakeTransport \<Longrightarrow> fn_bundles net (m_localDevice R) = Some b \<Longrightarrow> b_PreKeys b \<noteq> [] \<Longrightarrow> offered B R b a \<Longrightarrow>
     bundled (same_net net) B A R a"
  by (auto simp: bundled_def same_net_def fakeTransport_def fake_defs)

text \<open>
  Side \<open>s\<close> makes a message with a key for the other side and no device error for it, and the other side's
  \<open>DecryptMessage\<close> returns an error and leaves its store alone.
\<close>

definition refused ::
  "('e, 'dr, 'ls, 'x) backend \<Rightarrow> (bool \<Rightarrow> ('s, 'e) Manager) \<Rightarrow> bool \<Rightarrow> slice \<Rightarrow> (bool \<Rightarrow> ('s, 'e) world) \<Rightarrow> bool" where
  "refused B M s pt W \<longleftrightarrow> (\<exists>msg errs err w e v.
     EncryptMessage B (M s) (dev_JID (m_localDevice (M (\<not> s)))) pt (W s) = (Inr (Some msg, errs, err), w) \<and>
     m_localDevice (M (\<not> s)) \<notin> de_Device ` set errs \<and>
     DecryptMessage B (M (\<not> s)) msg ((W (\<not> s))\<lparr>w_env := w_env w\<rparr>) = (Inl e, v) \<and> w_store v = w_store (W (\<not> s)))"

section \<open>A second session from the same bundle\<close>

lemma spent_refused:
  assumes B: "lawful B P Q ProtocolV2" and d: "duo B ProtocolV2 D M"
    and sides: "\<And>s. same_net net (w_env (W s)) \<and> net_lists net (D s) \<and> side_ok B ProtocolV2 net (M s) (D (\<not> s)) (st s) (W s)"
    and new: "\<not> has_session (st s)"
    and b: "fn_bundles net (D (\<not> s)) = Some b" "b_PreKeys b = pk # pks" "offered B (M (\<not> s)) b a"
    and spent: "a_preKeys (ms_abs (w_store (W (\<not> s)))) (pk_ID pk) = None"
  shows "refused B M s pt W"
proof -
  note D = duoD [OF d]
  have "bundled (same_net net) B (M s) (M (\<not> s)) a"
    by (rule offered_bundled [OF D(5)]) (use b in \<open>auto simp: D(4)\<close>)
  from says_sent [OF B d sides new this, of pt] obtain msg errs err w where
    sent: "EncryptMessage B (M s) (dev_JID (D (\<not> s))) pt (W s) = (Inr (Some msg, errs, err), w)" "D (\<not> s) \<notin> de_Device ` set errs"
      "delivers B (M s) (same_net net) (D (\<not> s)) pt None msg (a_sessions (ms_abs (w_store w)) (D (\<not> s)))" by blast
  from delivers_prekey [OF sent(3) fetched [OF D(5) b(1)] b(2)] obtain key kx where
    key: "own_key (M (\<not> s)) msg = Some key" "rk_KeyExchange key = Some kx" "kx_PreKeyID kx = pk_ID pk"
    by (auto simp: own_key_def D(4))
  have "map_of (ms_preKeys (w_store ((W (\<not> s))\<lparr>w_env := w_env w\<rparr>))) (kx_PreKeyID kx) = None" using spent key(3) by simp
  from DecryptMessage_unknown_prekey [where B = B, OF D(2) _ key(1,2) this] D(3) [of "\<not> s"] obtain e v where
    "DecryptMessage B (M (\<not> s)) msg ((W (\<not> s))\<lparr>w_env := w_env w\<rparr>) = (Inl e, v)" "w_store v = w_store (W (\<not> s))" by auto
  with sent(1,2) show ?thesis unfolding refused_def D(4) by blast
qed

section \<open>The first session spends the bundle\<close>

context reliable_store
begin

lemma transmit_env:
  assumes "env_kept I B A" and "backend_keeps I B" and "I (w_env wA)" and "transmit B A R pt (wA, wR) = (Inr r, wA', wR')"
  shows "I (w_env wA')"
proof -
  from transmit_calls [OF assms(4)] obtain msg errs err w1 where
    sent: "EncryptMessage B A (dev_JID (m_localDevice R)) pt wA = (Inr (Some msg, errs, err), w1)"
    and read: "DecryptMessage B R msg (wR\<lparr>w_env := w_env w1\<rparr>) = (Inr r, wR')" and w1: "wA' = w1\<lparr>w_env := w_env wR'\<rparr>" by blast
  from wp_run_Inr [OF env_wp [where I = I, OF encrypt_env [OF assms(1)] assms(3)] sent [unfolded EncryptMessage_def]]
  have "I (w_env (wR\<lparr>w_env := w_env w1\<rparr>))" by simp
  from wp_run_Inr [OF env_wp [where I = I, OF DecryptMessage_env [OF assms(2)] this] read] w1 show ?thesis by simp
qed

end

lemma first_spends:
  assumes B: "lawful B P Q ProtocolV2" and d: "duo B ProtocolV2 D M"
    and sides: "\<And>s. same_net net (w_env (W s)) \<and> net_lists net (D s) \<and> side_ok B ProtocolV2 net (M s) (D (\<not> s)) (st s) (W s)"
    and new: "\<not> has_session (st s)"
    and b: "fn_bundles net (D (\<not> s)) = Some b" "b_PreKeys b = pk # pks" "offered B (M (\<not> s)) b (ms_abs (w_store (W (\<not> s))))"
    and run: "happens B M (Says s pt) W = (Inr r, W')"
  shows "same_net net (w_env (W' s)) \<and> a_preKeys (ms_abs (w_store (W' (\<not> s)))) (pk_ID pk) = None"
proof -
  note D = duoD [OF d]
  obtain w v where tr: "transmit B (M s) (M (\<not> s)) pt (W s, W (\<not> s)) = (Inr r, w, v)" and W': "W' = W(s := w, (\<not> s) := v)"
    using run by (auto split: prod.splits)
  have "bundled (same_net net) B (M s) (M (\<not> s)) (ms_abs (w_store (W (\<not> s))))"
    by (rule offered_bundled [OF D(5)]) (use b in \<open>auto simp: D(4) simp del: ms_abs_simps\<close>)
  from says_sent [OF B d sides new this, of pt] obtain msg errs err w1 where
    sent: "EncryptMessage B (M s) (dev_JID (D (\<not> s))) pt (W s) = (Inr (Some msg, errs, err), w1)"
      "delivers B (M s) (same_net net) (D (\<not> s)) pt None msg (a_sessions (ms_abs (w_store w1)) (D (\<not> s)))" by blast
  from delivers_prekey [OF sent(2) fetched [OF D(5) b(1)] b(2)] obtain key kx where
    key: "own_key (M (\<not> s)) msg = Some key" "rk_KeyExchange key = Some kx" "kx_PreKeyID kx = pk_ID pk"
    by (auto simp: own_key_def D(4))
  from memstore.transmit_calls [OF tr] sent(1) have read: "DecryptMessage B (M (\<not> s)) msg ((W (\<not> s))\<lparr>w_env := w_env w1\<rparr>) = (Inr r, v)"
    by (simp add: D(4))
  have "ms_inv (w_store ((W (\<not> s))\<lparr>w_env := w_env w1\<rparr>))" using sides [of "\<not> s"] by (simp add: side_ok_def Let_def keyed_def quiet_def)
  from DecryptMessage_consumes(3) [OF D(2) this _ key(1,2) read] D(3) [of "\<not> s"] key(3)
  have "a_preKeys (ms_abs (w_store v)) (pk_ID pk) = None" by simp
  moreover have "same_net net (w_env w)"
    by (rule memstore.transmit_env [OF account_manager(2) [OF D(1)] net_kept_same _ tr]) (use B sides in \<open>auto simp: lawful_def\<close>)
  ultimately show ?thesis by (simp add: W' del: ms_abs_simps)
qed

text \<open>The worlds after a list of events.\<close>

fun worlds ::
  "('e, 'dr, 'ls, 'x) backend \<Rightarrow> (bool \<Rightarrow> ('s, 'e) Manager) \<Rightarrow> event list \<Rightarrow> (bool \<Rightarrow> ('s, 'e) world) \<Rightarrow> (bool \<Rightarrow> ('s, 'e) world)" where
  "worlds B M [] W = W"
| "worlds B M (ev # evs) W = worlds B M evs (snd (happens B M ev W))"

lemma pair_sides:
  assumes "pair_ok B p C D M st W" and "same_net net (w_env (W s))"
  shows "\<forall>t. same_net net (w_env (W t)) \<and> net_lists net (D t) \<and> side_ok B p net (M t) (D (\<not> t)) (st t) (W t)"
proof -
  from assms(1) obtain net' where n: "same_net net' (w_env (W t)) \<and> net_lists net' (D t) \<and> side_ok B p net' (M t) (D (\<not> t)) (st t) (W t)" for t
    unfolding pair_ok_def by blast
  have "fn_devices net = fn_devices net'" "fn_bundles net = fn_bundles net'"
    using n [of s] assms(2) by (simp_all add: same_net_def)
  with n show ?thesis by (simp add: same_net_def net_lists_def side_ok_def)
qed

lemma reset_stale:
  assumes B: "lawful B P Q ProtocolV2" and d: "duo B ProtocolV2 D M"
    and ok: "pair_ok B ProtocolV2 (paired P Q ProtocolV2) D M at_setup W"
  shows "refused B M s m2 (worlds B M [Says s m1, Resets s] W)"
proof -
  let ?net = "w_env (W s)" and ?st1 = "after (Says s m1) at_setup"
  have sides: "same_net ?net (w_env (W t)) \<and> net_lists ?net (D t) \<and>
      side_ok B ProtocolV2 ?net (M t) (D (\<not> t)) (at_setup t) (W t)" for t
    using pair_sides [OF ok, of ?net s] by simp
  from sides [of "\<not> s"] obtain b where b: "fn_bundles ?net (D (\<not> s)) = Some b" "good_offer B 0 (M (\<not> s)) b (ms_abs (w_store (W (\<not> s))))"
    unfolding side_ok_def Let_def duoD(4) [OF d] by (auto simp: at_setup_def)
  then obtain pk pks where pk: "b_PreKeys b = pk # pks" and off: "offered B (M (\<not> s)) b (ms_abs (w_store (W (\<not> s))))"
    by (cases "b_PreKeys b") (auto simp: good_offer_def)
  have new: "\<not> has_session (at_setup s)" and age: "offer_age (at_setup (\<not> s)) = Some 0" by (simp_all add: at_setup_def)
  from says_first [OF B d ok new age, of m1] obtain r W1 where
    W1: "happens B M (Says s m1) W = (Inr r, W1)" "pair_ok B ProtocolV2 (paired P Q ProtocolV2) D M ?st1 W1" by blast
  from first_spends [OF B d sides new b(1) pk off W1(1)] have
    n1: "same_net ?net (w_env (W1 s))" and spent: "a_preKeys (ms_abs (w_store (W1 (\<not> s)))) (pk_ID pk) = None" by blast+
  from resets_ok [OF d W1(2), of s] obtain W2 where
    W2: "happens B M (Resets s) W1 = (Inr None, W2)" "pair_ok B ProtocolV2 (paired P Q ProtocolV2) D M (after (Resets s) ?st1) W2" by blast
  have "keyed B ProtocolV2 (M s) (W1 s)" using pair_sides [OF W1(2) n1] by (simp add: side_ok_def Let_def)
  from reset_run [OF duoD(1) [OF d] this, of "D (\<not> s)"] W2(1) have
    n2: "same_net ?net (w_env (W2 s))" and spent2: "a_preKeys (ms_abs (w_store (W2 (\<not> s)))) (pk_ID pk) = None"
    using n1 spent by (auto simp: acts_def act_simps duoD(4) [OF d] simp del: ms_abs_simps)
  have "\<not> has_session (after (Resets s) ?st1 s)" by simp
  from spent_refused [where W = W2 and pt = m2, OF B d spec [OF pair_sides [OF W2(2) n2]] this b(1) pk off spent2] W1(1) W2(1)
  show ?thesis by (simp del: happens.simps)
qed

end
