(* ===== verification/Properties_Setup.thy ===== *)
theory Properties_Setup
  imports Manager_Spent Fake_Laws
begin

text \<open>
  Two accounts from nothing: set up one after the other in the in-memory network of \<open>manager_test.go\<close>, they
  can hold every dialogue, the first message included. Of the backend the laws of \<open>Backend_Laws\<close>, \<open>Manager_Handshake\<close> and
  \<open>Manager_Meeting\<close> are assumed, and that its random source and key generators return.
\<close>

section \<open>The stub starts sessions, generates keys and leaves the network alone\<close>

lemma stub_initiates: "p = ProtocolV1 \<or> p = ProtocolV2 \<Longrightarrow> initiates stub p"
  unfolding initiates_def v1_initiates_def v2_initiates_def
  by (auto simp: sure_def stub_initial_def stub_initial1_def stub_keypair_def stub_encrypt_def stub_prekey_message_def act_simps)

lemma stub_generates: "generates stub p"
  by (auto simp: generates_def stub_random returns_def stub_rand_def stub_keypair_def stub_spk_def GenerateSignedPreKey_def
      may_def act_simps)

lemma stub_net_kept: "net_kept stub"
  by (auto simp: net_kept_def backend_keeps_def stable_def inv_rel_def stub_def stub_spk_def stub_initial_def stub_initial1_def
      stub_receive_def stub_keypair_def stub_payload_def stub_open_def stub_rand_def stub_ratchet_defs stub_prekey_message_def
      stub_parse_def Let_def act_simps split: option.splits)

lemma stub_lawful: "p = ProtocolV1 \<or> p = ProtocolV2 \<Longrightarrow> lawful stub (=) (=) p"
  by (simp add: lawful_def stub_ratchets stub_payloads stub_handshake stub_initiates stub_sends stub_generates stub_calm stub_net_kept)

section \<open>From setup to any conversation\<close>

text \<open>
  C1. Whatever two different accounts are set up with \<open>setup\<close> in the in-memory network of
  \<open>manager_test.go\<close>, and whatever that holds before, both setups succeed. (Of the backend the laws
  collected in \<open>lawful\<close> are assumed, for keys that its own generators made.) Afterwards the two managers may send messages to each other, reset the session with the other, publish their bundles
  again, rotate signed prekeys and generate one-time prekeys, in any order: as long as the abstract
  account of \<open>Manager_Events\<close> allows the events, each of them succeeds and each message is read as it was
  written. What it asks for is that a message goes to a device that holds the other end of the session,
  or, when there is none, that the device's published bundle was not used yet and is at most one rotation
  old; that there is a prekey to publish; and that less than \<open>2^32\<close> prekeys are made.
\<close>

theorem allowed_histories:
  assumes "lawful B P Q p" and "jidA \<noteq> jidR"
  shows "\<exists>A wA R wR. setup_Manager B jidA dA p randA net = (Inr A, wA) \<and>
     setup_Manager B jidR dR p randR (w_env wA) = (Inr R, wR) \<and>
     (\<forall>evs. allowed_all evs at_setup \<longrightarrow>
        map (map_sum id slice_string) (history B (both A R) evs (both (wA\<lparr>w_env := w_env wR\<rparr>) wR)) = map (Inr \<circ> said) evs)"
proof -
  have gen: "generates B p" using assms(1) by (simp add: lawful_def)
  obtain A wA where A: "setup_Manager B jidA dA p randA net = (Inr A, wA)" using setup_returns [OF gen] by blast
  obtain R wR where R: "setup_Manager B jidR dR p randR (w_env wA) = (Inr R, wR)" using setup_returns [OF gen] by blast
  from setups_pair [OF assms A R] history_ok [OF assms(1)] A R show ?thesis by blast
qed

text \<open>Both sides talk, one resets the session after the other has rotated and published, and they go on.\<close>

definition ex_history :: "event list" where
  "ex_history = [Says True (Some [104, 105]), Says False (Some [104]), TopsUp False 3, Publishes False, Rotates False,
     Resets True, Says True (Some [111]), Says False None]"

theorem allowed_histories_witness:
  "\<exists>A wA R wR. setup_Manager stub ''alice'' 1 ProtocolV2 [] ex_env = (Inr A, wA) \<and>
     setup_Manager stub ''bob'' 1 ProtocolV2 [] (w_env wA) = (Inr R, wR) \<and>
     map (map_sum id slice_string) (history stub (both A R) ex_history (both (wA\<lparr>w_env := w_env wR\<rparr>) wR)) =
       [Inr [104, 105], Inr [104], Inr [], Inr [], Inr [], Inr [], Inr [111], Inr []]"
proof -
  have B: "lawful stub (=) (=) ProtocolV2" and ok: "allowed_all ex_history at_setup"
    by (simp_all add: stub_lawful ex_history_def at_setup_def)
  from allowed_histories [OF B, of "''alice''" "''bob''" 1 "[]" ex_env 1 "[]"] ok
  obtain A wA R wR where run: "setup_Manager stub ''alice'' 1 ProtocolV2 [] ex_env = (Inr A, wA)"
      "setup_Manager stub ''bob'' 1 ProtocolV2 [] (w_env wA) = (Inr R, wR)"
    and talk: "map (map_sum id slice_string) (history stub (both A R) ex_history (both (wA\<lparr>w_env := w_env wR\<rparr>) wR)) =
        map (Inr \<circ> said) ex_history" by blast
  have "map (Inr \<circ> said) ex_history = [Inr [104, 105], Inr [104], Inr [], Inr [], Inr [], Inr [], Inr [111], Inr []]"
    by (simp add: ex_history_def slice_string_def)
  with run talk show ?thesis by metis
qed

section \<open>A bundle serves one session\<close>

text \<open>
  C5. A reset needs a new publication (protocol v2): when two accounts are set up, one writes to the other
  and then calls \<open>ResetSession\<close>, its next message is made and reported as delivered to the device, but the
  device refuses it and stores nothing, since the key exchange names the prekey that the first message
  consumed. When the other side publishes its bundle in between, every event succeeds and the message is
  read.
\<close>

theorem reset_needs_publication:
  assumes "lawful B P Q ProtocolV2" and "jidA \<noteq> jidR"
  shows "\<exists>A wA R wR. setup_Manager B jidA dA ProtocolV2 randA net = (Inr A, wA) \<and>
     setup_Manager B jidR dR ProtocolV2 randR (w_env wA) = (Inr R, wR) \<and>
     (\<forall>s m1 m2. let M = both A R; W = both (wA\<lparr>w_env := w_env wR\<rparr>) wR in
        refused B M s m2 (worlds B M [Says s m1, Resets s] W) \<and>
        map (map_sum id slice_string) (history B M [Says s m1, Resets s, Publishes (\<not> s), Says s m2] W) =
          [Inr (slice_string m1), Inr [], Inr [], Inr (slice_string m2)])"
proof -
  have gen: "generates B ProtocolV2" using assms(1) by (simp add: lawful_def)
  obtain A wA where A: "setup_Manager B jidA dA ProtocolV2 randA net = (Inr A, wA)" using setup_returns [OF gen] by blast
  obtain R wR where R: "setup_Manager B jidR dR ProtocolV2 randR (w_env wA) = (Inr R, wR)" using setup_returns [OF gen] by blast
  note pair = setups_pair [OF assms A R, THEN conjunct1] setups_pair [OF assms A R, THEN conjunct2]
  have ok: "allowed_all [Says s m1, Resets s, Publishes (\<not> s), Says s m2] at_setup" for s m1 m2
    by (simp add: at_setup_def)
  show ?thesis
    using A R reset_stale [OF assms(1) pair] history_ok [OF assms(1) pair ok] by (simp add: Let_def del: worlds.simps history.simps)
qed

theorem reset_needs_publication_witness:
  "\<exists>A wA R wR. setup_Manager stub ''alice'' 1 ProtocolV2 [] ex_env = (Inr A, wA) \<and>
     setup_Manager stub ''bob'' 1 ProtocolV2 [] (w_env wA) = (Inr R, wR) \<and>
     refused stub (both A R) True (Some [105])
       (worlds stub (both A R) [Says True (Some [104]), Resets True] (both (wA\<lparr>w_env := w_env wR\<rparr>) wR))"
proof -
  have "lawful stub (=) (=) ProtocolV2" by (simp add: stub_lawful)
  from reset_needs_publication [OF this, of "''alice''" "''bob''" 1 "[]" ex_env 1 "[]"] show ?thesis
    unfolding Let_def by (simp del: worlds.simps history.simps) blast
qed

end
