(* ===== verification/Properties_Safety.thy ===== *)
theory Properties_Safety
  imports Properties_Conversation Properties_Encrypt
begin

text \<open>
  Properties that hold of every run: sessions are well formed, calls do not panic and leave no mutex
  held, the in-memory store keeps the contract the manager's proofs use; and one that shows what a
  message with equal device identifiers leads to.
\<close>

section \<open>Sessions\<close>

text \<open>
  C19. Every session the package \<open>signal\<close> builds or loads, and every session a method returns, holds the
  ratchet of its protocol: no method on it meets a nil pointer, so a panic could only come from the
  backend. A legacy session has its pending prekey data for the first message only.
\<close>

theorem sessions_well_formed:
  assumes "session_of B p s"
  shows "session_ok p s \<and>
     (\<forall>km e r s' e'. Encrypt B km (s, e) = (r, (s', e')) \<longrightarrow> session_ok p s' \<and> s_pending s' = None) \<and>
     (\<forall>c e r s' e'. Decrypt B c (s, e) = (r, (s', e')) \<longrightarrow> session_ok p s') \<and>
     (calm_backend B \<longrightarrow> (\<forall>km e. \<not> panicked (Encrypt B km (s, e))) \<and> (\<forall>c e. \<not> panicked (Decrypt B c (s, e))) \<and>
        (\<forall>e. \<not> panicked (Marshal B s e)))"
proof -
  have ok: "session_ok p s" by (rule session_of_ok [OF assms])
  have "\<not> panicked (Encrypt B km (s, e))" if "calm_backend B" for km e
    using Encrypt_ok(3) [OF ok _ that] unfolding panicked_def by (metis prod.collapse old.sum.simps(5,6) sum.exhaust)
  moreover have "\<not> panicked (Decrypt B c (s, e))" if "calm_backend B" for c e
    using Decrypt_ok(3) [OF ok _ that] unfolding panicked_def by (metis prod.collapse old.sum.simps(5,6) sum.exhaust)
  moreover have "\<not> panicked (Marshal B s e)" if "calm_backend B" for e
    using safe_run [OF calm_safe [OF Marshal_calm [OF that ok]], of e] by simp
  ultimately show ?thesis using ok by (auto dest: Encrypt_ok(1,2) Decrypt_ok(1))
qed

definition ex_session :: "(byte list, byte list) signal_Session" where
  "ex_session = \<lparr>s_protocol = ProtocolV1, s_dr = None, s_ls = Some [1], s_pending = None\<rparr>"

theorem sessions_well_formed_witness:
  "session_ok ProtocolV1 ex_session \<and> \<not> panicked (Encrypt stub (Some [2]) (ex_session, ex_env))"
proof -
  have "may (LoadSession stub ProtocolV1 (Some [1])) ex_session"
    by (simp add: may_def LoadSession_def ex_session_def act_simps stub_unmarshal_def)
  from sessions_well_formed [OF session_of.load [OF this]] stub_calm show ?thesis by blast
qed

section \<open>Calls\<close>



section \<open>The in-memory store\<close>

text \<open>
  C20. The in-memory store keeps the contract from which the manager's properties are proved
  (\<open>reliable_store\<close>): under the abstraction \<open>ms_abs\<close> every method of \<open>MemStore_Store\<close> does to the abstract
  store what the method of the interface is for, and every method but the lookup of an unknown one-time
  prekey succeeds. That lookup fails, changing nothing, with the error of \<open>fmt.Errorf\<close>. The contract is
  weaker than the interface's comments in two places, where the store does not keep them: new identifiers
  are fresh only while fewer than \<open>2^32 - 1\<close> were issued, and the error is not \<open>ErrPreKeyNotFound\<close>.
\<close>

theorem MemStore_keeps_contract:
  "reliable_store MemStore_Store ms_inv ms_abs \<and>
   (\<forall>s i. a_preKeys (ms_abs s) i = None \<longrightarrow>
      ConsumePreKey MemStore_Store i s = (Inl (Errorf (''one-time prekey '' @ fmt_d i @ '' not found'')), s))"
  by (intro conjI memstore.reliable_store_axioms) (simp add: ms_defs)

theorem MemStore_keeps_contract_witness:
  "ConsumePreKey MemStore_Store 6 (ex_store ''b'' 2) =
     (Inl (Errorf (''one-time prekey '' @ fmt_d 6 @ '' not found'')), ex_store ''b'' 2)"
  using MemStore_keeps_contract by (simp add: ex_store_def)

section \<open>Equal device identifiers\<close>

text \<open>
  \<open>a\<close> has a second device, and it has the same identifier 2 as the device of \<open>b\<close>. The device \<open>a/1\<close>
  sends a message to \<open>b\<close>.
\<close>

definition ex_own2 :: "(MemStore, fakeEnv) Manager" where
  "ex_own2 = (ex_manager ProtocolV2 ''a'' 4)\<lparr>m_localDevice := \<lparr>dev_JID = ''a'', dev_ID = 2\<rparr>\<rparr>"

definition ex_env2 :: fakeEnv where
  "ex_env2 = ex_env\<lparr>
     fn_devices := [''b'' \<mapsto> \<lparr>dl_JID = ''b'', dl_Devices = [2]\<rparr>, ''a'' \<mapsto> \<lparr>dl_JID = ''a'', dl_Devices = [1, 2]\<rparr>],
     fn_bundles := [\<lparr>dev_JID = ''b'', dev_ID = 2\<rparr> \<mapsto> ex_bundle ''b'' 2, \<lparr>dev_JID = ''a'', dev_ID = 2\<rparr> \<mapsto> ex_bundle ''a'' 4]\<rparr>"

definition ex_world2 :: "(MemStore, fakeEnv) world" where
  "ex_world2 = (ex_world ''a'' 3)\<lparr>w_store := (ex_store ''a'' 3)\<lparr>ms_devices := [''b'' \<mapsto> [2], ''a'' \<mapsto> [1, 2]]\<rparr>, w_env := ex_env2\<rparr>"

definition ex_collision :: "(goerror + encrypt_result) \<times> (MemStore, fakeEnv) world" where
  "ex_collision = EncryptMessage stub (ex_manager ProtocolV2 ''a'' 3) ''b'' (Some [104, 105]) ex_world2"

text \<open>The message: a key for \<open>b/2\<close>, then one for \<open>a/2\<close>.\<close>

definition ex_key2 :: "byte \<Rightarrow> byte \<Rightarrow> RecipientKey" where
  "ex_key2 peer ek = \<lparr>rk_Device = 2,
     rk_Data = Some (replicate 32 3 @ replicate 32 peer @ [7, 9, ek] @ replicate 4 20),
     rk_KeyExchange = Some \<lparr>kx_IdentityKey = Some (replicate 32 3), kx_EphemeralKey = Some [ek],
       kx_SignedPreKeyID = 1, kx_PreKeyID = 5\<rparr>\<rparr>"

definition ex_msg2 :: "RecipientKey list \<Rightarrow> EncryptedMessage" where
  "ex_msg2 keys = \<lparr>em_Sender = \<lparr>dev_JID = ''a'', dev_ID = 1\<rparr>, em_Keys = keys,
     em_Payload = Some (replicate 4 20 @ [104, 105]), em_IV = None\<rparr>"

lemma ex_collision_msg: "the_msg (fst ex_collision) = Some (ex_msg2 [ex_key2 2 21, ex_key2 4 22])"
  by code_simp

definition ex_read2 :: "RecipientKey list \<Rightarrow> (goerror + slice) \<times> (MemStore, fakeEnv) world" where
  "ex_read2 keys = DecryptMessage stub ex_own2 (ex_msg2 keys) (ex_world ''a'' 4)"

lemma ex_read2_first: "case ex_read2 [ex_key2 2 21, ex_key2 4 22] of (r, w) \<Rightarrow>
   (case r of Inl e \<Rightarrow> \<not> is_fatal e | Inr _ \<Rightarrow> False) \<and> ms_preKeys (w_store w) = []"
  by code_simp

lemma ex_read2_own: "fst (ex_read2 [ex_key2 4 22]) = Inr (Some [104, 105])"
  by code_simp

lemma find_update:
  assumes "i < j" and "j < length xs" and "P (xs ! i)"
  shows "find P (xs[j := y]) = find P xs"
  using assms
proof (induction xs arbitrary: i j)
  case (Cons x xs)
  then show ?case by (cases j; cases i) auto
qed simp

text \<open>
  C27. Device identifiers are unique within an account only, but the keys of a message name a device by
  its identifier alone. When a message was made for all its recipients and two of them, of the
  recipient's account and the sender's own say, have the same identifier, the message has a key for each,
  but the key made for the second one has no influence on what that device's \<open>DecryptMessage\<close> does: with
  anything else in its place the result and all effects are the same. (The witness is such a message, which the
  second device cannot read, losing a one-time prekey, and could read with its own key.)
\<close>

theorem device_IDs_collide:
  assumes "m_store M = MemStore_Store" and "ms_inv (w_store w)"
    and "EncryptMessage B M jid pt w = (Inr (Some msg, [], err), w')"
    and "ds = recipients M jid (ms_abs (w_store w'))" and "i < j" and "j < length ds"
    and "dev_ID (ds ! i) = dev_ID (ds ! j)" and "m_localDevice R = ds ! j"
  shows "map rk_Device (em_Keys msg) = map dev_ID ds \<and>
     (\<forall>key v. DecryptMessage B' R (msg\<lparr>em_Keys := (em_Keys msg)[j := key]\<rparr>) v = DecryptMessage B' R msg v)"
proof -
  have "accounted ds (em_Keys msg) []"
    using EncryptMessage_facts(2) [OF assms(1-3)] assms(4)
    by (auto simp: encrypt_post_def recipients_def dest: loop_post_accounted split: option.splits)
  then obtain bs where bs: "length bs = length ds" "map rk_Device (em_Keys msg) = map dev_ID (served bs ds)"
    "skipped bs ds = []" by (auto simp: accounted_def)
  from bs(1,3) have "served bs ds = ds" by (induction bs ds rule: list_induct2) (auto split: if_splits)
  with bs(2) have keys: "map rk_Device (em_Keys msg) = map dev_ID ds" by simp
  then have len: "length (em_Keys msg) = length ds" by (metis length_map)
  from keys len have "rk_Device (em_Keys msg ! i) = dev_ID (ds ! i)"
    using assms(5,6) by (metis nth_map order.strict_trans)
  then have same: "find (\<lambda>k. rk_Device k = dev_ID (m_localDevice R)) ((em_Keys msg)[j := key]) =
      find (\<lambda>k. rk_Device k = dev_ID (m_localDevice R)) (em_Keys msg)" for key
    using assms(5-8) len by (intro find_update [where i = i]) simp_all
  have "DecryptMessage B' R (msg\<lparr>em_Keys := (em_Keys msg)[j := key]\<rparr>) v = DecryptMessage B' R msg v" for key v
    using same [of key] by (simp add: DecryptMessage_def cong: option.case_cong if_cong)
  with keys show ?thesis by blast
qed

theorem device_IDs_collide_witness:
  "\<exists>msg. fst ex_collision = Inr (Some msg, [], None) \<and> map rk_Device (em_Keys msg) = [2, 2] \<and>
     (\<exists>e. fst (DecryptMessage stub ex_own2 msg (ex_world ''a'' 4)) = Inl e \<and> \<not> is_fatal e) \<and>
     ms_preKeys (w_store (snd (DecryptMessage stub ex_own2 msg (ex_world ''a'' 4)))) = [] \<and>
     fst (DecryptMessage stub ex_own2 (msg\<lparr>em_Keys := tl (em_Keys msg)\<rparr>) (ex_world ''a'' 4)) = Inr (Some [104, 105])"
proof -
  let ?msg = "ex_msg2 [ex_key2 2 21, ex_key2 4 22]" and ?w = ex_world2
  let ?ds = "recipients (ex_manager ProtocolV2 ''a'' 3) ''b'' (ms_abs (w_store (snd ex_collision)))"
  from the_msg_Some [OF ex_collision_msg] have run: "EncryptMessage stub (ex_manager ProtocolV2 ''a'' 3) ''b'' (Some [104, 105]) ?w =
      (Inr (Some ?msg, [], None), snd ex_collision)"
    unfolding ex_collision_def [symmetric] by (simp add: prod_eq_iff)
  have inv: "ms_inv (w_store ?w)" by (simp add: ex_world2_def ex_store_def ms_inv_def ms_New_def)
  have "a_devices (ms_abs (w_store ?w)) ''b'' = [2]" "a_devices (ms_abs (w_store ?w)) ''a'' = [1, 2]"
    by (simp_all add: ex_world2_def ms_abs_def)
  with EncryptMessage_facts(3) [OF ex_manager_simps(1) inv run] have "a_devices (ms_abs (w_store (snd ex_collision))) ''b'' = [2]"
    "a_devices (ms_abs (w_store (snd ex_collision))) ''a'' = [1, 2]" by (simp_all add: send_frame_def)
  then have ds: "?ds = [\<lparr>dev_JID = ''b'', dev_ID = 2\<rparr>, \<lparr>dev_JID = ''a'', dev_ID = 2\<rparr>]"
    by (simp add: recipients_def all_devices_def devs_of_def)
  from device_IDs_collide [where R = ex_own2 and i = 0 and j = 1, OF ex_manager_simps(1) inv run refl, THEN conjunct1]
  have "map rk_Device (em_Keys ?msg) = [2, 2]" by (simp add: ds ex_own2_def)
  moreover have "\<exists>e. fst (ex_read2 [ex_key2 2 21, ex_key2 4 22]) = Inl e \<and> \<not> is_fatal e"
    using ex_read2_first by (auto split: sum.splits prod.splits)
  moreover have "ms_preKeys (w_store (snd (ex_read2 [ex_key2 2 21, ex_key2 4 22]))) = []"
    using ex_read2_first by (auto split: prod.splits)
  ultimately show ?thesis
    using the_msg_Some [OF ex_collision_msg] ex_read2_own unfolding ex_read2_def
    by (intro exI [of _ ?msg]) (simp add: ex_msg2_def ex_key2_def)
qed

end
