(* ===== verification/Omemo_Steps.thy ===== *)
theory Omemo_Steps
  imports Manager_Calls
begin

text \<open>
  The manager for several goroutines at once. The functions of \<open>manager.go\<close> are given a second time,
  as programs of atomic steps (\<open>steps\<close>) between which other goroutines may act: one call of a method
  of the store (each method of the in-memory store holds its mutex throughout), one call into the
  environment (backend, transport, trust callback), one lookup in the table of mutexes (under
  \<open>locksMu\<close>), the locking of a device's mutex, which waits until it is free, and the unlocking. The
  programs are written function by function with the same combinators as the state-passing functions
  of \<open>Omemo_Manager\<close>; \<open>Manager_Alone\<close> proves that they do the same when nothing interferes.
\<close>

section \<open>Programs of atomic steps\<close>

datatype ('s, 'e, 'a) steps =
    Done "goerror + 'a"
  | OnStore "'s \<Rightarrow> ('s, 'e, 'a) steps \<times> 's"
  | OnEnv "'e \<Rightarrow> ('s, 'e, 'a) steps \<times> 'e"
  | Table Device "nat \<Rightarrow> ('s, 'e, 'a) steps"
  | Lock nat "('s, 'e, 'a) steps"
  | Unlock nat "('s, 'e, 'a) steps"

primrec bindS :: "('s, 'e, 'a) steps \<Rightarrow> (goerror + 'a \<Rightarrow> ('s, 'e, 'b) steps) \<Rightarrow> ('s, 'e, 'b) steps" where
  "bindS (Done r) f = f r"
| "bindS (OnStore k) f = OnStore (\<lambda>s. map_prod (\<lambda>m. bindS m f) id (k s))"
| "bindS (OnEnv k) f = OnEnv (\<lambda>e. map_prod (\<lambda>m. bindS m f) id (k e))"
| "bindS (Table d k) f = Table d (\<lambda>l. bindS (k l) f)"
| "bindS (Lock l m) f = Lock l (bindS m f)"
| "bindS (Unlock l m) f = Unlock l (bindS m f)"

text \<open>The control flow of the code, as for actions: early return, handled errors, wrapped errors.\<close>

definition retS :: "'a \<Rightarrow> ('s, 'e, 'a) steps" where
  "retS x = Done (Inr x)"

definition throwS :: "goerror \<Rightarrow> ('s, 'e, 'a) steps" where
  "throwS e = Done (Inl e)"

definition andThenS :: "('s, 'e, 'a) steps \<Rightarrow> ('a \<Rightarrow> ('s, 'e, 'b) steps) \<Rightarrow> ('s, 'e, 'b) steps" where
  "andThenS m f = bindS m (case_sum throwS f)"

definition tryCatchS ::
  "('s, 'e, 'a) steps \<Rightarrow> (goerror \<Rightarrow> ('s, 'e, 'b) steps) \<Rightarrow> ('a \<Rightarrow> ('s, 'e, 'b) steps) \<Rightarrow> ('s, 'e, 'b) steps" where
  "tryCatchS m h f = bindS m (case_sum (\<lambda>e. if is_fatal e then throwS e else h e) f)"

definition wrapErrS :: "string \<Rightarrow> ('s, 'e, 'a) steps \<Rightarrow> ('s, 'e, 'a) steps" where
  "wrapErrS s m = tryCatchS m (\<lambda>e. throwS (Wrap s e)) retS"

text \<open>One call of the store, of the environment, of a method of a session in a local variable.\<close>

definition storeS :: "('s, 'a) act \<Rightarrow> ('s, 'e, 'a) steps" where
  "storeS m = OnStore (\<lambda>s. map_prod Done id (m s))"

definition envS :: "('e, 'a) act \<Rightarrow> ('s, 'e, 'a) steps" where
  "envS m = OnEnv (\<lambda>e. map_prod Done id (m e))"

definition sessionS ::
  "(('dr, 'ls) signal_Session \<times> 'e, 'a) act \<Rightarrow> ('dr, 'ls) signal_Session \<Rightarrow>
     ('s, 'e, 'a \<times> ('dr, 'ls) signal_Session) steps" where
  "sessionS m sess = OnEnv (\<lambda>e. case m (sess, e) of (r, (sess', e')) \<Rightarrow>
     (Done (map_sum id (\<lambda>x. (x, sess')) r), e'))"

text \<open>\<open>lock := m.deviceLock(dev); lock.Lock(); defer lock.Unlock()\<close>: unlocked whatever the result.\<close>

definition lockedS :: "Device \<Rightarrow> ('s, 'e, 'a) steps \<Rightarrow> ('s, 'e, 'a) steps" where
  "lockedS dev body = Table dev (\<lambda>l. Lock l (bindS body (\<lambda>r. Unlock l (Done r))))"

section \<open>Bundles, prekeys and device lists\<close>

fun generateLoopS ::
  "('e, 'dr, 'ls, 'x) backend \<Rightarrow> 's Store \<Rightarrow> nat \<Rightarrow> PreKeyRecord list \<Rightarrow> ('s, 'e, PreKeyRecord list) steps" where
  "generateLoopS B S 0 recs = retS recs"
| "generateLoopS B S (Suc k) recs =
     andThenS (wrapErrS ''allocate prekey id'' (storeS (NextPreKeyID S))) (\<lambda>i.
     andThenS (wrapErrS ''generate one-time prekey'' (envS (GenerateOneTimePreKey B))) (\<lambda>(pub, priv).
     generateLoopS B S k (recs @ [\<lparr>pkr_ID = i, pkr_Public = pub, pkr_Private = priv\<rparr>])))"

definition generateOneTimePreKeysS ::
  "('e, 'dr, 'ls, 'x) backend \<Rightarrow> 's Store \<Rightarrow> int \<Rightarrow> ('s, 'e, unit) steps" where
  "generateOneTimePreKeysS B S n =
     (if n < 0 \<or> max_prekeys < n then throwS (Fatal ''runtime error: makeslice: cap out of range'')
      else andThenS (generateLoopS B S (nat n) []) (\<lambda>recs. storeS (PutPreKeys S recs)))"

definition BundleS :: "('e, 'dr, 'ls, 'x) backend \<Rightarrow> ('s, 'e) Manager \<Rightarrow> ('s, 'e, Bundle) steps" where
  "BundleS B M =
     andThenS (wrapErrS ''load signed prekey'' (storeS (CurrentSignedPreKey (m_store M)))) (\<lambda>spk.
     andThenS (wrapErrS ''load prekeys'' (storeS (PreKeys (m_store M)))) (\<lambda>preKeyRecs.
     let preKeys = map (\<lambda>r. \<lparr>pk_ID = pkr_ID r, pk_Public = pkr_Public r\<rparr>) preKeyRecs in
     andThenS (wrapErrS ''derive identity public key''
                (envS (IdentityPublicKey B (m_protocol M) (m_identityKey M)))) (\<lambda>pub.
     retS \<lparr>b_Device = m_localDevice M, b_IdentityKey = pub,
          b_SignedPreKey = \<lparr>spk_ID = spr_ID spk, spk_Public = spr_Public spk,
                            spk_Signature = spr_Signature spk\<rparr>,
          b_PreKeys = preKeys\<rparr>)))"

definition PublishBundleS :: "('e, 'dr, 'ls, 'x) backend \<Rightarrow> ('s, 'e) Manager \<Rightarrow> ('s, 'e, unit) steps" where
  "PublishBundleS B M = andThenS (BundleS B M) (\<lambda>bundle. envS (PublishBundle (m_transport M) bundle))"

definition nextSignedPreKeyIDS :: "('s, 'e) Manager \<Rightarrow> ('s, 'e, uint32) steps" where
  "nextSignedPreKeyIDS M =
     andThenS (wrapErrS ''load signed prekey'' (storeS (CurrentSignedPreKey (m_store M)))) (\<lambda>cur.
     retS (spr_ID cur + 1))"

definition RotateSignedPreKeyS ::
  "('e, 'dr, 'ls, 'x) backend \<Rightarrow> ('s, 'e) Manager \<Rightarrow> ('s, 'e, unit) steps" where
  "RotateSignedPreKeyS B M =
     andThenS (nextSignedPreKeyIDS M) (\<lambda>nextID.
     andThenS (wrapErrS ''generate signed prekey''
                (envS (GenerateSignedPreKey B (m_protocol M) (m_identityKey M))))
       (\<lambda>(spkPub, spkPriv, spkSig).
     storeS (RotateSignedPreKey (m_store M) \<lparr>spr_ID = nextID, spr_Public = spkPub,
              spr_Private = spkPriv, spr_Signature = spkSig\<rparr>)))"

definition NeedsMorePreKeysS :: "('s, 'e) Manager \<Rightarrow> ('s, 'e, bool) steps" where
  "NeedsMorePreKeysS M =
     andThenS (wrapErrS ''count prekeys'' (storeS (PreKeyCount (m_store M)))) (\<lambda>count.
     retS (count \<le> MinPreKeyCount))"

definition SyncDevicesS :: "('s, 'e) Manager \<Rightarrow> string \<Rightarrow> ('s, 'e, unit) steps" where
  "SyncDevicesS M jid =
     andThenS (wrapErrS (''fetch device list for '' @ jid) (envS (FetchDeviceList (m_transport M) jid)))
       (\<lambda>list. storeS (SetDevices (m_store M) jid (dl_Devices list)))"

definition devicesForS :: "('s, 'e) Manager \<Rightarrow> string \<Rightarrow> ('s, 'e, DeviceID list) steps" where
  "devicesForS M jid =
     andThenS (wrapErrS (''load devices for '' @ jid) (storeS (Devices (m_store M) jid))) (\<lambda>devices.
     if devices \<noteq> [] then retS devices
     else andThenS (SyncDevicesS M jid) (\<lambda>_. storeS (Devices (m_store M) jid)))"

definition ResetSessionS :: "('s, 'e) Manager \<Rightarrow> Device \<Rightarrow> ('s, 'e, unit) steps" where
  "ResetSessionS M dev =
     lockedS dev
       (wrapErrS (''reset session for '' @ dev_JID dev @ '' device '' @ fmt_d (dev_ID dev))
          (storeS (DeleteSession (m_store M) dev)))"

definition recipientDevicesS :: "('s, 'e) Manager \<Rightarrow> string \<Rightarrow> ('s, 'e, Device list) steps" where
  "recipientDevicesS M jid =
     andThenS (devicesForS M jid) (\<lambda>deviceIDs.
     let devices = map (\<lambda>i. \<lparr>dev_JID = jid, dev_ID = i\<rparr>) deviceIDs in
     if jid = dev_JID (m_localDevice M) then retS devices
     else tryCatchS (devicesForS M (dev_JID (m_localDevice M)))
            (\<lambda>_. retS devices)
            (\<lambda>ownIDs. retS (devices @
               map (\<lambda>i. \<lparr>dev_JID = dev_JID (m_localDevice M), dev_ID = i\<rparr>) ownIDs)))"

section \<open>Encrypting\<close>

definition checkTrustS :: "('s, 'e) Manager \<Rightarrow> Device \<Rightarrow> slice \<Rightarrow> ('s, 'e, unit) steps" where
  "checkTrustS M dev identityKey =
     andThenS (wrapErrS ''load trust state'' (storeS (Trust (m_store M) identityKey))) (\<lambda>state.
     if state = TrustTrusted then retS ()
     else if state = TrustUntrusted then throwS ErrBlockedDevice
     else (case m_trustResolver M of
             None \<Rightarrow> throwS ErrUntrustedDevice
           | Some resolver \<Rightarrow>
               andThenS (envS (resolver dev identityKey)) (\<lambda>_.
               storeS (SetTrust (m_store M) identityKey TrustTrusted))))"

definition getOrCreateActiveSessionS ::
  "('e, 'dr, 'ls, 'x) backend \<Rightarrow> ('s, 'e) Manager \<Rightarrow> Device \<Rightarrow>
     ('s, 'e, ('dr, 'ls) signal_Session \<times> KeyExchange option) steps" where
  "getOrCreateActiveSessionS B M dev =
     andThenS (wrapErrS ''load session'' (storeS (Session (m_store M) dev))) (\<lambda>found.
     case found of
       Some data \<Rightarrow>
         andThenS (envS (LoadSession B (m_protocol M) data)) (\<lambda>sess. retS (sess, None))
     | None \<Rightarrow>
         andThenS (wrapErrS ''fetch bundle'' (envS (FetchBundle (m_transport M) dev))) (\<lambda>bundle.
         case b_PreKeys bundle of
           [] \<Rightarrow> throwS (Errorf ''peer bundle has no one-time prekeys available'')
         | preKey # _ \<Rightarrow>
             andThenS (wrapErrS ''X3DH'' (envS (NewActiveSession B (m_protocol M) (m_identityKey M)
                 (b_IdentityKey bundle) (spk_Public (b_SignedPreKey bundle))
                 (spk_Signature (b_SignedPreKey bundle)) (pk_Public preKey)
                 (spk_ID (b_SignedPreKey bundle)) (pk_ID preKey) (dev_ID (m_localDevice M)))))
               (\<lambda>(sess, ekPub).
             andThenS (wrapErrS ''store identity key''
                 (storeS (PutRemoteIdentityKey (m_store M) dev (b_IdentityKey bundle)))) (\<lambda>_.
             andThenS (wrapErrS ''derive identity public key''
                 (envS (IdentityPublicKey B (m_protocol M) (m_identityKey M)))) (\<lambda>ownPub.
             retS (sess, Some \<lparr>kx_IdentityKey = ownPub, kx_EphemeralKey = ekPub,
                    kx_SignedPreKeyID = spk_ID (b_SignedPreKey bundle),
                    kx_PreKeyID = pk_ID preKey\<rparr>))))))"

definition putSessionS ::
  "('e, 'dr, 'ls, 'x) backend \<Rightarrow> ('s, 'e) Manager \<Rightarrow> Device \<Rightarrow> ('dr, 'ls) signal_Session \<Rightarrow>
     ('s, 'e, unit) steps" where
  "putSessionS B M dev sess =
     andThenS (wrapErrS ''marshal session'' (envS (Marshal B sess))) (\<lambda>data.
     wrapErrS ''store session'' (storeS (PutSession (m_store M) dev data)))"

definition encryptForDeviceS ::
  "('e, 'dr, 'ls, 'x) backend \<Rightarrow> ('s, 'e) Manager \<Rightarrow> Device \<Rightarrow> slice \<Rightarrow> ('s, 'e, RecipientKey) steps" where
  "encryptForDeviceS B M dev keyMaterial =
     lockedS dev (
     andThenS (wrapErrS ''establish session'' (getOrCreateActiveSessionS B M dev)) (\<lambda>(sess, kx).
     andThenS (wrapErrS ''load identity key'' (storeS (RemoteIdentityKey (m_store M) dev))) (\<lambda>found.
     case found of
       None \<Rightarrow> throwS (Errorf ''no known identity key for device'')
     | Some idKey \<Rightarrow>
         andThenS (checkTrustS M dev idKey) (\<lambda>_.
         andThenS (wrapErrS ''ratchet encrypt'' (sessionS (Encrypt B keyMaterial) sess)) (\<lambda>(data, sess').
         andThenS (putSessionS B M dev sess') (\<lambda>_.
         retS \<lparr>rk_Device = dev_ID dev, rk_Data = data, rk_KeyExchange = kx\<rparr>))))))"

fun encryptLoopS ::
  "('e, 'dr, 'ls, 'x) backend \<Rightarrow> ('s, 'e) Manager \<Rightarrow> slice \<Rightarrow> Device list \<Rightarrow>
     RecipientKey list \<Rightarrow> DeviceError list \<Rightarrow> ('s, 'e, RecipientKey list \<times> DeviceError list) steps" where
  "encryptLoopS B M keyMaterial [] keys errs = retS (keys, errs)"
| "encryptLoopS B M keyMaterial (dev # devs) keys errs =
     (if dev = m_localDevice M then encryptLoopS B M keyMaterial devs keys errs
      else tryCatchS (encryptForDeviceS B M dev keyMaterial)
             (\<lambda>e. encryptLoopS B M keyMaterial devs keys (errs @ [\<lparr>de_Device = dev, de_Err = e\<rparr>]))
             (\<lambda>key. encryptLoopS B M keyMaterial devs (keys @ [key]) errs))"

definition encryptS ::
  "('e, 'dr, 'ls, 'x) backend \<Rightarrow> ('s, 'e) Manager \<Rightarrow> string \<Rightarrow> slice \<Rightarrow> ('s, 'e, encrypt_result) steps" where
  "encryptS B M jid plaintext =
     tryCatchS (recipientDevicesS M jid) (\<lambda>e. retS (None, [], Some e)) (\<lambda>devices.
     tryCatchS (envS (EncryptPayload B (m_protocol M) plaintext))
       (\<lambda>e. retS (None, [], Some (Wrap ''encrypt payload'' e)))
       (\<lambda>(keyMaterial, iv, ciphertext).
     let ciphertext' = (if plaintext = None then None else ciphertext);
         iv' = (if plaintext = None then None else iv) in
     andThenS (encryptLoopS B M keyMaterial devices [] []) (\<lambda>(keys, deviceErrs).
     if keys = [] then retS (None, deviceErrs, Some ErrNoRecipients)
     else retS (Some \<lparr>em_Sender = m_localDevice M, em_Keys = keys, em_Payload = ciphertext',
                     em_IV = iv'\<rparr>, deviceErrs, None))))"

section \<open>Decrypting\<close>

definition signedPreKeyByIDS :: "('s, 'e) Manager \<Rightarrow> uint32 \<Rightarrow> ('s, 'e, SignedPreKeyRecord) steps" where
  "signedPreKeyByIDS M i =
     andThenS (wrapErrS ''load signed prekey'' (storeS (CurrentSignedPreKey (m_store M)))) (\<lambda>cur.
     if spr_ID cur = i then retS cur
     else andThenS (wrapErrS ''load stale signed prekey'' (storeS (StaleSignedPreKey (m_store M)))) (\<lambda>stale.
       case stale of
         Some r \<Rightarrow> (if spr_ID r = i then retS r
                    else throwS (Errorf (''unknown signed prekey id '' @ fmt_d i)))
       | None \<Rightarrow> throwS (Errorf (''unknown signed prekey id '' @ fmt_d i))))"

definition getOrCreateSessionForIncomingS ::
  "('e, 'dr, 'ls, 'x) backend \<Rightarrow> ('s, 'e) Manager \<Rightarrow> Device \<Rightarrow> RecipientKey \<Rightarrow>
     ('s, 'e, ('dr, 'ls) signal_Session \<times> slice) steps" where
  "getOrCreateSessionForIncomingS B M sender key =
     (case rk_KeyExchange key of
        None \<Rightarrow>
          andThenS (wrapErrS ''load session'' (storeS (Session (m_store M) sender))) (\<lambda>found.
          case found of
            None \<Rightarrow> throwS ErrUnknownSession
          | Some data \<Rightarrow>
              andThenS (envS (LoadSession B (m_protocol M) data)) (\<lambda>sess. retS (sess, rk_Data key)))
      | Some kx \<Rightarrow>
          if m_protocol M = ProtocolV1
          then andThenS (wrapErrS ''parsing legacy prekey message''
                   (envS (PeekLegacyPreKeyIDs B (rk_Data key)))) (\<lambda>(signedPreKeyID, preKeyID).
               andThenS (signedPreKeyByIDS M signedPreKeyID) (\<lambda>spk.
               andThenS (wrapErrS (''consume one-time prekey '' @ fmt_d preKeyID)
                   (storeS (ConsumePreKey (m_store M) preKeyID))) (\<lambda>preKey.
               andThenS (wrapErrS ''X3DH'' (envS (NewPassiveSessionFromPreKeyBlob B (m_identityKey M)
                   (spr_Public spk) (spr_Private spk) (pkr_Private preKey) (rk_Data key))))
                 (\<lambda>(sess, peerIdentityKey, innerData).
               andThenS (wrapErrS ''store identity key''
                   (storeS (PutRemoteIdentityKey (m_store M) sender peerIdentityKey))) (\<lambda>_.
               retS (sess, innerData))))))
          else andThenS (signedPreKeyByIDS M (kx_SignedPreKeyID kx)) (\<lambda>spk.
               andThenS (wrapErrS (''consume one-time prekey '' @ fmt_d (kx_PreKeyID kx))
                   (storeS (ConsumePreKey (m_store M) (kx_PreKeyID kx)))) (\<lambda>preKey.
               andThenS (wrapErrS ''X3DH'' (envS (NewPassiveSession B (m_identityKey M)
                   (kx_IdentityKey kx) (spr_Public spk) (spr_Private spk) (pkr_Private preKey)
                   (kx_EphemeralKey kx)))) (\<lambda>sess.
               andThenS (wrapErrS ''store identity key''
                   (storeS (PutRemoteIdentityKey (m_store M) sender (kx_IdentityKey kx)))) (\<lambda>_.
               retS (sess, rk_Data key))))))"

definition DecryptMessageS ::
  "('e, 'dr, 'ls, 'x) backend \<Rightarrow> ('s, 'e) Manager \<Rightarrow> EncryptedMessage \<Rightarrow> ('s, 'e, slice) steps" where
  "DecryptMessageS B M msg =
     (case find (\<lambda>k. rk_Device k = dev_ID (m_localDevice M)) (em_Keys msg) of
        None \<Rightarrow> throwS ErrOwnDeviceKeyMissing
      | Some key \<Rightarrow>
          lockedS (em_Sender msg) (
          andThenS (wrapErrS ''establish session''
              (getOrCreateSessionForIncomingS B M (em_Sender msg) key)) (\<lambda>(sess, dataToDecrypt).
          andThenS (wrapErrS ''ratchet decrypt'' (sessionS (Decrypt B dataToDecrypt) sess))
            (\<lambda>(keyMaterial, sess').
          andThenS (putSessionS B M (em_Sender msg) sess') (\<lambda>_.
          if em_Payload msg = None then retS None
          else wrapErrS ''decrypt payload''
                 (envS (DecryptPayload B (m_protocol M) keyMaterial (em_IV msg) (em_Payload msg))))))))"

section \<open>Calls\<close>

text \<open>What the exported functions return, as one type, so that goroutines in different calls make a list.\<close>

datatype outcome =
    Returned
  | Answer bool
  | Built Bundle
  | Sent encrypt_result
  | Read slice

definition result :: "('a \<Rightarrow> outcome) \<Rightarrow> ('s, 'e, 'a) steps \<Rightarrow> ('s, 'e, outcome) steps" where
  "result g m = andThenS m (\<lambda>x. retS (g x))"

fun call_steps ::
  "('e, 'dr, 'ls, 'x) backend \<Rightarrow> ('s, 'e) Manager \<Rightarrow> call \<Rightarrow> ('s, 'e, outcome) steps" where
  "call_steps B M (CallEncrypt jid pt) = result Sent (encryptS B M jid pt)"
| "call_steps B M (CallKeyTransport jid) = result Sent (encryptS B M jid None)"
| "call_steps B M (CallDecrypt msg) = result Read (DecryptMessageS B M msg)"
| "call_steps B M (CallReset dev) = result (\<lambda>_. Returned) (ResetSessionS M dev)"
| "call_steps B M (CallSync jid) = result (\<lambda>_. Returned) (SyncDevicesS M jid)"
| "call_steps B M (CallGenerate n) = result (\<lambda>_. Returned) (generateOneTimePreKeysS B (m_store M) n)"
| "call_steps B M CallRotate = result (\<lambda>_. Returned) (RotateSignedPreKeyS B M)"
| "call_steps B M CallBundle = result Built (BundleS B M)"
| "call_steps B M CallPublish = result (\<lambda>_. Returned) (PublishBundleS B M)"
| "call_steps B M CallNeedsMore = result Answer (NeedsMorePreKeysS M)"
| "call_steps B M (CallSetTrust k t) = result (\<lambda>_. Returned) (storeS (SetTrust (m_store M) k t))"
| "call_steps B M (CallSetDevices jid ds) = result (\<lambda>_. Returned) (storeS (SetDevices (m_store M) jid ds))"

end
