(* ===== verification/Steps_Calculus.thy ===== *)
theory Steps_Calculus
  imports Omemo_Steps
begin

text \<open>
  Reasoning about programs of steps: what a program does when it runs alone (\<open>alone\<close>), with one
  equation per combinator; the programs that take no mutex and whose store steps satisfy a relation
  (\<open>within\<close>); and the discipline of a whole call (\<open>obeys\<close>): mutexes are taken one at a time, the one
  of a device from the table, and released, with one relation for the store steps made without a mutex
  and one for those made under the mutex of a device.
\<close>

section \<open>Induction\<close>

lemma steps_induct [case_names Done OnStore OnEnv Table Lock Unlock]:
  assumes "\<And>r. P (Done r)"
    and "\<And>k. (\<And>s. P (fst (k s))) \<Longrightarrow> P (OnStore k)"
    and "\<And>k. (\<And>e. P (fst (k e))) \<Longrightarrow> P (OnEnv k)"
    and "\<And>d k. (\<And>l. P (k l)) \<Longrightarrow> P (Table d k)"
    and "\<And>l m. P m \<Longrightarrow> P (Lock l m)"
    and "\<And>l m. P m \<Longrightarrow> P (Unlock l m)"
  shows "P m"
proof (induction m)
  case (OnStore k)
  then show ?case by (intro assms(2)) (auto simp: prod_set_defs)
next
  case (OnEnv k)
  then show ?case by (intro assms(3)) (auto simp: prod_set_defs)
next
  case (Table d k)
  then show ?case by (intro assms(4)) auto
qed (auto intro: assms)

section \<open>Running alone\<close>

named_theorems alone_simps \<open>what programs of steps do when they run alone\<close>

primrec alone :: "('s, 'e, 'a) steps \<Rightarrow> (('s, 'e) world, 'a) act" where
  "alone (Done r) = (\<lambda>w. (r, w))"
| "alone (OnStore k) = (\<lambda>w. case map_prod alone id (k (w_store w)) of (m, s) \<Rightarrow> m (w\<lparr>w_store := s\<rparr>))"
| "alone (OnEnv k) = (\<lambda>w. case map_prod alone id (k (w_env w)) of (m, e) \<Rightarrow> m (w\<lparr>w_env := e\<rparr>))"
| "alone (Table d k) = (\<lambda>w. case deviceLock d w of (l, w') \<Rightarrow> alone (k l) w')"
| "alone (Lock l m) = (\<lambda>w. case mutex_Lock l w of (Inl e, w') \<Rightarrow> (Inl e, w') | (Inr _, w') \<Rightarrow> alone m w')"
| "alone (Unlock l m) = (\<lambda>w. alone m (mutex_Unlock l w))"

lemma alone_OnStore [simp]: "alone (OnStore k) w = alone (fst (k (w_store w))) (w\<lparr>w_store := snd (k (w_store w))\<rparr>)"
  by (simp add: case_prod_beta)

lemma alone_OnEnv [simp]: "alone (OnEnv k) w = alone (fst (k (w_env w))) (w\<lparr>w_env := snd (k (w_env w))\<rparr>)"
  by (simp add: case_prod_beta)

declare alone.simps(2,3) [simp del]

text \<open>A goroutine that waits for ever returns nothing; the continuation has to pass the deadlock on.\<close>

lemma alone_bindS:
  assumes "f (Inl deadlock) = Done (Inl deadlock)"
  shows "alone (bindS m f) w = (case alone m w of (r, w') \<Rightarrow> alone (f r) w')"
proof (induction m arbitrary: w rule: steps_induct)
  case (Lock l m)
  then show ?case
    by (simp add: mutex_Lock_def assms split: prod.split)
qed (simp_all add: case_prod_beta)

lemma alone_Done [alone_simps]: "alone (retS x) = ret x" "alone (throwS e) = throw e"
  by (simp_all add: retS_def throwS_def ret_def throw_def fun_eq_iff)

lemma is_fatal_deadlock [simp]: "is_fatal deadlock"
  by (simp add: deadlock_def)

lemma alone_andThenS [alone_simps]: "alone (andThenS m f) = andThen (alone m) (\<lambda>x. alone (f x))"
proof
  fix w
  obtain r w' where run: "alone m w = (r, w')" by fastforce
  have "alone (andThenS m f) w = alone (case_sum throwS f r) w'"
    unfolding andThenS_def by (subst alone_bindS) (simp_all add: throwS_def run)
  then show "alone (andThenS m f) w = andThen (alone m) (\<lambda>x. alone (f x)) w"
    by (cases r) (simp_all add: andThen_run run throwS_def)
qed

lemma alone_tryCatchS [alone_simps]:
  "alone (tryCatchS m h f) = tryCatch (alone m) (\<lambda>e. alone (h e)) (\<lambda>x. alone (f x))"
proof
  fix w
  obtain r w' where run: "alone m w = (r, w')" by fastforce
  have "alone (tryCatchS m h f) w = alone (case_sum (\<lambda>e. if is_fatal e then throwS e else h e) f r) w'"
    unfolding tryCatchS_def by (subst alone_bindS) (simp_all add: throwS_def run)
  then show "alone (tryCatchS m h f) w = tryCatch (alone m) (\<lambda>e. alone (h e)) (\<lambda>x. alone (f x)) w"
    by (cases r) (simp_all add: tryCatch_run run throwS_def)
qed

lemma alone_wrapErrS [alone_simps]: "alone (wrapErrS s m) = wrapErr s (alone m)"
  by (simp add: wrapErrS_def wrapErr_def alone_simps)

lemma alone_storeS [alone_simps]: "alone (storeS m) = liftS m"
  by (simp add: storeS_def liftS_def zoom_def case_prod_beta fun_eq_iff)

lemma alone_envS [alone_simps]: "alone (envS m) = liftE m"
  by (simp add: envS_def liftE_def zoom_def case_prod_beta fun_eq_iff)

lemma alone_sessionS [alone_simps]: "alone (sessionS m sess) = onSession m sess"
  by (simp add: sessionS_def onSession_def case_prod_beta fun_eq_iff map_sum_def
      split: sum.split)

lemma alone_cases [alone_simps]:
  "alone (if b then m else n) = (if b then alone m else alone n)"
  "alone (case y of None \<Rightarrow> m | Some x \<Rightarrow> f x) = (case y of None \<Rightarrow> alone m | Some x \<Rightarrow> alone (f x))"
  "alone (case xs of [] \<Rightarrow> m | x # xs \<Rightarrow> g x xs) = (case xs of [] \<Rightarrow> alone m | x # xs \<Rightarrow> alone (g x xs))"
  "alone (case p of (a, b) \<Rightarrow> h a b) = (case p of (a, b) \<Rightarrow> alone (h a b))"
  "alone (let z = c in i z) = (let z = c in alone (i z))"
  by (simp_all split: option.split list.split prod.split)

section \<open>Bodies of sections\<close>

named_theorems within_intros \<open>programs that take no mutex\<close>

inductive within :: "('s \<Rightarrow> 's \<Rightarrow> bool) \<Rightarrow> ('s, 'e, 'a) steps \<Rightarrow> bool" for R where
  "within R (Done r)"
| "(\<And>s. R s (snd (k s))) \<Longrightarrow> (\<And>s. within R (fst (k s))) \<Longrightarrow> within R (OnStore k)"
| "(\<And>e. within R (fst (k e))) \<Longrightarrow> within R (OnEnv k)"

lemma within_bindS: "within R m \<Longrightarrow> (\<And>r. within R (f r)) \<Longrightarrow> within R (bindS m f)"
  by (induction rule: within.induct) (auto intro!: within.intros)

lemma within_combs [within_intros]:
  "within R (retS x)" "within R (throwS e)" "within R (envS me)" "within R (sessionS mo sess)"
  "within R m \<Longrightarrow> (\<And>x. within R (f x)) \<Longrightarrow> within R (andThenS m f)"
  "within R m \<Longrightarrow> (\<And>e. within R (h e)) \<Longrightarrow> (\<And>x. within R (f x)) \<Longrightarrow> within R (tryCatchS m h f)"
  "within R m \<Longrightarrow> within R (wrapErrS s m)"
  by (auto simp: retS_def throwS_def envS_def sessionS_def andThenS_def tryCatchS_def wrapErrS_def case_prod_beta
      intro!: within.intros within_bindS split: sum.split)

lemma within_storeS: "(\<And>s. R s (snd (m s))) \<Longrightarrow> within R (storeS m)"
  by (auto simp: storeS_def intro!: within.intros)

lemma within_cases [within_intros]:
  "(b \<Longrightarrow> within R m) \<Longrightarrow> (\<not> b \<Longrightarrow> within R n) \<Longrightarrow> within R (if b then m else n)"
  "(y = None \<Longrightarrow> within R m) \<Longrightarrow> (\<And>x. y = Some x \<Longrightarrow> within R (f x)) \<Longrightarrow> within R (case y of None \<Rightarrow> m | Some x \<Rightarrow> f x)"
  "within R m \<Longrightarrow> (\<And>x xs. within R (g x xs)) \<Longrightarrow> within R (case ys of [] \<Rightarrow> m | x # xs \<Rightarrow> g x xs)"
  "(\<And>a b. within R (h a b)) \<Longrightarrow> within R (case p of (a, b) \<Rightarrow> h a b)"
  by (simp_all split: option.split list.split prod.split)

lemma within_mono: "within R m \<Longrightarrow> (\<And>s s'. R s s' \<Longrightarrow> R' s s') \<Longrightarrow> within R' m"
  by (induction rule: within.induct) (auto intro!: within.intros)

text \<open>A section runs its body with the mutex held and releases it.\<close>

lemma alone_bind_within:
  "within R m \<Longrightarrow> alone (bindS m f) w = (case alone m w of (r, w') \<Rightarrow> alone (f r) w')"
proof (induction arbitrary: w rule: within.induct)
  case (2 k)
  then show ?case by (simp add: case_prod_beta)
next
  case (3 k)
  then show ?case by (simp add: case_prod_beta)
qed (simp)

lemma alone_lockedS: "within R m \<Longrightarrow> alone (lockedS d m) = withDeviceLock d (alone m)"
  by (rule ext) (simp add: lockedS_def withDeviceLock_def alone_bind_within split: prod.split sum.split)

end
