(* ===== verification/Manager_Alone.thy ===== *)
theory Manager_Alone
  imports Steps_Calculus
begin

text \<open>
  The programs of steps and the state-passing functions of the manager are the same code: run alone,
  each program does to the world, and returns, what its function does. What is proved of the functions
  thus holds of a goroutine that no other one interrupts.
\<close>

section \<open>Sections take no second mutex\<close>

definition anything :: "'s \<Rightarrow> 's \<Rightarrow> bool" where
  "anything s s' = True"

lemma within_any [within_intros]: "within anything (storeS m)"
  by (rule within_storeS) (simp add: anything_def)

lemma bodies_take_no_mutex [within_intros]:
  "within anything (checkTrustS M dev k)"
  "within anything (putSessionS B M dev sess)"
  "within anything (getOrCreateActiveSessionS B M dev)"
  "within anything (signedPreKeyByIDS M i)"
  unfolding checkTrustS_def putSessionS_def getOrCreateActiveSessionS_def signedPreKeyByIDS_def
  by (intro within_intros)+

lemma incoming_takes_no_mutex [within_intros]: "within anything (getOrCreateSessionForIncomingS B M dev key)"
  unfolding getOrCreateSessionForIncomingS_def by (intro within_intros)

section \<open>Function by function\<close>

lemmas alone_locked [alone_simps] = alone_lockedS [of anything]

lemma alone_generateLoopS [alone_simps]: "alone (generateLoopS B S k recs) = generateLoop B S k recs"
proof (induction k arbitrary: recs)
  case (Suc k)
  then show ?case by (simp add: alone_simps case_prod_unfold cong: if_cong option.case_cong list.case_cong)
qed (simp add: alone_simps)

lemma alone_prekeys [alone_simps]:
  "alone (generateOneTimePreKeysS B S n) = generateOneTimePreKeys B S n"
  "alone (BundleS B M) = Manager_Bundle B M"
  "alone (nextSignedPreKeyIDS M) = nextSignedPreKeyID M"
  "alone (NeedsMorePreKeysS M) = NeedsMorePreKeys M"
  by (simp_all add: generateOneTimePreKeysS_def generateOneTimePreKeys_def BundleS_def Manager_Bundle_def
      nextSignedPreKeyIDS_def nextSignedPreKeyID_def NeedsMorePreKeysS_def NeedsMorePreKeys_def alone_simps)

lemma alone_publishing [alone_simps]:
  "alone (PublishBundleS B M) = Manager_PublishBundle B M"
  "alone (RotateSignedPreKeyS B M) = Manager_RotateSignedPreKey B M"
  by (simp_all add: PublishBundleS_def Manager_PublishBundle_def RotateSignedPreKeyS_def
      Manager_RotateSignedPreKey_def alone_simps case_prod_unfold cong: if_cong option.case_cong list.case_cong)

lemma alone_lists [alone_simps]:
  "alone (SyncDevicesS M jid) = SyncDevices M jid"
  "alone (devicesForS M jid) = devicesFor M jid"
  "alone (recipientDevicesS M jid) = recipientDevices M jid"
  by (simp_all add: SyncDevicesS_def SyncDevices_def devicesForS_def devicesFor_def recipientDevicesS_def
      recipientDevices_def alone_simps cong: if_cong)

lemma alone_ResetSessionS [alone_simps]: "alone (ResetSessionS M dev) = ResetSession M dev"
  unfolding ResetSessionS_def ResetSession_def
  by (subst alone_locked) (intro within_intros, simp add: alone_simps)

lemma alone_checkTrustS [alone_simps]: "alone (checkTrustS M dev k) = checkTrust M dev k"
  by (simp add: checkTrustS_def checkTrust_def alone_simps cong: if_cong option.case_cong)

lemma alone_sessions [alone_simps]:
  "alone (getOrCreateActiveSessionS B M dev) = getOrCreateActiveSession B M dev"
  "alone (putSessionS B M dev sess) = putSession B M dev sess"
  by (simp_all add: getOrCreateActiveSessionS_def getOrCreateActiveSession_def putSessionS_def putSession_def
      alone_simps case_prod_unfold cong: if_cong option.case_cong list.case_cong)

lemma alone_encryptForDeviceS [alone_simps]: "alone (encryptForDeviceS B M dev km) = encryptForDevice B M dev km"
  unfolding encryptForDeviceS_def encryptForDevice_def
  by (subst alone_locked) (intro within_intros, simp add: alone_simps case_prod_unfold cong: if_cong option.case_cong list.case_cong)

lemma alone_encryptLoopS [alone_simps]: "alone (encryptLoopS B M km devs keys errs) = encryptLoop B M km devs keys errs"
  by (induction devs arbitrary: keys errs) (simp_all add: alone_simps)

lemma alone_encryptS [alone_simps]: "alone (encryptS B M jid pt) = encrypt B M jid pt"
  by (simp add: encryptS_def encrypt_def alone_simps case_prod_unfold cong: if_cong option.case_cong list.case_cong)

lemma alone_signedPreKeyByIDS [alone_simps]: "alone (signedPreKeyByIDS M i) = signedPreKeyByID M i"
  by (simp add: signedPreKeyByIDS_def signedPreKeyByID_def alone_simps cong: if_cong option.case_cong)

lemma alone_incoming [alone_simps]:
  "alone (getOrCreateSessionForIncomingS B M dev key) = getOrCreateSessionForIncoming B M dev key"
  by (simp add: getOrCreateSessionForIncomingS_def getOrCreateSessionForIncoming_def alone_simps case_prod_unfold cong: if_cong option.case_cong list.case_cong)

lemma alone_DecryptMessageS [alone_simps]: "alone (DecryptMessageS B M msg) = DecryptMessage B M msg"
proof (cases "find (\<lambda>k. rk_Device k = dev_ID (m_localDevice M)) (em_Keys msg)")
  case None
  then show ?thesis by (simp add: DecryptMessageS_def DecryptMessage_def alone_simps)
next
  case (Some key)
  then show ?thesis
    unfolding DecryptMessageS_def DecryptMessage_def Some option.case
    by (subst alone_locked) (intro within_intros, simp add: alone_simps case_prod_unfold cong: if_cong option.case_cong list.case_cong)
qed

section \<open>Calls\<close>

text \<open>A call of the application on the state-passing functions, with its outcome.\<close>

fun make_call ::
  "('e, 'dr, 'ls, 'x) backend \<Rightarrow> ('s, 'e) Manager \<Rightarrow> call \<Rightarrow> (('s, 'e) world, outcome) act" where
  "make_call B M (CallEncrypt jid pt) = andThen (EncryptMessage B M jid pt) (\<lambda>x. ret (Sent x))"
| "make_call B M (CallKeyTransport jid) = andThen (EncryptKeyTransport B M jid) (\<lambda>x. ret (Sent x))"
| "make_call B M (CallDecrypt msg) = andThen (DecryptMessage B M msg) (\<lambda>x. ret (Read x))"
| "make_call B M (CallReset dev) = andThen (ResetSession M dev) (\<lambda>_. ret Returned)"
| "make_call B M (CallSync jid) = andThen (SyncDevices M jid) (\<lambda>_. ret Returned)"
| "make_call B M (CallGenerate n) = andThen (GenerateOneTimePreKeys B M n) (\<lambda>_. ret Returned)"
| "make_call B M CallRotate = andThen (Manager_RotateSignedPreKey B M) (\<lambda>_. ret Returned)"
| "make_call B M CallBundle = andThen (Manager_Bundle B M) (\<lambda>x. ret (Built x))"
| "make_call B M CallPublish = andThen (Manager_PublishBundle B M) (\<lambda>_. ret Returned)"
| "make_call B M CallNeedsMore = andThen (NeedsMorePreKeys M) (\<lambda>x. ret (Answer x))"
| "make_call B M (CallSetTrust k t) = andThen (liftS (SetTrust (m_store M) k t)) (\<lambda>_. ret Returned)"
| "make_call B M (CallSetDevices jid ds) = andThen (liftS (SetDevices (m_store M) jid ds)) (\<lambda>_. ret Returned)"

lemma andThen_ret_snd: "snd (andThen m (\<lambda>x. ret (g x)) w) = snd (m w)"
  by (simp add: andThen_run ret_run split: prod.split sum.split)

lemma make_call_world: "snd (make_call B M c w) = run_call B M c w"
  by (cases c) (simp_all add: andThen_ret_snd)

lemma alone_call: "alone (call_steps B M c) = make_call B M c"
  by (cases c) (simp_all add: result_def alone_simps EncryptMessage_def EncryptKeyTransport_def GenerateOneTimePreKeys_def)

end
