(* ===== verification/Steps_Interleaving.thy ===== *)
theory Steps_Interleaving
  imports Steps_Calculus
begin

text \<open>
  Goroutines that run programs of steps on one world, in any interleaving. A configuration holds the
  world, the program each goroutine still has to run, and what each goroutine has to do with mutexes
  (got one from the table, holds one): the last is not part of the program's state, it is there to
  state properties. Programs that take mutexes one at a time (\<open>obeys\<close>) exclude each other from the
  sections of a device, never get stuck and always end.
\<close>

section \<open>Configurations and steps\<close>

datatype mutex_state = Free | Got nat Device | Held nat Device

type_synonym ('s, 'e, 'a) configuration = "('s, 'e) world \<times> ('s, 'e, 'a) steps list \<times> mutex_state list"

fun take_mutex :: "nat \<Rightarrow> mutex_state \<Rightarrow> mutex_state" where
  "take_mutex l (Got l' d) = Held l d"
| "take_mutex l h = h"

text \<open>Goroutine \<open>i\<close> makes its next step.\<close>

inductive cstep :: "nat \<Rightarrow> ('s, 'e, 'a) configuration \<Rightarrow> ('s, 'e, 'a) configuration \<Rightarrow> bool" for i where
  store: "i < length ms \<Longrightarrow> ms ! i = OnStore k \<Longrightarrow> k (w_store w) = (m, s) \<Longrightarrow>
     cstep i (w, ms, hs) (w\<lparr>w_store := s\<rparr>, ms[i := m], hs)"
| env: "i < length ms \<Longrightarrow> ms ! i = OnEnv ke \<Longrightarrow> ke (w_env w) = (m, e) \<Longrightarrow>
     cstep i (w, ms, hs) (w\<lparr>w_env := e\<rparr>, ms[i := m], hs)"
| table: "i < length ms \<Longrightarrow> ms ! i = Table d kt \<Longrightarrow> deviceLock d w = (l, w') \<Longrightarrow>
     cstep i (w, ms, hs) (w', ms[i := kt l], hs[i := Got l d])"
| lock: "i < length ms \<Longrightarrow> ms ! i = Lock l m \<Longrightarrow> mutex_Lock l w = (Inr (), w') \<Longrightarrow>
     cstep i (w, ms, hs) (w', ms[i := m], hs[i := take_mutex l (hs ! i)])"
| unlock: "i < length ms \<Longrightarrow> ms ! i = Unlock l m \<Longrightarrow>
     cstep i (w, ms, hs) (mutex_Unlock l w, ms[i := m], hs[i := Free])"

inductive crun :: "('s, 'e, 'a) configuration \<Rightarrow> ('s, 'e, 'a) configuration \<Rightarrow> bool" for c where
  none: "crun c c"
| more: "crun c c' \<Longrightarrow> cstep i c' c'' \<Longrightarrow> crun c c''"

text \<open>Goroutines that all start on a world in which no mutex is held.\<close>

definition launch :: "('s, 'e) world \<Rightarrow> ('s, 'e, 'a) steps list \<Rightarrow> ('s, 'e, 'a) configuration" where
  "launch w ms = (w, ms, replicate (length ms) Free)"

definition finished :: "('s, 'e, 'a) steps list \<Rightarrow> bool" where
  "finished ms \<longleftrightarrow> (\<forall>m \<in> set ms. \<exists>r. m = Done r)"

lemma crun_trans: "crun c c' \<Longrightarrow> crun c' c'' \<Longrightarrow> crun c c''"
  by (rotate_tac, induction rule: crun.induct) (auto intro: crun.intros)

lemma crun_first: "cstep i c c' \<Longrightarrow> crun c' c'' \<Longrightarrow> crun c c''"
  by (rule crun_trans [OF crun.more [OF crun.none]])

lemma mutex_Lock_Inr: "mutex_Lock l w = (Inr (), w') \<longleftrightarrow> l \<notin> w_held w \<and> w' = w\<lparr>w_held := insert l (w_held w)\<rparr>"
  by (auto simp: mutex_Lock_def)

section \<open>The discipline of mutexes\<close>

text \<open>
  \<open>obeys R L h m\<close>: started with the mutexes \<open>h\<close>, the program \<open>m\<close> takes one mutex at a time, the one the
  table gives for a device, and ends with none; its store steps satisfy \<open>R\<close> without a mutex and \<open>L d\<close>
  under the mutex of \<open>d\<close>.
\<close>

fun permits :: "('s \<Rightarrow> 's \<Rightarrow> bool) \<Rightarrow> (Device \<Rightarrow> 's \<Rightarrow> 's \<Rightarrow> bool) \<Rightarrow> mutex_state \<Rightarrow> 's \<Rightarrow> 's \<Rightarrow> bool" where
  "permits R L Free s s' = R s s'"
| "permits R L (Got l d) s s' = False"
| "permits R L (Held l d) s s' = L d s s'"

inductive obeys ::
  "('s \<Rightarrow> 's \<Rightarrow> bool) \<Rightarrow> (Device \<Rightarrow> 's \<Rightarrow> 's \<Rightarrow> bool) \<Rightarrow> mutex_state \<Rightarrow> ('s, 'e, 'a) steps \<Rightarrow> bool" for R L where
  Done: "obeys R L Free (Done r)"
| OnStore: "(\<And>s. permits R L h s (snd (k s))) \<Longrightarrow> (\<And>s. obeys R L h (fst (k s))) \<Longrightarrow> obeys R L h (OnStore k)"
| OnEnv: "(\<And>l d. h \<noteq> Got l d) \<Longrightarrow> (\<And>e. obeys R L h (fst (k e))) \<Longrightarrow> obeys R L h (OnEnv k)"
| Table: "(\<And>l. obeys R L (Got l d) (k l)) \<Longrightarrow> obeys R L Free (Table d k)"
| Lock: "obeys R L (Held l d) m \<Longrightarrow> obeys R L (Got l d) (Lock l m)"
| Unlock: "obeys R L Free m \<Longrightarrow> obeys R L (Held l d) (Unlock l m)"

inductive_cases obeysE [elim!]:
  "obeys R L h (Done r)" "obeys R L h (OnStore k)" "obeys R L h (OnEnv k)" "obeys R L h (Table d k)"
  "obeys R L h (Lock l m)" "obeys R L h (Unlock l m)"

named_theorems obeys_intros \<open>programs that keep the discipline\<close>

lemma obeys_bindS_at: "obeys R L h m \<Longrightarrow> (\<And>r. obeys R L Free (f r)) \<Longrightarrow> obeys R L h (bindS m f)"
  by (induction rule: obeys.induct) (auto intro!: obeys.intros)

lemma obeys_combs [obeys_intros]:
  "obeys R L Free (retS x)" "obeys R L Free (throwS e)" "obeys R L Free (envS me)"
  "obeys R L Free m \<Longrightarrow> (\<And>x. obeys R L Free (f x)) \<Longrightarrow> obeys R L Free (andThenS m f)"
  "obeys R L Free m \<Longrightarrow> (\<And>e. obeys R L Free (h e)) \<Longrightarrow> (\<And>x. obeys R L Free (f x)) \<Longrightarrow> obeys R L Free (tryCatchS m h f)"
  "obeys R L Free m \<Longrightarrow> obeys R L Free (wrapErrS s m)"
  by (auto simp: retS_def throwS_def envS_def andThenS_def tryCatchS_def wrapErrS_def
      intro!: obeys.intros obeys_bindS_at split: sum.split)

lemma obeys_storeS: "(\<And>s. R s (snd (m s))) \<Longrightarrow> obeys R L Free (storeS m)"
  by (auto simp: storeS_def intro!: obeys.intros)

lemma obeys_cases [obeys_intros]:
  "(b \<Longrightarrow> obeys R L h m) \<Longrightarrow> (\<not> b \<Longrightarrow> obeys R L h n) \<Longrightarrow> obeys R L h (if b then m else n)"
  "obeys R L h m \<Longrightarrow> (\<And>x. obeys R L h (f x)) \<Longrightarrow> obeys R L h (case y of None \<Rightarrow> m | Some x \<Rightarrow> f x)"
  "obeys R L h m \<Longrightarrow> (\<And>x xs. obeys R L h (g x xs)) \<Longrightarrow> obeys R L h (case ys of [] \<Rightarrow> m | x # xs \<Rightarrow> g x xs)"
  "(\<And>a b. obeys R L h (i a b)) \<Longrightarrow> obeys R L h (case p of (a, b) \<Rightarrow> i a b)"
  by (simp_all split: option.split list.split prod.split)

text \<open>A section: its body takes no mutex, and writes as the mutex of the device permits.\<close>

lemma obeys_within: "within (L d) m \<Longrightarrow> (\<And>r. obeys R L (Held l d) (f r)) \<Longrightarrow> obeys R L (Held l d) (bindS m f)"
  by (induction rule: within.induct) (auto intro!: obeys.intros)

lemma obeys_lockedS [obeys_intros]: "within (L d) m \<Longrightarrow> obeys R L Free (lockedS d m)"
  unfolding lockedS_def by (intro obeys.intros obeys_within)

section \<open>The invariant of configurations\<close>

text \<open>The table of mutexes: one mutex per device, none shared.\<close>

definition table_ok :: "('s, 'e) world \<Rightarrow> bool" where
  "table_ok w \<longleftrightarrow> (\<forall>d d' l. w_locks w d = Some l \<longrightarrow> l < w_nextLock w \<and> (w_locks w d' = Some l \<longrightarrow> d' = d))"

lemma table_ok_deviceLock:
  assumes ok: "table_ok w" and run: "deviceLock d w = (l, w')"
  shows "table_ok w' \<and> w_locks w' d = Some l \<and> (\<forall>d' l'. w_locks w d' = Some l' \<longrightarrow> w_locks w' d' = Some l') \<and>
     w_held w' = w_held w \<and> w_store w' = w_store w"
proof (cases "w_locks w d")
  case None
  have lt: "l < w_nextLock w" and inj: "w_locks w d2 = Some l \<Longrightarrow> d2 = d1" if "w_locks w d1 = Some l" for d1 d2 l
    using ok that unfolding table_ok_def by blast+
  have new: "w_locks w x \<noteq> Some (w_nextLock w)" for x using lt by auto
  from run None show ?thesis
    by (auto simp: deviceLock_def table_ok_def new split: if_splits intro: inj) (rule less_SucI, erule lt)
qed (use ok run in \<open>simp add: deviceLock_def\<close>)

fun mutex_of :: "mutex_state \<Rightarrow> (nat \<times> Device) option" where
  "mutex_of Free = None"
| "mutex_of (Got l d) = Some (l, d)"
| "mutex_of (Held l d) = Some (l, d)"

definition disciplined ::
  "('s \<Rightarrow> 's \<Rightarrow> bool) \<Rightarrow> (Device \<Rightarrow> 's \<Rightarrow> 's \<Rightarrow> bool) \<Rightarrow> ('s, 'e, 'a) configuration \<Rightarrow> bool" where
  "disciplined R L c \<longleftrightarrow> (case c of (w, ms, hs) \<Rightarrow> length hs = length ms \<and> table_ok w \<and>
     (\<forall>i < length ms. obeys R L (hs ! i) (ms ! i)) \<and>
     (\<forall>i < length ms. \<forall>l d. mutex_of (hs ! i) = Some (l, d) \<longrightarrow> w_locks w d = Some l) \<and>
     (\<forall>l. l \<in> w_held w \<longleftrightarrow> (\<exists>i < length ms. \<exists>d. hs ! i = Held l d)) \<and>
     (\<forall>i < length ms. \<forall>j < length ms. \<forall>l d d'. hs ! i = Held l d \<longrightarrow> hs ! j = Held l d' \<longrightarrow> i = j))"

lemma disciplined_launch:
  assumes "table_ok w" and "w_held w = {}" and "\<And>m. m \<in> set ms \<Longrightarrow> obeys R L Free m"
  shows "disciplined R L (launch w ms)"
  using assms by (auto simp: disciplined_def launch_def)

lemma disciplined_entry:
  "disciplined R L (w, ms, hs) \<Longrightarrow> i < length ms \<Longrightarrow> mutex_of (hs ! i) = Some (l, d) \<Longrightarrow> w_locks w d = Some l"
  unfolding disciplined_def prod.case by blast

lemma disciplined_one:
  "disciplined R L (w, ms, hs) \<Longrightarrow> i < length ms \<Longrightarrow> j < length ms \<Longrightarrow> hs ! i = Held l d \<Longrightarrow> hs ! j = Held l d' \<Longrightarrow>
     i = j"
  unfolding disciplined_def prod.case by blast

lemma disciplined_exclusive:
  assumes inv: "disciplined R L (w, ms, hs)" and i: "i < length ms" "j < length ms"
    and h: "hs ! i = Held l d" "hs ! j = Held l' d"
  shows "i = j"
proof -
  from disciplined_entry [OF inv i(1), of l d] disciplined_entry [OF inv i(2), of l' d] h have "l' = l" by simp
  with disciplined_one [OF inv i] h show ?thesis by simp
qed

lemma disciplined_len: "disciplined R L (w, ms, hs) \<Longrightarrow> length hs = length ms"
  by (simp add: disciplined_def)

lemma disciplined_obeys: "disciplined R L (w, ms, hs) \<Longrightarrow> i < length ms \<Longrightarrow> obeys R L (hs ! i) (ms ! i)"
  by (simp add: disciplined_def)

text \<open>A change at position \<open>i\<close>: its program goes on in the mutex state \<open>h\<close>.\<close>

lemma disciplinedI:
  assumes "disciplined R L (w, ms, hs)" and i: "i < length ms"
    and "table_ok w'" and locks: "\<And>d l. w_locks w d = Some l \<Longrightarrow> w_locks w' d = Some l"
    and obeys: "obeys R L h m" and got: "\<And>l d. mutex_of h = Some (l, d) \<Longrightarrow> w_locks w' d = Some l"
    and held: "\<And>l. l \<in> w_held w' \<longleftrightarrow> (\<exists>d. h = Held l d) \<or> (\<exists>j < length ms. j \<noteq> i \<and> (\<exists>d. hs ! j = Held l d))"
    and alone: "\<And>l d j d'. h = Held l d \<Longrightarrow> j < length ms \<Longrightarrow> j \<noteq> i \<Longrightarrow> hs ! j \<noteq> Held l d'"
  shows "disciplined R L (w', ms[i := m], hs[i := h])"
proof -
  from assms(1) have len: "length hs = length ms" by (rule disciplined_len)
  show ?thesis
    unfolding disciplined_def prod.case length_list_update
  proof (intro conjI allI impI)
    show "length hs = length ms" "table_ok w'" by fact+
  next
    fix j assume "j < length ms"
    with assms(1) i len show "obeys R L (hs[i := h] ! j) (ms[i := m] ! j)"
      by (cases "j = i") (auto simp: disciplined_def obeys)
  next
    fix j l d assume "j < length ms" "mutex_of (hs[i := h] ! j) = Some (l, d)"
    with assms(1) i len show "w_locks w' d = Some l"
      by (cases "j = i") (auto simp: disciplined_def intro: got locks)
  next
    fix l show "l \<in> w_held w' \<longleftrightarrow> (\<exists>j < length ms. \<exists>d. hs[i := h] ! j = Held l d)"
      unfolding held using i len by (auto simp: nth_list_update)
  next
    fix j k l d d' assume jk: "j < length ms" "k < length ms"
      "hs[i := h] ! j = Held l d" "hs[i := h] ! k = Held l d'"
    show "j = k"
    proof (cases "j = i \<or> k = i")
      case True
      with jk i len alone [of l d k d'] alone [of l d' j d] show ?thesis by (cases "j = i"; cases "k = i") auto
    next
      case False
      with jk have "hs ! j = Held l d" "hs ! k = Held l d'" by simp_all
      with assms(1) jk(1,2) show ?thesis unfolding disciplined_def prod.case by blast
    qed
  qed
qed

lemma disciplined_held:
  "disciplined R L (w, ms, hs) \<Longrightarrow> i < length ms \<Longrightarrow> l \<in> w_held w \<longleftrightarrow> (\<exists>d. hs ! i = Held l d) \<or>
     (\<exists>j < length ms. j \<noteq> i \<and> (\<exists>d. hs ! j = Held l d))"
  unfolding disciplined_def by auto

text \<open>A step that leaves the mutexes alone.\<close>

lemma disciplined_keep:
  assumes "disciplined R L (w, ms, hs)" and "obeys R L (hs ! i) m"
    and "w_locks w' = w_locks w" and "w_nextLock w' = w_nextLock w" and "w_held w' = w_held w"
  shows "disciplined R L (w', ms[i := m], hs)"
proof -
  have "obeys R L (hs ! j) (ms[i := m] ! j)" if "j < length ms" for j
    using assms(1,2) that by (cases "j = i") (auto simp: disciplined_def)
  with assms show ?thesis by (simp add: disciplined_def table_ok_def)
qed

text \<open>
  Every step keeps the invariant, and changes the store only as the mutexes of the goroutine that makes
  it permit.
\<close>

lemma disciplined_step:
  assumes "cstep i (w, ms, hs) (w', ms', hs')" and inv: "disciplined R L (w, ms, hs)"
  shows "disciplined R L (w', ms', hs') \<and> i < length ms \<and>
     (w_store w' = w_store w \<or> permits R L (hs ! i) (w_store w) (w_store w'))"
proof -
  from inv have tab: "table_ok w" and len: "length hs = length ms" by (simp_all add: disciplined_def)
  note ob = disciplined_obeys [OF inv] and held = disciplined_held [OF inv] and entry = disciplined_entry [OF inv]
  show ?thesis
    using assms(1)
  proof (cases rule: cstep.cases)
    case (store k m s)
    with ob [of i] have o: "obeys R L (hs ! i) m" and p: "permits R L (hs ! i) (w_store w) s"
      by (auto dest: spec [of _ "w_store w"])
    from store disciplined_keep [OF inv o, of w'] p show ?thesis by simp
  next
    case (env k m e)
    with ob [of i] have o: "obeys R L (hs ! i) m" by (auto dest: spec [of _ "w_env w"])
    from env disciplined_keep [OF inv o, of w'] show ?thesis by simp
  next
    case (table d k l)
    with ob [of i] have o: "hs ! i = Free" "obeys R L (Got l d) (k l)" by auto
    from table_ok_deviceLock [OF tab table(5)] have t: "table_ok w'" "w_locks w' d = Some l"
      "\<And>d' l'. w_locks w d' = Some l' \<Longrightarrow> w_locks w' d' = Some l'" "w_held w' = w_held w" "w_store w' = w_store w"
      by blast+
    have "disciplined R L (w', ms[i := k l], hs[i := Got l d])"
      by (rule disciplinedI [OF inv table(3) t(1,3) o(2)]) (use t o(1) held [OF table(3)] in simp_all)
    with table t show ?thesis by simp
  next
    case (lock l m)
    with ob [of i] obtain d where o: "hs ! i = Got l d" "obeys R L (Held l d) m" by auto
    from lock(5) have w': "l \<notin> w_held w" "w' = w\<lparr>w_held := insert l (w_held w)\<rparr>"
      by (simp_all add: mutex_Lock_Inr)
    from entry [OF lock(3)] o(1) have e: "w_locks w d = Some l" by simp
    from held [OF lock(3)] w'(1) have other: "hs ! j \<noteq> Held l d'" if "j < length ms" for j d'
      using that by blast
    have "disciplined R L (w', ms[i := m], hs[i := Held l d])"
      by (rule disciplinedI [OF inv lock(3) _ _ o(2)])
        (use tab e o(1) other held [OF lock(3)] in \<open>auto simp: w'(2) table_ok_def\<close>)
    with lock w' o show ?thesis by simp
  next
    case (unlock l m)
    with ob [of i] obtain d where o: "hs ! i = Held l d" "obeys R L Free m" by auto
    have other: "hs ! j \<noteq> Held l d'" if "j < length ms" "j \<noteq> i" for j d'
      using disciplined_one [OF inv that(1) unlock(4)] o(1) that(2) by blast
    have "disciplined R L (w', ms[i := m], hs[i := Free])"
      by (rule disciplinedI [OF inv unlock(4) _ _ o(2)])
        (use tab o(1) other held [OF unlock(4)] in \<open>auto simp: unlock(1) table_ok_def\<close>)
    with unlock show ?thesis by simp
  qed
qed

lemma disciplined_run: "crun c c' \<Longrightarrow> disciplined R L c \<Longrightarrow> disciplined R L c'"
proof (induction rule: crun.induct)
  case (more c' i c'')
  then show ?case by (cases c'; cases c'') (auto dest: disciplined_step)
qed

end
