(* ===== verification/Steps_Progress.thy ===== *)
theory Steps_Progress
  imports Steps_Interleaving
begin

text \<open>
  Goroutines that keep the discipline of mutexes come to an end: there is no infinite interleaving,
  since every step replaces a program by what is left of it, and some goroutine can always go on, since
  one that holds a mutex waits for nothing. A goroutine that is not interrupted does what its program
  does alone.
\<close>

section \<open>No infinite interleaving\<close>

inductive rest :: "('s, 'e, 'a) steps \<Rightarrow> ('s, 'e, 'a) steps \<Rightarrow> bool" where
  "rest (fst (k s)) (OnStore k)"
| "rest (fst (ke e)) (OnEnv ke)"
| "rest (kt l) (Table d kt)"
| "rest m (Lock l m)"
| "rest m (Unlock l m)"

lemma rest_Done [simp]: "\<not> rest m (Done r)"
  by (auto elim: rest.cases)

lemma wfP_rest: "wf {(m', m :: ('s, 'e, 'a) steps). rest m' m}"
proof (rule wfUNIVI)
  fix P :: "('s, 'e, 'a) steps \<Rightarrow> bool" and m
  assume "\<forall>m. (\<forall>m'. (m', m) \<in> {(m', m). rest m' m} \<longrightarrow> P m') \<longrightarrow> P m"
  then have step: "(\<And>m'. rest m' m \<Longrightarrow> P m') \<Longrightarrow> P m" for m by blast
  show "P m" by (induction m rule: steps_induct) (rule step, (erule rest.cases; simp))+
qed

lemma cstep_rest: "cstep i (w, ms, hs) (w', ms', hs') \<Longrightarrow> i < length ms \<and> (\<exists>m. rest m (ms ! i) \<and> ms' = ms[i := m])"
proof (erule cstep.cases, goal_cases)
  case (1 ms k w m s hs)
  then show ?case using rest.intros(1) [of k "w_store w"] by auto
next
  case (2 ms k w m e hs)
  then show ?case using rest.intros(2) [of k "w_env w"] by auto
qed (auto intro: rest.intros)

lemma mset_update_mult1:
  assumes "i < length ms" and "(m, ms ! i) \<in> r"
  shows "(mset (ms[i := m]), mset ms) \<in> mult1 r"
proof -
  have "mset ms = add_mset (ms ! i) (mset ms - {#ms ! i#})" using assms(1) by simp
  moreover have "mset (ms[i := m]) = (mset ms - {#ms ! i#}) + {#m#}" using assms(1) by (simp add: mset_update)
  ultimately show ?thesis using assms(2) unfolding mult1_def by (auto intro!: exI [of _ "ms ! i"])
qed

lemma wf_cstep: "wf {(c', c :: ('s, 'e, 'a) configuration). \<exists>i. cstep i c c'}"
proof (rule wf_subset)
  show "wf (inv_image (mult1 {(m', m). rest m' m}) (\<lambda>(w, ms, hs). mset ms))"
    by (intro wf_inv_image wf_mult1 wfP_rest)
  show "{(c', c :: ('s, 'e, 'a) configuration). \<exists>i. cstep i c c'} \<subseteq> inv_image (mult1 {(m', m). rest m' m}) (\<lambda>(w, ms, hs). mset ms)"
    by (auto dest!: cstep_rest intro!: mset_update_mult1)
qed

section \<open>Progress\<close>

lemma cstep_ready:
  assumes "i < length ms" and "\<And>r. ms ! i \<noteq> Done r"
    and "\<And>l m. ms ! i = Lock l m \<Longrightarrow> l \<notin> w_held w"
  shows "\<exists>c'. cstep i (w, ms, hs) c'"
proof (cases "ms ! i")
  case (OnStore k)
  obtain m s where "k (w_store w) = (m, s)" by fastforce
  from cstep.store [OF assms(1) OnStore this] show ?thesis by blast
next
  case (OnEnv k)
  obtain m e where "k (w_env w) = (m, e)" by fastforce
  from cstep.env [OF assms(1) OnEnv this] show ?thesis by blast
next
  case (Table d k)
  obtain l w' where "deviceLock d w = (l, w')" by fastforce
  from cstep.table [OF assms(1) Table this] show ?thesis by blast
next
  case (Lock l m)
  with assms(3) have "mutex_Lock l w = (Inr (), w\<lparr>w_held := insert l (w_held w)\<rparr>)" by (simp add: mutex_Lock_Inr)
  from cstep.lock [OF assms(1) Lock this] show ?thesis by blast
next
  case (Unlock l m)
  from cstep.unlock [OF assms(1) Unlock] show ?thesis by blast
qed (use assms(2) in simp)

lemma disciplined_progress:
  assumes inv: "disciplined R L (w, ms, hs)" and "\<not> finished ms"
  shows "\<exists>i c'. cstep i (w, ms, hs) c'"
proof (cases "w_held w = {}")
  case True
  from assms(2) obtain i where "i < length ms" "\<And>r. ms ! i \<noteq> Done r"
    by (auto simp: finished_def in_set_conv_nth)
  with cstep_ready [of i ms w hs] True show ?thesis by blast
next
  case False
  with inv obtain i l d where i: "i < length ms" "hs ! i = Held l d"
    unfolding disciplined_def prod.case by blast
  with disciplined_obeys [OF inv, of i] have "ms ! i \<noteq> Done r" "ms ! i \<noteq> Lock l' m" for r l' m by auto
  with cstep_ready [of i ms w hs] i show ?thesis by blast
qed

lemma disciplined_finished:
  assumes inv: "disciplined R L (w, ms, hs)" and "finished ms"
  shows "w_held w = {}"
proof -
  have "hs ! i = Free" if i: "i < length ms" for i
  proof -
    from assms(2) i obtain r where "ms ! i = Done r" unfolding finished_def by (meson nth_mem)
    with disciplined_obeys [OF inv i] show ?thesis by auto
  qed
  with inv show ?thesis by (auto simp: disciplined_def)
qed

lemma disciplined_can_finish:
  "disciplined R L c \<Longrightarrow> \<exists>w' ms' hs'. crun c (w', ms', hs') \<and> finished ms' \<and> w_held w' = {}"
proof (induction c rule: wf_induct_rule [OF wf_cstep])
  case (1 c)
  obtain w ms hs where c: "c = (w, ms, hs)" by (cases c)
  show ?case
  proof (cases "finished ms")
    case True
    with 1(2) disciplined_finished crun.none c show ?thesis by blast
  next
    case False
    with disciplined_progress 1(2) c obtain i c' where step: "cstep i c c'" by blast
    with 1(2) have "disciplined R L c'" using disciplined_run crun.more crun.none by blast
    with 1(1) step crun_first [OF step] show ?thesis by blast
  qed
qed

text \<open>The goroutines stay the same ones, and one that has returned stays so.\<close>

lemma crun_length: "crun c c' \<Longrightarrow> length (fst (snd c')) = length (fst (snd c))"
proof (induction rule: crun.induct)
  case (more c' i c'')
  then show ?case by (cases c'; cases c'') (auto dest: cstep_rest)
qed simp

lemma crun_done: "crun c c' \<Longrightarrow> fst (snd c) ! a = Done r \<Longrightarrow> fst (snd c') ! a = Done r"
proof (induction rule: crun.induct)
  case (more c' i c'')
  obtain w ms hs where c': "c' = (w, ms, hs)" by (cases c')
  obtain w' ms' hs' where c'': "c'' = (w', ms', hs')" by (cases c'')
  from cstep_rest [OF more.hyps(2) [unfolded c' c'']] more.IH more.prems show ?case
    by (auto simp: c' c'' nth_list_update)
qed simp

section \<open>A goroutine that is not interrupted\<close>

lemma bindS_Done: "bindS m Done = m"
  by (induction m rule: steps_induct) (simp_all add: fun_eq_iff prod_eq_iff)

text \<open>Goroutine \<open>i\<close> runs the first part of its program, up to the continuation \<open>f\<close>.\<close>

lemma crun_uninterrupted:
  assumes "alone m w = (r, w')" and "r \<noteq> Inl deadlock" and "i < length ms" and "ms ! i = bindS m f"
  shows "\<exists>hs'. length hs' = length hs \<and> crun (w, ms, hs) (w', ms[i := f r], hs')"
  using assms
proof (induction m arbitrary: w ms hs rule: steps_induct)
  case (Done r0)
  then have "ms[i := f r] = ms" by (metis (no_types, lifting) alone.simps(1) bindS.simps(1) list_update_id old.prod.inject)
  with Done show ?case using crun.none by fastforce
next
  case (OnStore k)
  let ?m = "fst (k (w_store w))" and ?w = "w\<lparr>w_store := snd (k (w_store w))\<rparr>"
  have "cstep i (w, ms, hs) (?w, ms[i := bindS ?m f], hs)"
    using OnStore.prems by (intro cstep.store) (auto simp: map_prod_def case_prod_beta)
  moreover have "\<exists>hs'. length hs' = length hs \<and> crun (?w, ms[i := bindS ?m f], hs) (w', ms[i := f r], hs')"
    using OnStore.IH [of "w_store w" ?w "ms[i := bindS ?m f]" hs] OnStore.prems by simp
  ultimately show ?case using crun_first by blast
next
  case (OnEnv k)
  let ?m = "fst (k (w_env w))" and ?w = "w\<lparr>w_env := snd (k (w_env w))\<rparr>"
  have "cstep i (w, ms, hs) (?w, ms[i := bindS ?m f], hs)"
    using OnEnv.prems by (intro cstep.env) (auto simp: map_prod_def case_prod_beta)
  moreover have "\<exists>hs'. length hs' = length hs \<and> crun (?w, ms[i := bindS ?m f], hs) (w', ms[i := f r], hs')"
    using OnEnv.IH [of "w_env w" ?w "ms[i := bindS ?m f]" hs] OnEnv.prems by simp
  ultimately show ?case using crun_first by blast
next
  case (Table d k)
  let ?l = "fst (deviceLock d w)" and ?w = "snd (deviceLock d w)" and ?hs = "hs[i := Got (fst (deviceLock d w)) d]"
  have "cstep i (w, ms, hs) (?w, ms[i := bindS (k ?l) f], ?hs)"
    using Table.prems cstep.table [of i ms d "\<lambda>l. bindS (k l) f" w ?l ?w hs] by simp
  moreover have "\<exists>hs'. length hs' = length ?hs \<and> crun (?w, ms[i := bindS (k ?l) f], ?hs) (w', ms[i := f r], hs')"
    using Table.IH [of ?l ?w "ms[i := bindS (k ?l) f]" ?hs] Table.prems by (simp add: case_prod_beta)
  ultimately show ?case using crun_first by fastforce
next
  case (Lock l m)
  let ?hs = "hs[i := take_mutex l (hs ! i)]"
  from Lock.prems obtain w1 where w1: "mutex_Lock l w = (Inr (), w1)" "alone m w1 = (r, w')"
    by (auto simp: mutex_Lock_def split: if_splits)
  have "cstep i (w, ms, hs) (w1, ms[i := bindS m f], ?hs)"
    using Lock.prems w1 by (intro cstep.lock) auto
  moreover have "\<exists>hs'. length hs' = length ?hs \<and> crun (w1, ms[i := bindS m f], ?hs) (w', ms[i := f r], hs')"
    using Lock.IH [of w1 "ms[i := bindS m f]" ?hs] Lock.prems w1 by simp
  ultimately show ?case using crun_first by fastforce
next
  case (Unlock l m)
  let ?hs = "hs[i := Free]"
  have "cstep i (w, ms, hs) (mutex_Unlock l w, ms[i := bindS m f], ?hs)"
    using Unlock.prems by (intro cstep.unlock) auto
  moreover have "\<exists>hs'. length hs' = length ?hs \<and> crun (mutex_Unlock l w, ms[i := bindS m f], ?hs) (w', ms[i := f r], hs')"
    using Unlock.IH [of "mutex_Unlock l w" "ms[i := bindS m f]" ?hs] Unlock.prems by simp
  ultimately show ?case using crun_first by fastforce
qed

lemma crun_to_end:
  assumes "alone m w = (r, w')" and "r \<noteq> Inl deadlock" and "i < length ms" and "ms ! i = m"
  shows "\<exists>hs'. length hs' = length hs \<and> crun (w, ms, hs) (w', ms[i := Done r], hs')"
  using crun_uninterrupted [of m w r w' i ms Done hs] assms by (simp add: bindS_Done)

end
