(* ===== verification/Manager_Goroutines.thy ===== *)
theory Manager_Goroutines
  imports Manager_Alone Steps_Progress
begin

text \<open>
  The manager's calls keep the discipline of mutexes: each takes the mutex of one device at a time and
  releases it. What the calls do to the store is described by two relations between abstract stores: one
  for what they do without a mutex, one for what they do under the mutex of a device (the locale
  \<open>guarded_calls\<close>). The instances say that sessions and identity keys of a device change under its
  mutex only, and that without a trust callback no interleaving of calls changes a trust decision.
\<close>

section \<open>Store steps\<close>

definition kept :: "('s \<Rightarrow> bool) \<Rightarrow> ('s \<Rightarrow> 'b) \<Rightarrow> ('b \<Rightarrow> 'b \<Rightarrow> bool) \<Rightarrow> 's \<Rightarrow> 's \<Rightarrow> bool" where
  "kept invar alpha R s s' \<longleftrightarrow> (invar s \<longrightarrow> invar s' \<and> R (alpha s) (alpha s'))"

lemma op_spec_kept:
  assumes "op_spec invar alpha m T" and "\<And>a. R a a" and "\<And>a x a'. T a x a' \<Longrightarrow> R a a'"
  shows "kept invar alpha R s (snd (m s))"
  unfolding kept_def
proof
  assume "invar s"
  from op_specD [OF assms(1) this] show "invar (snd (m s)) \<and> R (alpha s) (alpha (snd (m s)))"
    using assms(2,3) by (auto simp: wp_def split: prod.splits sum.splits)
qed

section \<open>What calls do with and without a mutex\<close>

text \<open>
  \<open>T\<close> says whether the application's own trust decisions are among the changes allowed, \<open>V\<close> whether
  those of a trust callback are, \<open>G\<close> whether new one-time prekeys are.
\<close>

fun generates :: "call \<Rightarrow> bool" where
  "generates (CallGenerate n) = True"
| "generates c = False"

locale guarded_calls = omemo_store S invar alpha
  for S :: "'s Store" and invar :: "'s \<Rightarrow> bool" and alpha :: "'s \<Rightarrow> astore" +
  fixes R :: "astore \<Rightarrow> astore \<Rightarrow> bool" and L :: "Device \<Rightarrow> astore \<Rightarrow> astore \<Rightarrow> bool" and T V G :: bool
  assumes R_refl: "R a a" and L_refl: "L d a a"
    and R_free: "R a (rotate_spk r a)" "R a (a\<lparr>a_devices := h\<rparr>)"
    and R_generate: "G \<Longrightarrow> R a (a\<lparr>a_preKeys := f\<rparr>)" "G \<Longrightarrow> a'\<lparr>a_issued := a_issued a\<rparr> = a \<Longrightarrow> R a a'"
    and R_trust: "T \<Longrightarrow> R a (a\<lparr>a_trust := g\<rparr>)"
    and L_held: "L d a (a\<lparr>a_sessions := (a_sessions a)(d := x)\<rparr>)" "L d a (a\<lparr>a_remoteID := (a_remoteID a)(d := x)\<rparr>)"
      "L d a (a\<lparr>a_preKeys := (a_preKeys a)(i := None)\<rparr>)"
    and L_trust: "V \<Longrightarrow> L d a (a\<lparr>a_trust := g\<rparr>)"
begin

definition free_step :: "'s \<Rightarrow> 's \<Rightarrow> bool" where
  "free_step = kept invar alpha R"

definition held_step :: "Device \<Rightarrow> 's \<Rightarrow> 's \<Rightarrow> bool" where
  "held_step d = kept invar alpha (L d)"

lemma free_stores [obeys_intros]:
  "obeys free_step held_step Free (storeS (CurrentSignedPreKey S))"
  "obeys free_step held_step Free (storeS (PreKeys S))"
  "obeys free_step held_step Free (storeS (PreKeyCount S))"
  "G \<Longrightarrow> obeys free_step held_step Free (storeS (NextPreKeyID S))"
  "G \<Longrightarrow> obeys free_step held_step Free (storeS (PutPreKeys S rs))"
  "obeys free_step held_step Free (storeS (RotateSignedPreKey S r))"
  "obeys free_step held_step Free (storeS (Devices S j))"
  "obeys free_step held_step Free (storeS (SetDevices S j ds))"
  "T \<Longrightarrow> obeys free_step held_step Free (storeS (SetTrust S k t))"
  unfolding free_step_def
  by (rule obeys_storeS, rule op_spec_kept [OF CurrentSignedPreKey_spec] op_spec_kept [OF PreKeys_spec]
      op_spec_kept [OF PreKeyCount_spec] op_spec_kept [OF NextPreKeyID_frame] op_spec_kept [OF PutPreKeys_spec]
      op_spec_kept [OF RotateSignedPreKey_spec] op_spec_kept [OF Devices_spec] op_spec_kept [OF SetDevices_spec]
      op_spec_kept [OF SetTrust_spec], auto intro: R_refl R_free R_generate R_trust)+

lemma held_stores [within_intros]:
  "within (held_step d) (storeS (CurrentSignedPreKey S))"
  "within (held_step d) (storeS (StaleSignedPreKey S))"
  "within (held_step d) (storeS (ConsumePreKey S i))"
  "within (held_step d) (storeS (Session S d'))"
  "within (held_step d) (storeS (PutSession S d x))"
  "within (held_step d) (storeS (DeleteSession S d))"
  "within (held_step d) (storeS (RemoteIdentityKey S d'))"
  "within (held_step d) (storeS (PutRemoteIdentityKey S d k))"
  "within (held_step d) (storeS (Trust S k))"
  "V \<Longrightarrow> within (held_step d) (storeS (SetTrust S k t))"
  unfolding held_step_def
  by (rule within_storeS, rule op_spec_kept [OF CurrentSignedPreKey_spec] op_spec_kept [OF StaleSignedPreKey_spec]
      op_spec_kept [OF ConsumePreKey_spec] op_spec_kept [OF Session_spec] op_spec_kept [OF PutSession_spec]
      op_spec_kept [OF DeleteSession_spec] op_spec_kept [OF RemoteIdentityKey_spec] op_spec_kept [OF PutRemoteIdentityKey_spec]
      op_spec_kept [OF Trust_spec] op_spec_kept [OF SetTrust_spec], auto intro: L_refl L_held L_trust)+

lemma checkTrustS_held [within_intros]:
  assumes M: "m_store M = S" and V: "V \<or> m_trustResolver M = None"
  shows "within (held_step d) (checkTrustS M dev k)"
  unfolding checkTrustS_def M by (intro within_intros) (use V in auto)

lemma bodies_held [within_intros]:
  assumes M: "m_store M = S"
  shows "within (held_step d) (putSessionS B M d sess)"
    and "within (held_step d) (getOrCreateActiveSessionS B M d)"
    and "within (held_step d) (signedPreKeyByIDS M i)"
  unfolding putSessionS_def getOrCreateActiveSessionS_def signedPreKeyByIDS_def M
  by (intro within_intros)+

lemma incoming_held [within_intros]:
  assumes M: "m_store M = S"
  shows "within (held_step d) (getOrCreateSessionForIncomingS B M d key)"
  unfolding getOrCreateSessionForIncomingS_def by (simp only: M, intro within_intros M)

lemma encryptForDeviceS_obeys [obeys_intros]:
  assumes M: "m_store M = S" and V: "V \<or> m_trustResolver M = None"
  shows "obeys free_step held_step Free (encryptForDeviceS B M dev km)"
  unfolding encryptForDeviceS_def M by (intro obeys_intros within_intros M V)

lemma encryptLoopS_obeys [obeys_intros]:
  assumes M: "m_store M = S" and V: "V \<or> m_trustResolver M = None"
  shows "obeys free_step held_step Free (encryptLoopS B M km devs keys errs)"
proof (induction devs arbitrary: keys errs)
  case Nil
  show ?case unfolding encryptLoopS.simps by (intro obeys_intros)
next
  case (Cons dev devs)
  show ?case unfolding encryptLoopS.simps by (intro obeys_intros M V Cons.IH)
qed

lemma lists_obey [obeys_intros]:
  assumes M: "m_store M = S"
  shows "obeys free_step held_step Free (SyncDevicesS M jid)"
    and "obeys free_step held_step Free (devicesForS M jid)"
    and "obeys free_step held_step Free (recipientDevicesS M jid)"
  unfolding recipientDevicesS_def devicesForS_def SyncDevicesS_def M Let_def by (intro obeys_intros)+

lemma encryptS_obeys:
  assumes M: "m_store M = S" and V: "V \<or> m_trustResolver M = None"
  shows "obeys free_step held_step Free (encryptS B M jid pt)"
  unfolding encryptS_def Let_def by (intro obeys_intros M V)

lemma DecryptMessageS_obeys:
  assumes M: "m_store M = S"
  shows "obeys free_step held_step Free (DecryptMessageS B M msg)"
  unfolding DecryptMessageS_def by (intro obeys_intros within_intros M)

lemma generateLoopS_obeys [obeys_intros]:
  assumes G: G
  shows "obeys free_step held_step Free (generateLoopS B S k recs)"
proof (induction k arbitrary: recs)
  case 0
  show ?case unfolding generateLoopS.simps by (intro obeys_intros)
next
  case (Suc k)
  show ?case unfolding generateLoopS.simps by (intro obeys_intros Suc.IH G)
qed

lemma generateOneTimePreKeysS_obeys: "G \<Longrightarrow> obeys free_step held_step Free (generateOneTimePreKeysS B S n)"
  unfolding generateOneTimePreKeysS_def by (intro obeys_intros | assumption)+

lemma prekey_calls_obey [obeys_intros]:
  assumes M: "m_store M = S"
  shows "obeys free_step held_step Free (RotateSignedPreKeyS B M)"
    and "obeys free_step held_step Free (BundleS B M)"
    and "obeys free_step held_step Free (PublishBundleS B M)"
    and "obeys free_step held_step Free (NeedsMorePreKeysS M)"
    and "obeys free_step held_step Free (ResetSessionS M dev)"
  unfolding RotateSignedPreKeyS_def nextSignedPreKeyIDS_def PublishBundleS_def
    BundleS_def NeedsMorePreKeysS_def ResetSessionS_def M Let_def
  by (intro obeys_intros within_intros)+

lemma call_obeys:
  assumes M: "m_store M = S" and T: "T \<or> decides_no_trust c" and V: "V \<or> m_trustResolver M = None"
    and G: "G \<or> \<not> generates c"
  shows "obeys free_step held_step Free (call_steps B M c)"
  using T G
  by (cases c) (auto simp: result_def M intro!: obeys_intros encryptS_obeys [OF M V] DecryptMessageS_obeys [OF M]
      prekey_calls_obey [OF M, unfolded M] generateOneTimePreKeysS_obeys lists_obey [OF M])

text \<open>Goroutines that make calls, and what one step of one of them does.\<close>

lemma calls_disciplined:
  assumes "m_store M = S" and "table_ok w" and "w_held w = {}"
    and "\<And>c. c \<in> set cs \<Longrightarrow> T \<or> decides_no_trust c" and "V \<or> m_trustResolver M = None"
    and "\<And>c. c \<in> set cs \<Longrightarrow> G \<or> \<not> generates c"
  shows "disciplined free_step held_step (launch w (map (call_steps B M) cs))"
  using assms(2,3) call_obeys [OF assms(1) assms(4) assms(5) assms(6)] by (intro disciplined_launch) auto

lemma run_invar:
  assumes "disciplined free_step held_step c" and "crun c (w', ms', hs')" and "invar (w_store (fst c))"
  shows "invar (w_store w')"
  using assms(2,1,3)
proof (induction "(w', ms', hs')" arbitrary: w' ms' hs' rule: crun.induct)
  case (more c' i)
  obtain w ms hs where c': "c' = (w, ms, hs)" by (cases c')
  from more c' have w: "invar (w_store w)" "disciplined free_step held_step (w, ms, hs)"
    using disciplined_run by blast+
  have "invar s'" if "permits free_step held_step h (w_store w) s'" for h s'
    using that w(1) by (cases h) (auto simp: free_step_def held_step_def kept_def)
  with disciplined_step [OF more.hyps(3) [unfolded c'] w(2)] w(1) show ?case by metis
qed simp

end

section \<open>The store in memory\<close>

text \<open>Sessions and identity keys: not touched without a mutex, and only those of \<open>d\<close> under the mutex of \<open>d\<close>.\<close>

definition contacts_same :: "astore \<Rightarrow> astore \<Rightarrow> bool" where
  "contacts_same a a' \<longleftrightarrow> a_sessions a' = a_sessions a \<and> a_remoteID a' = a_remoteID a"

definition contacts_but :: "Device \<Rightarrow> astore \<Rightarrow> astore \<Rightarrow> bool" where
  "contacts_but d a a' \<longleftrightarrow> (\<forall>d'. d' \<noteq> d \<longrightarrow> a_sessions a' d' = a_sessions a d' \<and> a_remoteID a' d' = a_remoteID a d')"

definition trust_same :: "astore \<Rightarrow> astore \<Rightarrow> bool" where
  "trust_same a a' \<longleftrightarrow> a_trust a' = a_trust a"

lemma issued_only: "a'\<lparr>a_issued := a_issued a\<rparr> = a \<Longrightarrow> \<exists>X. a' = a\<lparr>a_issued := X\<rparr>"
  by (rule exI [of _ "a_issued a'"]) (cases a; cases a'; simp)

interpretation guard: guarded_calls MemStore_Store ms_inv ms_abs contacts_same contacts_but True True True
  by unfold_locales (auto simp: contacts_same_def contacts_but_def rotate_spk_def dest!: issued_only)

interpretation decide: guarded_calls MemStore_Store ms_inv ms_abs trust_same "\<lambda>_. trust_same" False False True
  by unfold_locales (auto simp: trust_same_def rotate_spk_def dest!: issued_only)

end
