(* ===== verification/Manager_Pool.thy ===== *)
theory Manager_Pool
  imports Manager_Goroutines Backend_Laws
begin

text \<open>
  One-time prekeys under concurrency. Goroutines under the mutexes of different devices take prekeys
  from one pool. A program \<open>spares\<close> an identifier when it never puts it back into the pool (its own new
  prekeys get other identifiers), and \<open>spends\<close> it when it cannot return a value without having taken it
  out. Of two goroutines that spend the same identifier at most one returns a value.
\<close>

section \<open>Programs that put no spent identifier back\<close>

definition pool_kept :: "uint32 \<Rightarrow> astore \<Rightarrow> astore \<Rightarrow> bool" where
  "pool_kept i a a' \<longleftrightarrow> i \<in> a_issued a' \<and> (a_preKeys a i = None \<longrightarrow> a_preKeys a' i = None)"

text \<open>\<open>n\<close> bounds the identifiers the program still allocates, which may not wrap around.\<close>

inductive spares :: "('s \<Rightarrow> bool) \<Rightarrow> ('s \<Rightarrow> astore) \<Rightarrow> uint32 \<Rightarrow> nat \<Rightarrow> ('s, 'e, 'a) steps \<Rightarrow> bool"
  for invar alpha i where
  Done: "spares invar alpha i n (Done r)"
| OnStore: "(\<And>s. invar s \<Longrightarrow> i \<in> a_issued (alpha s) \<Longrightarrow> card (a_issued (alpha s)) + n < 2 ^ 32 \<Longrightarrow>
       invar (snd (k s)) \<and> pool_kept i (alpha s) (alpha (snd (k s))) \<and>
       (\<exists>n'. spares invar alpha i n' (fst (k s)) \<and>
          card (a_issued (alpha (snd (k s)))) + n' \<le> card (a_issued (alpha s)) + n)) \<Longrightarrow>
     spares invar alpha i n (OnStore k)"
| OnEnv: "(\<And>e. spares invar alpha i n (fst (k e))) \<Longrightarrow> spares invar alpha i n (OnEnv k)"
| Table: "(\<And>l. spares invar alpha i n (kt l)) \<Longrightarrow> spares invar alpha i n (Table d kt)"
| Lock: "spares invar alpha i n m \<Longrightarrow> spares invar alpha i n (Lock l m)"
| Unlock: "spares invar alpha i n m \<Longrightarrow> spares invar alpha i n (Unlock l m)"

inductive_cases sparesE: "spares invar alpha i n (OnStore k)" "spares invar alpha i n (OnEnv k)"
  "spares invar alpha i n (Table d kt)" "spares invar alpha i n (Lock l m)" "spares invar alpha i n (Unlock l m)"

text \<open>Programs that allocate nothing: a property of their store steps.\<close>

definition pool_same :: "uint32 \<Rightarrow> astore \<Rightarrow> astore \<Rightarrow> bool" where
  "pool_same i a a' \<longleftrightarrow> a_issued a' = a_issued a \<and> (a_preKeys a i = None \<longrightarrow> a_preKeys a' i = None)"

lemma obeys_spares:
  "obeys (kept invar alpha (pool_same i)) (\<lambda>_. kept invar alpha (pool_same i)) h m \<Longrightarrow> spares invar alpha i 0 m"
proof (induction rule: obeys.induct)
  case (OnStore h k)
  have "kept invar alpha (pool_same i) s (snd (k s))" for s
    using OnStore(1) [of s] by (cases h) simp_all
  with OnStore(3) show ?case
    by (intro spares.OnStore) (auto simp: kept_def pool_same_def pool_kept_def intro: exI [of _ 0])
qed (auto intro: spares.intros)

text \<open>An allocation, and what follows it.\<close>

lemma spares_alloc:
  assumes "\<And>s. invar s \<Longrightarrow> i \<in> a_issued (alpha s) \<Longrightarrow> card (a_issued (alpha s)) + n < 2 ^ 32 \<Longrightarrow>
     wp m (\<lambda>x s'. invar s' \<and> pool_kept i (alpha s) (alpha s') \<and> (\<exists>n'. spares invar alpha i n' (f x) \<and>
            card (a_issued (alpha s')) + n' \<le> card (a_issued (alpha s)) + n))
          (\<lambda>e s'. invar s' \<and> pool_kept i (alpha s) (alpha s') \<and> card (a_issued (alpha s')) \<le> card (a_issued (alpha s)) + n) s"
  shows "spares invar alpha i n (andThenS (storeS m) f)"
proof -
  have "spares invar alpha i n (OnStore (\<lambda>s. map_prod (case_sum throwS f) id (m s)))"
  proof (rule spares.OnStore)
    fix s assume s: "invar s" "i \<in> a_issued (alpha s)" "card (a_issued (alpha s)) + n < 2 ^ 32"
    obtain r s' where run: "m s = (r, s')" by fastforce
    have "spares invar alpha i n' (throwS e :: ('a, 'c, 'd) steps)" for n' e
      by (simp add: throwS_def spares.Done)
    with assms [OF s] run show "invar (snd (map_prod (case_sum throwS f) id (m s))) \<and>
       pool_kept i (alpha s) (alpha (snd (map_prod (case_sum throwS f) id (m s)))) \<and>
       (\<exists>n'. spares invar alpha i n' (fst (map_prod (case_sum throwS f) id (m s))) \<and>
          card (a_issued (alpha (snd (map_prod (case_sum throwS f) id (m s))))) + n' \<le> card (a_issued (alpha s)) + n)"
      by (cases r) (auto simp: wp_def intro: exI [of _ 0])
  qed
  moreover have "andThenS (storeS m) f = OnStore (\<lambda>s. map_prod (case_sum throwS f) id (m s))"
    by (simp add: andThenS_def storeS_def fun_eq_iff map_prod_def split: prod.split)
  ultimately show ?thesis by simp
qed

lemma spares_env: "(\<And>x. spares invar alpha i n (f x)) \<Longrightarrow> spares invar alpha i n (andThenS (envS m) f)"
  by (auto simp: andThenS_def envS_def throwS_def intro!: spares.intros split: sum.split)

lemma bindS_assoc: "bindS (bindS m f) g = bindS m (\<lambda>r. bindS (f r) g)"
  by (induction m rule: steps_induct) (simp_all add: fun_eq_iff prod_eq_iff)

lemma andThenS_assoc: "andThenS (andThenS m f) g = andThenS m (\<lambda>x. andThenS (f x) g)"
  unfolding andThenS_def bindS_assoc
  by (rule arg_cong [of _ _ "bindS m"]) (auto simp: fun_eq_iff throwS_def split: sum.split)

lemma storeS_act: "wrapErrS s (storeS m) = storeS (wrapErr s m)" "wrapErrS s (envS me) = envS (wrapErr s me)"
  by (auto simp: wrapErrS_def tryCatchS_def storeS_def envS_def wrapErr_def tryCatch_def retS_def throwS_def
      ret_def throw_def fun_eq_iff map_prod_def split: prod.split sum.split)

lemma case_sum_Done: "case_sum throwS retS = Done"
  by (auto simp: fun_eq_iff throwS_def retS_def split: sum.split)

lemma andThenS_retS: "andThenS m retS = m"
  by (simp add: andThenS_def case_sum_Done bindS_Done)

lemma retS_andThenS: "andThenS (retS x) f = f x"
  by (simp add: andThenS_def retS_def)

lemma spares_bindS: "spares invar alpha i n m \<Longrightarrow> (\<And>r n. spares invar alpha i n (f r)) \<Longrightarrow> spares invar alpha i n (bindS m f)"
proof (induction rule: spares.induct)
  case (OnStore n k)
  show ?case
    unfolding bindS.simps
  proof (rule spares.OnStore)
    fix s assume s: "invar s" "i \<in> a_issued (alpha s)" "card (a_issued (alpha s)) + n < 2 ^ 32"
    from OnStore.IH [OF s] OnStore.prems show "invar (snd (map_prod (\<lambda>m. bindS m f) id (k s))) \<and>
       pool_kept i (alpha s) (alpha (snd (map_prod (\<lambda>m. bindS m f) id (k s)))) \<and>
       (\<exists>n'. spares invar alpha i n' (fst (map_prod (\<lambda>m. bindS m f) id (k s))) \<and>
          card (a_issued (alpha (snd (map_prod (\<lambda>m. bindS m f) id (k s))))) + n' \<le> card (a_issued (alpha s)) + n)"
      by (simp add: map_prod_def case_prod_beta) blast
  qed
qed (auto intro!: spares.intros)

lemma spares_result: "spares invar alpha i n m \<Longrightarrow> spares invar alpha i n (result g m)"
  unfolding result_def andThenS_def
  by (rule spares_bindS) (auto simp: throwS_def retS_def split: sum.split intro: spares.Done)

context omemo_store
begin

lemma generate_spares:
  assumes "i \<notin> pkr_ID ` set recs"
  shows "spares invar alpha i k (andThenS (generateLoopS B S k recs) (\<lambda>recs. storeS (PutPreKeys S recs)))"
  using assms
proof (induction k arbitrary: recs)
  case 0
  show ?case
    unfolding generateLoopS.simps retS_andThenS
  proof (subst andThenS_retS [symmetric], rule spares_alloc, goal_cases)
    case (1 s)
    show ?case
      by (rule wp_mono [OF op_specD [OF PutPreKeys_spec 1(1)]])
        (use 0 1 in \<open>auto simp: pool_kept_def put_recs_other retS_def intro!: spares.Done exI [of _ 0]\<close>)
  qed
next
  case (Suc k)
  show ?case
    unfolding generateLoopS.simps andThenS_assoc storeS_act
  proof (rule spares_alloc, goal_cases)
    case (1 s)
    have card: "card (a_issued (alpha s)) < 2 ^ 32 - 1" using 1(3) by simp
    have fin: "finite (a_issued (alpha s))" by simp
    from card fin show ?case
      unfolding wp_wrapErr
      by (intro wp_mono [OF op_specD [OF NextPreKeyID_spec 1(1)]])
        (use 1 Suc.prems in \<open>auto simp: pool_kept_def case_prod_beta intro!: exI [of _ k] spares_env Suc.IH\<close>)
  qed
qed

text \<open>What a call may allocate.\<close>

lemma generateOneTimePreKeysS_spares:
  "spares invar alpha i (nat n) (result g (generateOneTimePreKeysS B S n))"
  unfolding generateOneTimePreKeysS_def
  by (rule spares_result) (auto simp: throwS_def intro: generate_spares spares.Done)

end

fun allocates :: "call \<Rightarrow> nat" where
  "allocates (CallGenerate n) = nat n"
| "allocates c = 0"

interpretation pool: guarded_calls MemStore_Store ms_inv ms_abs "pool_same i" "\<lambda>_. pool_same i" True True False for i
  by unfold_locales (auto simp: pool_same_def rotate_spk_def)

lemma call_spares:
  assumes "m_store M = MemStore_Store"
  shows "spares ms_inv ms_abs i (allocates c) (call_steps B M c)"
proof (cases "generates c")
  case True
  then obtain n where "c = CallGenerate n" by (cases c) auto
  with assms show ?thesis by (simp add: memstore.generateOneTimePreKeysS_spares)
next
  case False
  with pool.call_obeys [OF assms, where c = c and B = B and i = i] have "spares ms_inv ms_abs i 0 (call_steps B M c)"
    unfolding pool.free_step_def pool.held_step_def by (auto intro: obeys_spares)
  with False show ?thesis by (cases c) simp_all
qed

section \<open>Programs that spend an identifier\<close>

inductive spends :: "('s \<Rightarrow> bool) \<Rightarrow> ('s \<Rightarrow> astore) \<Rightarrow> uint32 \<Rightarrow> ('s, 'e, 'a) steps \<Rightarrow> bool" for invar alpha i where
  Done: "spends invar alpha i (Done (Inl e))"
| OnStore: "(\<And>s. invar s \<Longrightarrow> a_preKeys (alpha s) i \<noteq> None \<and> a_preKeys (alpha (snd (k s))) i = None \<or>
       spends invar alpha i (fst (k s))) \<Longrightarrow> spends invar alpha i (OnStore k)"
| OnEnv: "(\<And>e. spends invar alpha i (fst (k e))) \<Longrightarrow> spends invar alpha i (OnEnv k)"
| Table: "(\<And>l. spends invar alpha i (kt l)) \<Longrightarrow> spends invar alpha i (Table d kt)"
| Lock: "spends invar alpha i m \<Longrightarrow> spends invar alpha i (Lock l m)"
| Unlock: "spends invar alpha i m \<Longrightarrow> spends invar alpha i (Unlock l m)"

inductive_cases spendsE: "spends invar alpha i (Done r)" "spends invar alpha i (OnStore k)" "spends invar alpha i (OnEnv k)"
  "spends invar alpha i (Table d kt)" "spends invar alpha i (Lock l m)" "spends invar alpha i (Unlock l m)"

lemma spends_not_done: "\<not> spends invar alpha i (Done (Inr x))"
  by (auto elim: spendsE)

text \<open>The first part of a program spends it, or whatever follows does.\<close>

lemma spends_first: "spends invar alpha i m \<Longrightarrow> (\<And>e. spends invar alpha i (f (Inl e))) \<Longrightarrow> spends invar alpha i (bindS m f)"
proof (induction rule: spends.induct)
  case (OnStore k)
  show ?case unfolding bindS.simps
  proof (rule spends.OnStore)
    fix s assume "invar s"
    from OnStore.IH [OF this] OnStore.prems
    show "a_preKeys (alpha s) i \<noteq> None \<and> a_preKeys (alpha (snd (map_prod (\<lambda>m. bindS m f) id (k s)))) i = None \<or>
       spends invar alpha i (fst (map_prod (\<lambda>m. bindS m f) id (k s)))"
      by (simp add: map_prod_def case_prod_beta) blast
  qed
qed (auto intro!: spends.intros)

lemma spends_then: "(\<And>r. spends invar alpha i (f r)) \<Longrightarrow> spends invar alpha i (bindS m f)"
  by (induction m rule: steps_induct) (auto intro!: spends.intros)

lemma spends_andThenS:
  "spends invar alpha i m \<Longrightarrow> spends invar alpha i (andThenS m f)"
  "(\<And>x. spends invar alpha i (g x)) \<Longrightarrow> spends invar alpha i (andThenS m' g)"
  unfolding andThenS_def
   apply (rule spends_first, assumption, simp add: throwS_def spends.Done)
  by (rule spends_then) (simp add: throwS_def spends.Done split: sum.split)

lemma spends_wrapErrS: "spends invar alpha i m \<Longrightarrow> spends invar alpha i (wrapErrS s m)"
  unfolding wrapErrS_def tryCatchS_def by (rule spends_first) (auto simp: throwS_def intro: spends.Done)

lemma spends_env:
  assumes "\<And>x. may m x \<Longrightarrow> spends invar alpha i (f x)"
  shows "spends invar alpha i (andThenS (envS m) f)"
  unfolding andThenS_def envS_def bindS.simps
proof (rule spends.OnEnv)
  fix e
  obtain r e' where "m e = (r, e')" by fastforce
  with assms show "spends invar alpha i (fst (map_prod (\<lambda>m. bindS m (case_sum throwS f)) id (map_prod Done id (m e))))"
    by (cases r) (auto simp: throwS_def may_def intro: spends.Done)
qed

lemma spends_lockedS: "spends invar alpha i m \<Longrightarrow> spends invar alpha i (lockedS d m)"
  unfolding lockedS_def by (intro spends.intros spends_first)

context omemo_store
begin

lemma spends_consume: "spends invar alpha i (storeS (ConsumePreKey S i))"
  unfolding storeS_def
proof (rule spends.OnStore)
  fix s assume s: "invar s"
  obtain r s' where run: "ConsumePreKey S i s = (r, s')" by fastforce
  show "a_preKeys (alpha s) i \<noteq> None \<and> a_preKeys (alpha (snd (map_prod Done id (ConsumePreKey S i s)))) i = None \<or>
     spends invar alpha i (fst (map_prod Done id (ConsumePreKey S i s)))"
  proof (cases r)
    case (Inl e)
    with run show ?thesis by (simp add: spends.Done)
  next
    case (Inr x)
    with op_specD [OF ConsumePreKey_spec s, of i] run show ?thesis by (simp add: wp_def)
  qed
qed

end

text \<open>The key of a message that a manager takes for its own carries a key exchange that names prekey \<open>i\<close>.\<close>

definition names_prekey :: "('e, 'dr, 'ls, 'x) backend \<Rightarrow> ('s, 'e) Manager \<Rightarrow> EncryptedMessage \<Rightarrow> uint32 \<Rightarrow> bool" where
  "names_prekey B M msg i \<longleftrightarrow> (\<forall>key. find (\<lambda>k. rk_Device k = dev_ID (m_localDevice M)) (em_Keys msg) = Some key \<longrightarrow>
     (\<exists>kx. rk_KeyExchange key = Some kx \<and>
        (if m_protocol M = ProtocolV1 then \<forall>pm. may (ls_ParsePreKeyMessage B (rk_Data key)) pm \<longrightarrow> pm_PreKeyID pm = i
         else kx_PreKeyID kx = i)))"

lemma DecryptMessageS_spends:
  assumes M: "m_store M = MemStore_Store" and "names_prekey B M msg i"
  shows "spends ms_inv ms_abs i (result Read (DecryptMessageS B M msg))"
proof (cases "find (\<lambda>k. rk_Device k = dev_ID (m_localDevice M)) (em_Keys msg)")
  case None
  then show ?thesis by (simp add: DecryptMessageS_def result_def andThenS_def throwS_def spends.Done)
next
  case (Some key)
  with assms(2) obtain kx where kx: "rk_KeyExchange key = Some kx"
    and i: "if m_protocol M = ProtocolV1 then \<forall>pm. may (ls_ParsePreKeyMessage B (rk_Data key)) pm \<longrightarrow> pm_PreKeyID pm = i
         else kx_PreKeyID kx = i"
    unfolding names_prekey_def by blast
  have consume: "spends ms_inv ms_abs i (andThenS (wrapErrS s (storeS (ConsumePreKey MemStore_Store i))) f)" for s f
    by (intro spends_andThenS(1) spends_wrapErrS memstore.spends_consume)
  have "spends ms_inv ms_abs i (getOrCreateSessionForIncomingS B M (em_Sender msg) key)"
  proof (cases "m_protocol M = ProtocolV1")
    case True
    have id: "\<exists>j. q = (j, i)" if "may (PeekLegacyPreKeyIDs B (rk_Data key)) q" for q
      using that i True unfolding PeekLegacyPreKeyIDs_def by (auto dest!: may_andThenD)
    show ?thesis
      unfolding getOrCreateSessionForIncomingS_def kx option.case if_P [OF True] M
        storeS_act(2) [of "''parsing legacy prekey message''"]
    proof (rule spends_env, unfold may_wrapErr, drule id, elim exE, hypsubst, unfold prod.case)
      show "spends ms_inv ms_abs i (andThenS (signedPreKeyByIDS M j) (\<lambda>spk.
          andThenS (wrapErrS s (storeS (ConsumePreKey MemStore_Store i))) (f spk)))" for j s f
        by (intro spends_andThenS(2) consume)
    qed
  next
    case False
    with i have "kx_PreKeyID kx = i" by simp
    with False show ?thesis
      unfolding getOrCreateSessionForIncomingS_def kx M
      by (simp del: MemStore_Store_simps, intro spends_andThenS(2) consume)
  qed
  then show ?thesis
    unfolding DecryptMessageS_def Some option.case result_def
    by (intro spends_andThenS(1) spends_lockedS spends_wrapErrS)
qed

section \<open>In every interleaving\<close>

definition pool_ready ::
  "('s \<Rightarrow> bool) \<Rightarrow> ('s \<Rightarrow> astore) \<Rightarrow> uint32 \<Rightarrow> ('s, 'e) world \<Rightarrow> ('s, 'e, 'a) steps list \<Rightarrow> bool" where
  "pool_ready invar alpha i w ms \<longleftrightarrow> invar (w_store w) \<and> i \<in> a_issued (alpha (w_store w)) \<and>
     (\<exists>ns. length ns = length ms \<and> (\<forall>j < length ms. spares invar alpha i (ns ! j) (ms ! j)) \<and>
        card (a_issued (alpha (w_store w))) + sum_list ns < 2 ^ 32)"

lemma sum_list_update_le: "j < length ns \<Longrightarrow> a + n' \<le> b + ns ! j \<Longrightarrow> a + sum_list (ns[j := n']) \<le> b + sum_list (ns :: nat list)"
proof -
  assume j: "j < length ns" and le: "a + n' \<le> b + ns ! j"
  have "sum_list (ns[j := n']) + ns ! j = sum_list ns + n'"
    using j by (induction ns arbitrary: j) (auto split: nat.split)
  with le show ?thesis by linarith
qed

lemma sum_list_nth_le: "j < length ns \<Longrightarrow> ns ! j \<le> sum_list (ns :: nat list)"
  by (induction ns arbitrary: j) (auto simp: nth_Cons split: nat.split intro: trans_le_add2)

lemma pool_ready_update:
  assumes ns: "length ns = length ms" "\<And>k. k < length ms \<Longrightarrow> spares invar alpha i (ns ! k) (ms ! k)"
      "c + sum_list ns < 2 ^ 32"
    and "j < length ms" "spares invar alpha i n m" "invar (w_store w)" "i \<in> a_issued (alpha (w_store w))"
      "card (a_issued (alpha (w_store w))) + n \<le> c + ns ! j"
  shows "pool_ready invar alpha i w (ms[j := m])"
proof -
  have "spares invar alpha i (ns[j := n] ! k) (ms[j := m] ! k)" if "k < length ms" for k
    using that ns(1,2) \<open>spares invar alpha i n m\<close> by (cases "k = j") simp_all
  moreover have "card (a_issued (alpha (w_store w))) + sum_list (ns[j := n]) < 2 ^ 32"
    using sum_list_update_le [of j ns _ n c] assms by fastforce
  ultimately show ?thesis
    unfolding pool_ready_def using assms by (intro conjI exI [of _ "ns[j := n]"]) simp_all
qed

lemma pool_ready_step:
  assumes "cstep j (w, ms, hs) (w', ms', hs')" and ready: "pool_ready invar alpha i w ms"
  shows "pool_ready invar alpha i w' ms' \<and> pool_kept i (alpha (w_store w)) (alpha (w_store w'))"
proof -
  from ready obtain ns where ns: "length ns = length ms" "\<And>j. j < length ms \<Longrightarrow> spares invar alpha i (ns ! j) (ms ! j)"
    "card (a_issued (alpha (w_store w))) + sum_list ns < 2 ^ 32"
    and w: "invar (w_store w)" "i \<in> a_issued (alpha (w_store w))"
    unfolding pool_ready_def by blast
  have next_ready: "pool_ready invar alpha i w2 (ms[j := m])"
    if "j < length ms" "spares invar alpha i n' m" "invar (w_store w2)" "i \<in> a_issued (alpha (w_store w2))"
      "card (a_issued (alpha (w_store w2))) + n' \<le> card (a_issued (alpha (w_store w))) + ns ! j" for w2 m n'
    using ns that by (rule pool_ready_update)
  have keep: "pool_ready invar alpha i w2 (ms[j := m]) \<and> pool_kept i (alpha (w_store w)) (alpha (w_store w2))"
    if "j < length ms" "spares invar alpha i (ns ! j) m" "w_store w2 = w_store w" for w2 m
    using next_ready [OF that(1,2)] that(3) w by (simp add: pool_kept_def)
  show ?thesis
    using assms(1)
  proof (cases rule: cstep.cases)
    case (store k m s)
    have le: "card (a_issued (alpha (w_store w))) + ns ! j < 2 ^ 32"
      using sum_list_nth_le [of j ns] ns(1,3) store by simp
    from ns(2) [OF store(4)] store(5) have "spares invar alpha i (ns ! j) (OnStore k)" by simp
    then obtain n' where "invar s" "pool_kept i (alpha (w_store w)) (alpha s)" "spares invar alpha i n' m"
      "card (a_issued (alpha s)) + n' \<le> card (a_issued (alpha (w_store w))) + ns ! j"
      using w le store(6) by (auto elim!: sparesE(1))
    with next_ready [OF store(4), of n' m w'] store show ?thesis by (simp add: pool_kept_def)
  next
    case (env k m e)
    from ns(2) [OF env(4)] env(5,6) have "spares invar alpha i (ns ! j) m" by (auto elim!: sparesE(2) dest: spec [of _ "w_env w"])
    with keep [OF env(4), of m w'] env show ?thesis by simp
  next
    case (table d k l)
    from ns(2) [OF table(3)] table(4) have "spares invar alpha i (ns ! j) (k l)" by (auto elim!: sparesE(3))
    moreover have "w_store w' = w_store w" using deviceLock_frame(1) [of d w] table(5) by simp
    ultimately show ?thesis using keep [OF table(3), of "k l" w'] table by simp
  next
    case (lock l m)
    from ns(2) [OF lock(3)] lock(4) have "spares invar alpha i (ns ! j) m" by (auto elim!: sparesE(4))
    with keep [OF lock(3), of m w'] lock show ?thesis by (simp add: mutex_Lock_Inr)
  next
    case (unlock l m)
    from ns(2) [OF unlock(4)] unlock(5) have "spares invar alpha i (ns ! j) m" by (auto elim!: sparesE(5))
    with keep [OF unlock(4), of m w'] unlock show ?thesis by simp
  qed
qed

text \<open>A goroutine that spends the identifier still does so after a step, or has taken it out of the pool.\<close>

lemma spends_step:
  assumes "cstep j (w, ms, hs) (w', ms', hs')" and "invar (w_store w)" and "spends invar alpha i (ms ! a)"
  shows "spends invar alpha i (ms' ! a) \<or>
     j = a \<and> a_preKeys (alpha (w_store w)) i \<noteq> None \<and> a_preKeys (alpha (w_store w')) i = None"
proof (cases "j = a")
  case False
  with cstep_rest [OF assms(1)] assms(3) show ?thesis by auto
next
  case True
  show ?thesis
    using assms(1)
  proof (cases rule: cstep.cases)
    case (store k m s)
    with assms(2,3) True show ?thesis by (auto elim!: spendsE(2))
  next
    case (env k m e)
    with assms(3) True show ?thesis by (auto elim!: spendsE(3) dest: spec [of _ "w_env w"])
  qed (use assms(3) True in \<open>auto elim!: spendsE\<close>)
qed

definition one_spends :: "('s \<Rightarrow> bool) \<Rightarrow> ('s \<Rightarrow> astore) \<Rightarrow> uint32 \<Rightarrow> nat \<Rightarrow> nat \<Rightarrow> ('s, 'e) world \<Rightarrow> ('s, 'e, 'a) steps list \<Rightarrow> bool" where
  "one_spends invar alpha i a b w ms \<longleftrightarrow>
     (spends invar alpha i (ms ! a) \<and> spends invar alpha i (ms ! b)) \<or>
     a_preKeys (alpha (w_store w)) i = None \<and> (spends invar alpha i (ms ! a) \<or> spends invar alpha i (ms ! b))"

lemma one_spends_step:
  assumes step: "cstep j (w, ms, hs) (w', ms', hs')" and ready: "pool_ready invar alpha i w ms" and "a \<noteq> b"
    and one: "one_spends invar alpha i a b w ms"
  shows "one_spends invar alpha i a b w' ms'"
proof -
  from ready have inv: "invar (w_store w)" by (simp add: pool_ready_def)
  from pool_ready_step [OF step ready] have "a_preKeys (alpha (w_store w)) i = None \<Longrightarrow> a_preKeys (alpha (w_store w')) i = None"
    by (simp add: pool_kept_def)
  with one \<open>a \<noteq> b\<close> spends_step [OF step, where invar = invar and alpha = alpha and i = i and a = a, OF inv]
    spends_step [OF step, where invar = invar and alpha = alpha and i = i and a = b, OF inv]
  show ?thesis unfolding one_spends_def by metis
qed

lemma spent_once:
  assumes "crun (w, ms, hs) (w', ms', hs')" and "pool_ready invar alpha i w ms" and "a \<noteq> b"
    and "spends invar alpha i (ms ! a)" and "spends invar alpha i (ms ! b)"
    and "ms' ! a = Done (Inr x)"
  shows "ms' ! b \<noteq> Done (Inr y)"
proof -
  have "pool_ready invar alpha i w' ms' \<and> one_spends invar alpha i a b w' ms'"
    using assms(1)
  proof (induction "(w', ms', hs')" arbitrary: w' ms' hs' rule: crun.induct)
    case none
    with assms show ?case by (simp add: one_spends_def)
  next
    case (more c' j)
    obtain w1 ms1 hs1 where c': "c' = (w1, ms1, hs1)" by (cases c')
    from more.hyps(2) [OF c'] have ih: "pool_ready invar alpha i w1 ms1" "one_spends invar alpha i a b w1 ms1" by simp_all
    note step = more.hyps(3) [unfolded c']
    from pool_ready_step [OF step ih(1)] one_spends_step [OF step ih(1) assms(3) ih(2)] show ?case by simp
  qed
  with assms(6) show ?thesis by (auto simp: one_spends_def spends_not_done)
qed

lemma calls_pool_ready:
  assumes "m_store M = MemStore_Store" and "ms_inv (w_store w)" and "i \<in> a_issued (ms_abs (w_store w))"
    and "card (a_issued (ms_abs (w_store w))) + sum_list (map allocates cs) < 2 ^ 32"
  shows "pool_ready ms_inv ms_abs i w (map (call_steps B M) cs)"
  unfolding pool_ready_def
  using assms by (intro conjI exI [of _ "map allocates cs"]) (simp_all add: call_spares)

end
