(* ===== verification/Properties_Goroutines.thy ===== *)
theory Properties_Goroutines
  imports Manager_Pool Properties_PreKeys Properties_Decrypt
begin

text \<open>
  A manager used by several goroutines at once, each in a call of its own, in every interleaving of
  their store calls, environment calls and mutex operations: what the mutexes guard, what stays true of
  prekeys and trust decisions, that all calls come to an end, and two races of calls that are not
  guarded.
\<close>

definition ex_device :: Device where
  "ex_device = \<lparr>dev_JID = ''b'', dev_ID = 1\<rparr>"

lemma ex_table: "table_ok (ex_world jid b)" "w_held (ex_world jid b) = {}"
  by (simp_all add: table_ok_def ex_world_def)

section \<open>Two goroutines\<close>

text \<open>The example message, decrypted by one of two goroutines that both got it.\<close>

definition ex_both :: "call list" where
  "ex_both = [CallDecrypt (ex_msg ProtocolV2), CallDecrypt (ex_msg ProtocolV2)]"

abbreviation ex_b :: "(MemStore, fakeEnv) Manager" where
  "ex_b \<equiv> ex_manager ProtocolV2 ''b'' 2"

lemma ex_decrypt: "make_call stub ex_b (CallDecrypt (ex_msg ProtocolV2)) (ex_world ''b'' 2) =
   (Inr (Read (Some [104, 105])), snd (ex_received ProtocolV2))"
  using ex_received_run by (simp add: act_simps)

section \<open>What the mutexes guard\<close>

lemma crun_disciplined:
  assumes "m_store M = MemStore_Store" and "table_ok w" and "w_held w = {}"
    and "crun (launch w (map (call_steps B M) cs)) c"
  shows "disciplined guard.free_step guard.held_step c"
  using disciplined_run [OF assms(4)] guard.calls_disciplined [OF assms(1-3)] by blast

text \<open>
  C7. Every change of the stored session or identity key of a device, in any interleaving of any calls,
  is made by the goroutine that holds the mutex of that device, and no other goroutine holds it at the
  same time.
\<close>

theorem contacts_guarded:
  assumes "m_store M = MemStore_Store" and "ms_inv (w_store w)" and "table_ok w" and "w_held w = {}"
    and "crun (launch w (map (call_steps B M) cs)) (w1, ms1, hs1)" and "cstep j (w1, ms1, hs1) (w2, ms2, hs2)"
    and "ms_sessions (w_store w2) d \<noteq> ms_sessions (w_store w1) d \<or> ms_remoteID (w_store w2) d \<noteq> ms_remoteID (w_store w1) d"
  shows "(\<exists>l. hs1 ! j = Held l d) \<and> (\<forall>i < length hs1. i \<noteq> j \<longrightarrow> (\<forall>l. hs1 ! i \<noteq> Held l d))"
proof -
  note inv = crun_disciplined [OF assms(1,3,4,5)]
  have w1: "ms_inv (w_store w1)"
    using guard.run_invar [OF guard.calls_disciplined [OF assms(1,3,4)] assms(5)] assms(2) by (simp add: launch_def)
  from disciplined_step [OF assms(6) inv] assms(7) have j: "j < length ms1"
    and p: "permits guard.free_step guard.held_step (hs1 ! j) (w_store w1) (w_store w2)" by auto
  obtain l where "hs1 ! j = Held l d"
  proof (cases "hs1 ! j")
    case (Held l d')
    with p w1 have "contacts_but d' (ms_abs (w_store w1)) (ms_abs (w_store w2))"
      by (simp add: guard.held_step_def kept_def)
    with assms(7) have "d' = d" unfolding contacts_but_def by auto
    with Held that show ?thesis by simp
  qed (use p w1 assms(7) in \<open>auto simp: guard.free_step_def kept_def contacts_same_def\<close>)
  with disciplined_exclusive [OF inv _ j] disciplined_len [OF inv] show ?thesis by auto
qed

text \<open>Resetting the session with \<open>a/1\<close>, step by step.\<close>

definition ex_met :: "(MemStore, fakeEnv) world" where
  "ex_met = (ex_world ''b'' 2)\<lparr>w_store := (ex_store ''b'' 2)\<lparr>ms_sessions := [ex_device \<mapsto> Some [1]]\<rparr>\<rparr>"

lemma ex_met_ok: "ms_inv (w_store ex_met)" "table_ok ex_met" "w_held ex_met = {}"
  by (simp_all add: ex_met_def ex_store_def ms_New_def ms_inv_def ex_world_def table_ok_def)

lemma ex_reset_steps:
  "\<exists>w1 m1 w2 ms2 hs2. crun (launch ex_met (map (call_steps stub ex_b) [CallReset ex_device])) (w1, [m1], [Held 0 ex_device]) \<and>
     cstep 0 (w1, [m1], [Held 0 ex_device]) (w2, ms2, hs2) \<and>
     ms_sessions (w_store w1) ex_device \<noteq> None \<and> ms_sessions (w_store w2) ex_device = None"
proof -
  have "\<exists>k. call_steps stub ex_b (CallReset ex_device) = Table ex_device (\<lambda>l. Lock l (OnStore (k l))) \<and>
      (\<forall>l s. snd (k l s) = snd (ms_DeleteSession ex_device s))"
    unfolding call_steps.simps result_def ResetSessionS_def lockedS_def storeS_act andThenS_def
    unfolding storeS_def bindS.simps
    by (rule exI, rule conjI, rule refl) (simp add: act_simps ms_DeleteSession_def)
  then obtain k where k: "call_steps stub ex_b (CallReset ex_device) = Table ex_device (\<lambda>l. Lock l (OnStore (k l)))"
    "\<And>l s. snd (k l s) = snd (ms_DeleteSession ex_device s)" by blast
  let ?w1 = "ex_met\<lparr>w_locks := [ex_device \<mapsto> 0], w_nextLock := 1\<rparr>" and ?w2 = "ex_met\<lparr>w_locks := [ex_device \<mapsto> 0], w_nextLock := 1, w_held := {0}\<rparr>"
  let ?r = "k 0 (w_store ?w2)"
  have "cstep 0 (ex_met, [Table ex_device (\<lambda>l. Lock l (OnStore (k l)))], [Free]) (?w1, [Lock 0 (OnStore (k 0))], [Got 0 ex_device])"
    using cstep.table [of 0 "[Table ex_device (\<lambda>l. Lock l (OnStore (k l)))]" ex_device "\<lambda>l. Lock l (OnStore (k l))" ex_met 0 ?w1 "[Free]"]
    by (simp add: deviceLock_def ex_met_def ex_world_def)
  moreover have "cstep 0 (?w1, [Lock 0 (OnStore (k 0))], [Got 0 ex_device]) (?w2, [OnStore (k 0)], [Held 0 ex_device])"
    using cstep.lock [of 0 "[Lock 0 (OnStore (k 0))]" 0 "OnStore (k 0)" ?w1 ?w2 "[Got 0 ex_device]"]
    by (simp add: mutex_Lock_Inr ex_met_def ex_world_def)
  moreover have "cstep 0 (?w2, [OnStore (k 0)], [Held 0 ex_device]) (?w2\<lparr>w_store := snd ?r\<rparr>, [fst ?r], [Held 0 ex_device])"
    using cstep.store [of 0 "[OnStore (k 0)]" "k 0" ?w2 "fst ?r" "snd ?r" "[Held 0 ex_device]"] by simp
  moreover have "ms_sessions (w_store ?w2) ex_device \<noteq> None" "ms_sessions (snd ?r) ex_device = None"
    by (simp_all add: k(2) ex_met_def ms_DeleteSession_def)
  ultimately show ?thesis
    using crun.more [OF crun.more [OF crun.none]] by (fastforce simp: launch_def k(1) simp del: call_steps.simps)
qed

theorem contacts_guarded_witness:
  "\<exists>w1 m1 h w2 ms2 hs2. crun (launch ex_met (map (call_steps stub ex_b) [CallReset ex_device])) (w1, [m1], [h]) \<and>
     cstep 0 (w1, [m1], [h]) (w2, ms2, hs2) \<and> ms_sessions (w_store w2) ex_device \<noteq> ms_sessions (w_store w1) ex_device \<and>
     (\<exists>l. h = Held l ex_device)"
proof -
  from ex_reset_steps obtain w1 m1 w2 ms2 hs2 where
    run: "crun (launch ex_met (map (call_steps stub ex_b) [CallReset ex_device])) (w1, [m1], [Held 0 ex_device])"
    "cstep 0 (w1, [m1], [Held 0 ex_device]) (w2, ms2, hs2)"
    and "ms_sessions (w_store w1) ex_device \<noteq> None" "ms_sessions (w_store w2) ex_device = None" by blast
  then have "ms_sessions (w_store w2) ex_device \<noteq> ms_sessions (w_store w1) ex_device" by metis
  with contacts_guarded [OF _ ex_met_ok run, of ex_device] run show ?thesis
    by (simp del: call_steps.simps) blast
qed

text \<open>
  C11. Calls that goroutines make on one manager never deadlock and always come to an end: there is no
  infinite interleaving of their steps, and from every configuration they reach all calls can go on until
  they have returned, with no mutex held.
\<close>

theorem calls_finish:
  assumes "m_store M = MemStore_Store" and "table_ok w" and "w_held w = {}"
    and "crun (launch w (map (call_steps B M) cs)) c"
  shows "wf {(c2, c1 :: (MemStore, 'e, outcome) configuration). \<exists>i. cstep i c1 c2} \<and>
     (\<exists>w' ms' hs'. crun c (w', ms', hs') \<and> finished ms' \<and> w_held w' = {})"
  using wf_cstep disciplined_can_finish [OF crun_disciplined [OF assms]] by blast

theorem calls_finish_witness:
  "\<exists>w' ms' hs'. crun (launch (ex_world ''b'' 2) (map (call_steps stub ex_b) ex_both)) (w', ms', hs') \<and>
     finished ms' \<and> w_held w' = {}"
  using calls_finish [OF _ ex_table crun.none, of ex_b "''b''" 2 stub ex_both] by (simp, blast)

section \<open>One-time prekeys\<close>

text \<open>
  C6. A one-time prekey is used once, also when goroutines under the mutexes of different devices decrypt
  at the same time: of two calls that decrypt key exchanges (of either protocol) naming the same prekey
  at most one returns a plaintext, in every interleaving with any other calls, the generation of new
  prekeys included.
\<close>

theorem prekey_used_once_concurrently:
  assumes "m_store M = MemStore_Store" and "ms_inv (w_store w)"
    and "0 < i" and "i \<le> ms_nextPreKeyID (w_store w)"
    and "unat (ms_nextPreKeyID (w_store w)) + sum_list (map allocates cs) < 2 ^ 32"
    and "a < length cs" and "b < length cs" and "a \<noteq> b"
    and "cs ! a = CallDecrypt msg" and "names_prekey B M msg i"
    and "cs ! b = CallDecrypt msg'" and "names_prekey B M msg' i"
    and "crun (launch w (map (call_steps B M) cs)) (w', ms', hs')" and "ms' ! a = Done (Inr x)"
  shows "ms' ! b \<noteq> Done (Inr y)"
proof (rule spent_once [OF assms(13) [unfolded launch_def] _ assms(8) _ _ assms(14)])
  show "pool_ready ms_inv ms_abs i w (map (call_steps B M) cs)"
    using assms(3-5) by (intro calls_pool_ready [OF assms(1,2)]) (simp_all add: issued_card)
  show "spends ms_inv ms_abs i (map (call_steps B M) cs ! a)" "spends ms_inv ms_abs i (map (call_steps B M) cs ! b)"
    using assms(6,7,9,11) DecryptMessageS_spends [OF assms(1)] assms(10,12) by simp_all
qed

lemma ex_names: "names_prekey stub ex_b (ex_msg ProtocolV2) 5"
  using ex_own_key by (auto simp: names_prekey_def own_key_def)

theorem prekey_used_once_concurrently_witness:
  "\<exists>w' ms' hs'. crun (launch (ex_world ''b'' 2) (map (call_steps stub ex_b) ex_both)) (w', ms', hs') \<and>
     ms' ! 0 = Done (Inr (Read (Some [104, 105]))) \<and> (\<exists>e. ms' ! 1 = Done (Inl e))"
proof -
  let ?c = "launch (ex_world ''b'' 2) (map (call_steps stub ex_b) ex_both)"
  let ?r = "Inr (Read (Some [104, 105]))"
  have "alone (call_steps stub ex_b (CallDecrypt (ex_msg ProtocolV2))) (ex_world ''b'' 2) = (?r, snd (ex_received ProtocolV2))"
    by (simp only: alone_call ex_decrypt)
  from crun_to_end [OF this, of 0 "map (call_steps stub ex_b) ex_both"] obtain c1 where
    c1: "crun ?c c1" "fst (snd c1) ! 0 = Done ?r" by (fastforce simp: ex_both_def launch_def)
  have M: "m_store ex_b = MemStore_Store" by simp
  from disciplined_can_finish [OF crun_disciplined [OF M ex_table c1(1)]] obtain w' ms' hs' where
    fin: "crun c1 (w', ms', hs')" "finished ms'" by blast
  from crun_trans [OF c1(1) fin(1)] have run: "crun ?c (w', ms', hs')" .
  from crun_done [OF fin(1) c1(2)] have first: "ms' ! 0 = Done ?r" by simp
  have not: "ms' ! 1 \<noteq> Done (Inr y)" for y
    using prekey_used_once_concurrently [OF M ex_world_inv _ _ _ _ _ _ _ ex_names _ ex_names run first, where b = 1 and y = y]
    by (simp add: ex_both_def ex_world_def ex_store_def)
  have "length ms' = 2" using crun_length [OF run] by (simp add: ex_both_def launch_def)
  then have "ms' ! 1 \<in> set ms'" by simp
  with fin(2) obtain r where "ms' ! 1 = Done r" unfolding finished_def by blast
  with not have "\<exists>e. ms' ! 1 = Done (Inl e)" by (cases r) auto
  with run first show ?thesis by blast
qed

section \<open>Trust decisions\<close>

text \<open>
  C26. Without a trust callback no call changes a trust decision: in every interleaving of calls among
  which the application makes no decision itself, every identity key keeps its trust state.
\<close>

theorem no_callback_no_trust_change:
  assumes "m_store M = MemStore_Store" and "ms_inv (w_store w)" and "table_ok w" and "w_held w = {}"
    and "m_trustResolver M = None" and "list_all decides_no_trust cs"
    and "crun (launch w (map (call_steps B M) cs)) (w', ms', hs')"
  shows "a_trust (ms_abs (w_store w')) = a_trust (ms_abs (w_store w))"
proof -
  have inv: "disciplined decide.free_step decide.held_step (launch w (map (call_steps B M) cs))"
    using assms(5,6) by (intro decide.calls_disciplined [OF assms(1,3,4)]) (auto simp: list_all_iff)
  show ?thesis
    using assms(7)
  proof (induction "(w', ms', hs')" arbitrary: w' ms' hs' rule: crun.induct)
    case (more c' i)
    obtain w1 ms1 hs1 where c': "c' = (w1, ms1, hs1)" by (cases c')
    note run = more.hyps(1) [unfolded c']
    from disciplined_step [OF more.hyps(3) [unfolded c'] disciplined_run [OF run inv]]
      decide.run_invar [OF inv run] assms(2)
    have "a_trust (ms_abs (w_store w')) = a_trust (ms_abs (w_store w1))"
      by (cases "hs1 ! i")
        (auto simp: launch_def decide.free_step_def decide.held_step_def kept_def trust_same_def)
    with more.hyps(2) [OF c'] show ?case by simp
  qed (simp add: launch_def)
qed

theorem no_callback_no_trust_change_witness:
  "\<exists>w' ms' hs'. crun (launch ex_met (map (call_steps stub (ex_b\<lparr>m_trustResolver := None\<rparr>))
       [CallEncrypt ''a'' (Some [1]), CallDecrypt (ex_msg ProtocolV2), CallRotate])) (w', ms', hs') \<and> finished ms' \<and>
     a_trust (ms_abs (w_store w')) = (\<lambda>_. TrustUndecided)"
proof -
  let ?M = "ex_b\<lparr>m_trustResolver := None\<rparr>"
  let ?cs = "[CallEncrypt ''a'' (Some [1]), CallDecrypt (ex_msg ProtocolV2), CallRotate]"
  have M: "m_store ?M = MemStore_Store" "m_trustResolver ?M = None" by simp_all
  from disciplined_can_finish [OF crun_disciplined [OF M(1) ex_met_ok(2,3) crun.none]] obtain w' ms' hs' where
    run: "crun (launch ex_met (map (call_steps stub ?M) ?cs)) (w', ms', hs')" "finished ms'" by blast
  have "list_all decides_no_trust ?cs" by simp
  from no_callback_no_trust_change [OF M(1) ex_met_ok M(2) this run(1)]
  have "a_trust (ms_abs (w_store w')) = (\<lambda>_. TrustUndecided)"
    by (simp add: ex_met_def ex_store_def ms_New_def ms_abs_def zero_TrustState_def)
  with run show ?thesis by blast
qed

text \<open>
  C24. \<open>checkTrust\<close> reads the trust state, asks the trust callback, and stores the acceptance without
  looking again. A decision against the key that the application stores while the callback is asked has
  returned successfully and is overwritten: in this interleaving the key ends up trusted.
\<close>

theorem checkTrust_race:
  assumes "m_store M = MemStore_Store" and "m_trustResolver M = Some r"
    and "ms_trust (w_store w) (slice_string k) = None" and "r dev k (w_env w) = (Inr (), e)"
  shows "\<exists>w1 ms1 hs1 w2 hs2.
     crun (launch w [result (\<lambda>_. Returned) (checkTrustS M dev k), call_steps B M (CallSetTrust k TrustUntrusted)]) (w1, ms1, hs1) \<and>
     ms1 ! 1 = Done (Inr Returned) \<and> ms_trust (w_store w1) (slice_string k) = Some TrustUntrusted \<and>
     crun (w1, ms1, hs1) (w2, [Done (Inr Returned), Done (Inr Returned)], hs2) \<and>
     ms_trust (w_store w2) (slice_string k) = Some TrustTrusted"
proof -
  let ?load = "storeS (Trust MemStore_Store k) :: (MemStore, 'a, TrustState) steps"
  define F where "F = (\<lambda>q. result (\<lambda>_. Returned) (case_sum throwS (\<lambda>state.
     if state = TrustTrusted then retS ()
     else if state = TrustUntrusted then throwS ErrBlockedDevice
     else andThenS (envS (r dev k)) (\<lambda>_. storeS (SetTrust MemStore_Store k TrustTrusted))) q) :: (MemStore, 'a, outcome) steps)"
  let ?app = "call_steps B M (CallSetTrust k TrustUntrusted)"
  have steps: "result (\<lambda>_. Returned) (checkTrustS M dev k) = bindS (wrapErrS ''load trust state'' ?load) F"
    unfolding checkTrustS_def F_def result_def andThenS_def bindS_assoc assms(1,2) option.case ..
  let ?w1 = "w\<lparr>w_store := (w_store w)\<lparr>ms_trust := (ms_trust (w_store w))(slice_string k \<mapsto> TrustUntrusted)\<rparr>\<rparr>"
  let ?w2 = "?w1\<lparr>w_env := e, w_store := (w_store ?w1)\<lparr>ms_trust := (ms_trust (w_store ?w1))(slice_string k \<mapsto> TrustTrusted)\<rparr>\<rparr>"
  have "alone (wrapErrS ''load trust state'' ?load) w = (Inr 0, w)"
    using assms(3) by (simp add: alone_simps act_simps liftS_def ms_Trust_def)
  from crun_uninterrupted [OF this, of 0 "[bindS (wrapErrS ''load trust state'' ?load) F, ?app]" F "[Free, Free]"]
  obtain h1 where 1: "crun (w, [bindS (wrapErrS ''load trust state'' ?load) F, ?app], [Free, Free]) (w, [F (Inr 0), ?app], h1)"
    by auto
  have "alone ?app w = (Inr Returned, ?w1)"
    by (simp add: result_def alone_simps act_simps liftS_def ms_SetTrust_def assms(1))
  from crun_to_end [OF this, of 1 "[F (Inr 0), ?app]" h1] obtain h2 where
    2: "crun (w, [F (Inr 0), ?app], h1) (?w1, [F (Inr 0), Done (Inr Returned)], h2)" by auto
  have "alone (F (Inr 0)) ?w1 = (Inr Returned, ?w2)"
    using assms(4) by (simp add: F_def result_def alone_simps act_simps liftS_def liftE_def ms_SetTrust_def zero_TrustState_def)
  from crun_to_end [OF this, of 0 "[F (Inr 0), Done (Inr Returned)]" h2] obtain h3 where
    3: "crun (?w1, [F (Inr 0), Done (Inr Returned)], h2) (?w2, [Done (Inr Returned), Done (Inr Returned)], h3)" by auto
  show ?thesis
    by (rule exI [of _ ?w1], rule exI [of _ "[F (Inr 0), Done (Inr Returned)]"], rule exI [of _ h2], rule exI [of _ ?w2], rule exI [of _ h3])
      (use crun_trans [OF 1 2] 3 in \<open>simp add: launch_def steps\<close>)
qed

theorem checkTrust_race_witness:
  "\<exists>w1 ms1 hs1 w2 hs2.
     crun (launch (ex_world ''b'' 2) [result (\<lambda>_. Returned) (checkTrustS ex_b ex_device (Some [1])),
       call_steps stub ex_b (CallSetTrust (Some [1]) TrustUntrusted)]) (w1, ms1, hs1) \<and>
     ms1 ! 1 = Done (Inr Returned) \<and> ms_trust (w_store w1) [1] = Some TrustUntrusted \<and>
     crun (w1, ms1, hs1) (w2, [Done (Inr Returned), Done (Inr Returned)], hs2) \<and>
     ms_trust (w_store w2) [1] = Some TrustTrusted"
  using checkTrust_race [of ex_b trust_all "ex_world ''b'' 2" "Some [1]" ex_device ex_env stub]
  by (simp add: trust_all_def ret_def ex_world_def ex_store_def ms_New_def slice_string_def del: call_steps.simps)

section \<open>Rotations of the signed prekey\<close>

text \<open>
  C25. \<open>RotateSignedPreKey\<close> is not guarded by a mutex. There is an interleaving of two rotations, both of
  which succeed, after which both new signed prekeys have had the same identifier: the first is lost to
  every peer that uses it, and so is the one that was current before, although the grace period of a
  single rotation keeps it.
\<close>

theorem rotations_race:
  assumes "m_store M = MemStore_Store" and "spr_Public (ms_currentSPK (w_store w)) \<noteq> None"
    and "GenerateSignedPreKey B (m_protocol M) (m_identityKey M) (w_env w) = (Inr (Some p1, q1, g1), e1)"
    and "GenerateSignedPreKey B (m_protocol M) (m_identityKey M) e1 = (Inr (p2, q2, g2), e2)"
  shows "\<exists>w' hs i. crun (launch w (map (call_steps B M) [CallRotate, CallRotate])) (w', [Done (Inr Returned), Done (Inr Returned)], hs) \<and>
     i = spr_ID (ms_currentSPK (w_store w)) + 1 \<and>
     signedPreKeyByID M i w' = (Inr \<lparr>spr_ID = i, spr_Public = p2, spr_Private = q2, spr_Signature = g2\<rparr>, w') \<and>
     (\<exists>err. signedPreKeyByID M (spr_ID (ms_currentSPK (w_store w))) w' = (Inl err, w'))"
proof -
  let ?i = "spr_ID (ms_currentSPK (w_store w)) + 1"
  define F where "F = (\<lambda>q. result (\<lambda>_. Returned) (case_sum throwS (\<lambda>nextID.
     andThenS (wrapErrS ''generate signed prekey'' (envS (GenerateSignedPreKey B (m_protocol M) (m_identityKey M))))
       (\<lambda>(spkPub, spkPriv, spkSig). storeS (RotateSignedPreKey MemStore_Store \<lparr>spr_ID = nextID, spr_Public = spkPub,
          spr_Private = spkPriv, spr_Signature = spkSig\<rparr>))) q) :: (MemStore, 'a, outcome) steps)"
  let ?rot = "bindS (nextSignedPreKeyIDS M) F"
  have steps: "call_steps B M CallRotate = ?rot"
    unfolding call_steps.simps RotateSignedPreKeyS_def F_def result_def andThenS_def bindS_assoc assms(1) ..
  let ?r = "\<lambda>p q g. \<lparr>spr_ID = ?i, spr_Public = p, spr_Private = q, spr_Signature = g\<rparr>"
  let ?w1 = "w\<lparr>w_env := e1, w_store := (w_store w)\<lparr>ms_staleSPK := Some (ms_currentSPK (w_store w)), ms_currentSPK := ?r (Some p1) q1 g1\<rparr>\<rparr>"
  let ?w2 = "?w1\<lparr>w_env := e2, w_store := (w_store ?w1)\<lparr>ms_staleSPK := Some (?r (Some p1) q1 g1), ms_currentSPK := ?r p2 q2 g2\<rparr>\<rparr>"
  have load: "alone (nextSignedPreKeyIDS M) w = (Inr ?i, w)"
    by (simp add: alone_simps nextSignedPreKeyID_def act_simps liftS_def ms_defs assms(1))
  from crun_uninterrupted [OF load, of 0 "[?rot, ?rot]" F "[Free, Free]"] obtain h1 where
    1: "crun (w, [?rot, ?rot], [Free, Free]) (w, [F (Inr ?i), ?rot], h1)" by auto
  from crun_uninterrupted [OF load, of 1 "[F (Inr ?i), ?rot]" F h1] obtain h2 where
    2: "crun (w, [F (Inr ?i), ?rot], h1) (w, [F (Inr ?i), F (Inr ?i)], h2)" by auto
  have "alone (F (Inr ?i)) w = (Inr Returned, ?w1)"
    using assms(2,3) by (simp add: F_def result_def alone_simps act_simps liftS_def liftE_def ms_RotateSignedPreKey_def Let_def)
  from crun_to_end [OF this, of 0 "[F (Inr ?i), F (Inr ?i)]" h2] obtain h3 where
    3: "crun (w, [F (Inr ?i), F (Inr ?i)], h2) (?w1, [Done (Inr Returned), F (Inr ?i)], h3)" by auto
  have "alone (F (Inr ?i)) ?w1 = (Inr Returned, ?w2)"
    using assms(4) by (simp add: F_def result_def alone_simps act_simps liftS_def liftE_def ms_RotateSignedPreKey_def Let_def)
  from crun_to_end [OF this, of 1 "[Done (Inr Returned), F (Inr ?i)]" h3] obtain h4 where
    4: "crun (?w1, [Done (Inr Returned), F (Inr ?i)], h3) (?w2, [Done (Inr Returned), Done (Inr Returned)], h4)" by auto
  have "signedPreKeyByID M ?i ?w2 = (Inr (?r p2 q2 g2), ?w2)"
    "\<exists>err. signedPreKeyByID M (spr_ID (ms_currentSPK (w_store w))) ?w2 = (Inl err, ?w2)"
    by (simp_all add: signedPreKeyByID_def act_simps liftS_def ms_defs assms(1))
  with crun_trans [OF crun_trans [OF crun_trans [OF 1 2] 3] 4] show ?thesis
    by (intro exI [of _ ?w2] exI [of _ h4] exI [of _ ?i]) (simp add: launch_def steps del: call_steps.simps)
qed

theorem rotations_race_witness:
  "\<exists>w' hs err. crun (launch (ex_world ''b'' 2) (map (call_steps stub ex_b) [CallRotate, CallRotate]))
      (w', [Done (Inr Returned), Done (Inr Returned)], hs) \<and>
     signedPreKeyByID ex_b 1 w' = (Inl err, w')"
proof -
  obtain p1 q1 g1 e1 where g1: "GenerateSignedPreKey stub (m_protocol ex_b) (m_identityKey ex_b) (w_env (ex_world ''b'' 2)) =
     (Inr (Some p1, q1, g1), e1)"
    by (simp add: GenerateSignedPreKey_def stub_def stub_spk_def stub_keypair_def act_simps)
  obtain p2 q2 g2 e2 where g2: "GenerateSignedPreKey stub (m_protocol ex_b) (m_identityKey ex_b) e1 = (Inr (p2, q2, g2), e2)"
    by (simp add: GenerateSignedPreKey_def stub_def stub_spk_def stub_keypair_def act_simps)
  have "spr_Public (ms_currentSPK (w_store (ex_world ''b'' 2))) \<noteq> None" "spr_ID (ms_currentSPK (w_store (ex_world ''b'' 2))) = 1"
    by (simp_all add: ex_world_def ex_store_def)
  with rotations_race [OF _ this(1) g1 g2] show ?thesis by (simp del: call_steps.simps) blast
qed

end
