(* ===== verification/Spec2Isabelle.thy ===== *)
theory Spec2Isabelle
  imports Properties_Encrypt Properties_Decrypt Properties_PreKeys Properties_Calls
    Properties_Conversation Properties_Published Properties_Setup Properties_Safety Properties_Goroutines
begin

text \<open>
  A model of \<open>omemo-go\<close>, the Go library that keeps the state of the OMEMO protocol (XEP-0384): the
  identity of a device, its prekeys, the sessions with other devices, trust in their identity keys.

  \<^bold>\<open>The program and its parts.\<close> An application creates an identity in a store (\<open>InitIdentity\<close>) and a
  \<open>Manager\<close> over the store and a transport (\<open>NewManager\<close>). \<open>EncryptMessage\<close> looks up the devices of the
  recipient and of the own account, and for each device, under the device's mutex, loads or starts a
  session, checks trust, encrypts the message's key and stores the session. \<open>DecryptMessage\<close> finds the
  key for the own device, and under the sender's mutex loads the session or builds it from the key
  exchange, which uses up a one-time prekey, decrypts the key and then the payload. All state that
  outlives a call is in the store. The calls into cryptography go through \<open>internal/signal\<close>.

  \<^bold>\<open>Which theory models what.\<close>
  \<^item> \<open>Omemo_Prelude\<close>: the development's collections of simplification rules, Go's slices (nil and its
    bytes: \<open>slice\<close>), integers (\<open>uint32\<close>), decimal output.
  \<^item> \<open>Omemo_Types\<close>: \<open>types.go\<close> and \<open>envelope.go\<close>. \<open>Omemo_Errors\<close>: \<open>errors.go\<close> and the wrapping of errors
    with \<open>%w\<close>; a panic is the error \<open>Fatal\<close>, which no code catches.
  \<^item> \<open>Omemo_Actions\<close>: functions with a result \<open>(value, error)\<close> that act on a state, their control flow
    (\<open>andThen\<close> is the early return, \<open>wrapErr\<close> the wrapped one) and weakest preconditions.
  \<^item> \<open>Omemo_Store\<close>: the interfaces of \<open>store.go\<close> as a record of methods; what their comments promise as
    locales on an abstract store (\<open>identity_store\<close>, \<open>prekey_store\<close>, \<open>session_store\<close>, \<open>trust_store\<close>,
    \<open>device_store\<close>, their sum \<open>omemo_store\<close>, and \<open>reliable_store\<close> for a store that does not fail).
  \<^item> \<open>Omemo_Memstore\<close>: \<open>memstore/memstore.go\<close>, every method, and the interpretation of the locales.
    The order in which Go ranges over the prekey map is a parameter of the state.
  \<^item> \<open>Omemo_Transport\<close>: the interface of \<open>transport.go\<close>. \<open>Omemo_Fake\<close>: the network and transport of
    \<open>manager_test.go\<close>, and a backend without cryptography for concrete runs. \<open>Omemo_Setup\<close>: \<open>setup\<close> of
    \<open>manager_test.go\<close>, as \<open>setup_Manager\<close> (\<open>setup\<close> is a keyword of Isabelle).
  \<^item> \<open>Omemo_Signal\<close>: \<open>internal/signal/signal.go\<close>, function by function. The functions it calls in
    \<open>xochimilco\<close> and in Go's standard cryptography are the fields of the record \<open>backend\<close>.
  \<^item> \<open>Omemo_Manager\<close>: \<open>manager.go\<close>, function by function in the file's order. The fields of \<open>Manager\<close>
    that do not change are the record \<open>Manager\<close>; store, environment and the table of mutexes are the
    record \<open>world\<close>. A mutex is a number; locking one that is held is the runtime's deadlock report.
  \<^item> \<open>Omemo_Steps\<close>: the functions of \<open>manager.go\<close> that its exported methods run, a second time as programs
    of atomic steps (the names end in \<open>S\<close>), so that goroutines in different calls can be interleaved. A
    step is one store method, one call of the environment (transport, backend, trust callback), one
    access to the table of mutexes, one lock or one unlock. \<open>Manager_Alone\<close> proves that an uninterrupted
    step program is the function of \<open>Omemo_Manager\<close>.

  \<^bold>\<open>The library of lemmas.\<close>
  \<^item> \<open>Manager_Calculus\<close> (worlds, stable relations, mutexes), \<open>Manager_Store\<close> (the manager as a client of
    the store's contract; trust and \<open>encryptForDevice\<close>), \<open>Manager_Encrypt\<close> and \<open>Manager_Delivery\<close>
    (\<open>encrypt\<close>; what happens to one device), \<open>Manager_Decrypt\<close> (what a message may change),
    \<open>Manager_PreKeys\<close> (initialisation and the prekey pool), \<open>Manager_Calls\<close> (all sequences of calls, by
    the locale \<open>call_relation\<close> and its two interpretations).
  \<^item> \<open>Backend_Laws\<close>: what the backend is assumed to do where a theorem needs it: a ratchet's message is
    read by its counterpart and keeps both in step, a stored ratchet is loaded again, a payload
    decrypts to the bytes it was made from. \<open>Manager_Handshake\<close> adds the two key agreements. Their laws
    speak of identity keys made by \<open>GenerateIdentityKey\<close> only (a seed with a public half of its own, as
    the comment of \<open>IdentityPublicKey\<close> asks for), and of prekeys made for such keys.
  \<^item> \<open>Manager_Environment\<close> (conditions on the network that calls keep), \<open>Manager_Conversation\<close> (what a
    message holds for one device), \<open>Manager_Receive\<close>, \<open>Manager_Dialogue\<close>, \<open>Manager_Handshake\<close> (how the
    device reads it), \<open>Manager_Acquaintance\<close> (when a device is sure to be served, its list fetched from the
    network if need be), \<open>Manager_Exchange\<close> (dialogues), \<open>Fake_Laws\<close> (the backend without cryptography satisfies all laws, so the
    assumptions can hold together).
  \<^item> \<open>Manager_Published\<close>, \<open>Manager_Opening\<close>: every key in a store was generated for its identity, from
    \<open>InitIdentity\<close> on and over all calls, so the private halves of all keys of a bundle are there when it is
    built (\<open>backed\<close>). What a sender needs of a bundle later is weaker (\<open>offered\<close>: the identity key, the signed
    prekey and the one one-time prekey the code takes); the first message made with it makes the two
    devices conversation partners.
  \<^item> \<open>Manager_Meeting\<close>: a backend that can start sessions serves and is read by a device never written to
    before; \<open>Manager_Setup\<close>: what \<open>setup\<close> leaves in the store and the network, and that it succeeds.
  \<^item> \<open>Manager_Events\<close>, \<open>Manager_Simulation\<close>: two accounts over time (\<open>event\<close>, \<open>history\<close>), an abstract account
    of what they need of each other (\<open>side\<close>, \<open>allowed\<close>, \<open>after\<close>), and the relation \<open>pair_ok\<close> by which every
    allowed event of the model is the abstract one. \<open>Manager_Spent\<close>: a published bundle serves one session.
  \<^item> \<open>Manager_Panics\<close>: sessions hold their ratchet; nothing in the library panics by itself.
  \<^item> \<open>Steps_Calculus\<close> (running a step program alone; what all its steps keep), \<open>Steps_Interleaving\<close>
    (configurations of goroutines, the step relation \<open>cstep\<close> in which a held lock blocks, the discipline
    that ties every store change to the mutex held), \<open>Steps_Progress\<close> (no deadlock, no infinite run),
    \<open>Manager_Goroutines\<close> and \<open>Manager_Pool\<close> (the calls of a manager follow the discipline, by the locale
    \<open>guarded_calls\<close> and its interpretations).

  \<^bold>\<open>What is shown.\<close>
  \<^item> \<open>Properties_Encrypt\<close>: every key is for a listed device with a session and a trusted identity key,
    every device has a key or a reported failure, a device that can be served is, a blocked or undecided
    one is refused, key-transport messages, and what a call leaves alone.
  \<^item> \<open>Properties_Decrypt\<close>: what a key exchange uses up and records, what a message needs and may change,
    and the errors of messages that are refused.
  \<^item> \<open>Properties_PreKeys\<close>: initialisation, generation, rotation and its grace period, bundles.
  \<^item> \<open>Properties_Calls\<close>: over all sequences of calls, a one-time prekey opens one session, a blocked key
    stays blocked, the identity stays.
  \<^item> \<open>Properties_Conversation\<close>: the first message of either protocol and dialogues of any length are read
    by the other device with the bytes that were sent; a reset leads to a new key exchange.
  \<^item> \<open>Properties_Published\<close>: from new stores to a conversation: all keys of a bundle have their private
    halves in the store, and keep them until they are used up or rotated out; the first message is
    read, and after one trust decision of the receiver every dialogue is.
  \<^item> \<open>Properties_Setup\<close>: two accounts set up by \<open>setup\<close> in the in-memory network of \<open>manager_test.go\<close>,
    whatever it holds before, can talk, reset sessions, publish bundles, rotate and top up prekeys; every history that the abstract account allows succeeds, with no
    call assumed to. One that it does not allow: a session reset without a new publication of the peer.
  \<^item> \<open>Properties_Safety\<close>: well-formed sessions; no panics of calls whose counts \<open>make\<close> accepts; the
    in-memory store keeps the contract the proofs use, which is weaker than the comments of \<open>store.go\<close>
    and \<open>errors.go\<close> in two places (see \<open>Omemo_Store\<close>); and what equal device identifiers in two
    accounts lead to.
  \<^item> \<open>Properties_Goroutines\<close>: any number of goroutines in any calls of one manager, in every
    interleaving: sessions and identity keys change under the device's mutex only, a one-time prekey opens
    one session, trust changes only by decision, all calls end; and two races of steps that no mutex
    guards, in the rotation of signed prekeys and between a trust callback and \<open>SetTrust\<close>.

  \<^bold>\<open>Bounds.\<close> No definition needs fuel: the loops of the code range over lists or count down, and are
  structural recursions. Identifiers are 32-bit words; the in-memory store's counter wraps, so the
  freshness of prekey identifiers is stated for fewer than \<open>2^32\<close> allocations, and their repetition
  after as many is a theorem of its own. \<open>int\<close> counts are unbounded integers: the code compares
  them with small constants, loops up to them and hands one to \<open>make\<close>, which panics for a negative
  count and for one above \<open>max_prekeys\<close>, where the slice of records outgrows the address space of a
  64-bit port. Running out of memory is not modelled.

  \<^bold>\<open>What is not modelled.\<close>
  \<^item> The cryptographic module and Go's curve and random functions, which are not in the repository: they
    are a parameter, and a call on them may return anything unless a theorem assumes a law.
  \<^item> Sharing of byte slices: a slice is a value, so a caller that overwrites the bytes of a slice it
    passed to or got from the in-memory store is outside the model.
  \<^item> A trust callback or a transport that calls back into the same manager while it runs: they act on the
    environment only. (With a mutex of the device held, a call for the same device would block on it.)
  \<^item> \<open>context.Context\<close>, which the library only passes on.
  \<^item> Concurrency below the atomic steps: each method of the in-memory store runs under the store's own
    mutex and \<open>deviceLock\<close> under the manager's, so they are steps; what a transport, the backend or a
    trust callback does during its step is not interleaved with the store steps of other goroutines.
  \<^item> Fairness of the scheduler, which no theorem needs: there is no infinite interleaving.
  \<^item> The test functions, which drive the library (the network and \<open>setup\<close> they use are modelled), and
    \<open>devtest/\<close>, a Python process and build files around a third-party library for interoperability tests.
\<close>

end
